(* ===== verification/Dwh_Prelude.thy ===== *)
theory Dwh_Prelude
  imports Main "HOL-Library.List_Lexorder" "HOL-Library.Char_ord" "HOL-Library.Word"
begin

text \<open>
  Shared vocabulary of the development: the error values of the Go packages, the time and
  identifier types, and the table operations every SQL statement of the model is written with.

  A Go \<open>error\<close> is a value of \<open>err\<close>. A sentinel variable of a package is a constructor of the
  same name, and wrapping it with \<open>%w\<close> keeps the constructor, which is what \<open>errors.Is\<close> tests.
  An error built from a format string alone is \<open>ErrMsg\<close> with the fixed part of its text;
  \<open>ErrInvalid\<close> of the reporting component carries the fixed part of the text it is wrapped with,
  and the sentinels of package \<open>mfa\<close> have \<open>MFA\<close> in their names.
  \<open>ErrMySQL n\<close> is a server error with its number, \<open>ErrNoRows\<close> is \<open>sql.ErrNoRows\<close>, \<open>ErrCtx\<close> a
  cancelled or expired context, \<open>ErrIO\<close> any other driver failure, and \<open>ErrDiverge\<close> the value of
  a call that never returns.

  A table is a list of records. \<open>sql_update\<close> rewrites the rows its condition selects and
  \<open>sql_changed\<close> counts the rows that really changed, which is what MySQL reports as affected
  rows to this client (the driver's \<open>clientFoundRows\<close> is off in
  \<^verbatim>\<open>src/internal/database/mysql.go\<close>).
\<close>

section \<open>Types\<close>

type_synonym time = int \<comment> \<open>microseconds since 1970-01-01 UTC, the precision of DATETIME(6)\<close>
type_synonym rowid = nat \<comment> \<open>BIGINT UNSIGNED AUTO_INCREMENT identifiers, from 1\<close>
type_synonym hash = string \<comment> \<open>a [32]byte digest\<close>

abbreviation second :: time where "second \<equiv> 1000000"
abbreviation minute :: time where "minute \<equiv> 60000000"
abbreviation hour :: time where "hour \<equiv> 3600000000"

text \<open>The reasons a schedule definition is rejected with \<open>ErrInvalidDefinition\<close>, one per format
  string of \<^verbatim>\<open>src/internal/scheduler\<close>, with the arguments the message prints.\<close>

datatype def_reason =
    UnsupportedPolicy string "16 word"
  | PolicyPayload
  | PolicyTrailing
  | PolicyChecksumMismatch
  | StrictCronRequired
  | TimezoneRequired
  | LoadTimezone string
  | ParseCron string
  | NoFutureOccurrence
  | NameRequired
  | UnknownJob string
  | RequiresPolicy string string
  | CursorNotOccurrence
  | ActiveOccurrenceCursor
  | OccurrenceDiffers
  | ResolutionContract
  | AttemptSequence
  | AttemptHistory
  | NoNextOccurrence
  | JobRequired
  | JobSelectedTwice string
  | BulkMustShare
  | NotSchedulable string

datatype err =
    ErrNoRows
  | ErrMySQL nat
  | ErrCtx
  | ErrIO
  | ErrDiverge
  | ErrMsg string
  | ErrJobBusy
  | ErrSourceDisabled
  | ErrSourceConfigurationRequired
  | ErrTransition
  | ErrOwnershipLost
  | ErrLeaseUnproven
  | ErrCancellationRequested
  | ErrCoordinatorShutdown
  | ErrRuntimeSettingsConflict
  | ErrConflict
  | ErrBacklog
  | ErrArchived
  | ErrInvalidDefinition def_reason
  | ErrInvalidBulkAction
  | ErrInvalidSelection
  | ErrInvalid string
  | ErrMFAInvalid
  | ErrMFAExhausted
  | ErrMFAPending
  | ErrSessionNotFound

type_synonym 'a result = "err + 'a"

section \<open>Tables\<close>

definition sql_update :: "('r \<Rightarrow> bool) \<Rightarrow> ('r \<Rightarrow> 'r) \<Rightarrow> 'r list \<Rightarrow> 'r list" where
  "sql_update P f rows = map (\<lambda>r. if P r then f r else r) rows"

definition sql_changed :: "('r \<Rightarrow> bool) \<Rightarrow> ('r \<Rightarrow> 'r) \<Rightarrow> 'r list \<Rightarrow> nat" where
  "sql_changed P f rows = length (filter (\<lambda>r. P r \<and> f r \<noteq> r) rows)"

definition sql_count :: "('r \<Rightarrow> bool) \<Rightarrow> 'r list \<Rightarrow> nat" where
  "sql_count P rows = length (filter P rows)"

text \<open>\<open>SELECT ... ORDER BY key LIMIT 1\<close>: the first row with the least key among the selected ones.\<close>

fun sql_first_by :: "('r \<Rightarrow> 'k::linorder) \<Rightarrow> 'r list \<Rightarrow> 'r option" where
  "sql_first_by k [] = None"
| "sql_first_by k (r # rs) =
     (case sql_first_by k rs of
        None \<Rightarrow> Some r
      | Some s \<Rightarrow> if k r \<le> k s then Some r else Some s)"

text \<open>A UNIQUE KEY over a nullable column: rows whose key is not NULL have different keys.\<close>

definition unique_key :: "('r \<Rightarrow> 'k option) \<Rightarrow> 'r list \<Rightarrow> bool" where
  "unique_key k rows \<longleftrightarrow> distinct (map the (filter (\<lambda>x. x \<noteq> None) (map k rows)))"

definition next_id :: "('r \<Rightarrow> rowid) \<Rightarrow> 'r list \<Rightarrow> rowid" where
  "next_id ident rows = Suc (fold max (map ident rows) 0)"

text \<open>MySQL comparisons with NULL are never true.\<close>

definition sql_le :: "'a::linorder option \<Rightarrow> 'a \<Rightarrow> bool" where
  "sql_le x y = (case x of None \<Rightarrow> False | Some v \<Rightarrow> v \<le> y)"

section \<open>Lemmas on tables\<close>

lemma set_sql_update: "set (sql_update P f rows) = (\<lambda>r. if P r then f r else r) ` set rows"
  by (simp add: sql_update_def)

lemma length_sql_update [simp]: "length (sql_update P f rows) = length rows"
  by (simp add: sql_update_def)

lemma sql_update_Nil [simp]: "sql_update P f [] = []"
  by (simp add: sql_update_def)

lemma sql_update_Cons [simp]:
  "sql_update P f (r # rs) = (if P r then f r else r) # sql_update P f rs"
  by (simp add: sql_update_def)

lemma in_sql_update:
  assumes "r \<in> set (sql_update P f rows)"
  obtains s where "s \<in> set rows" and "r = (if P s then f s else s)"
  using assms by (auto simp: set_sql_update)

lemma map_sql_update:
  assumes "\<And>r. r \<in> set rows \<Longrightarrow> P r \<Longrightarrow> g (f r) = g r"
  shows "map g (sql_update P f rows) = map g rows"
  using assms by (induction rows) auto

lemma sql_update_none:
  assumes "\<And>r. r \<in> set rows \<Longrightarrow> \<not> P r"
  shows "sql_update P f rows = rows"
  using assms by (induction rows) auto

lemma sql_changed_0_iff: "sql_changed P f rows = 0 \<longleftrightarrow> sql_update P f rows = rows"
  by (induction rows) (auto simp: sql_changed_def)

lemma sql_changed_pos:
  assumes "sql_changed P f rows = Suc n"
  obtains r where "r \<in> set rows" and "P r" and "f r \<noteq> r"
proof -
  from assms have "filter (\<lambda>r. P r \<and> f r \<noteq> r) rows \<noteq> []"
    by (auto simp: sql_changed_def)
  then obtain r where "r \<in> set (filter (\<lambda>r. P r \<and> f r \<noteq> r) rows)"
    by (metis list.set_sel(1))
  then show thesis using that by auto
qed

lemma sql_first_by_None [simp]: "sql_first_by k rows = None \<longleftrightarrow> rows = []"
  by (cases rows) (auto split: option.splits)

lemma sql_first_by_in: "sql_first_by k rows = Some r \<Longrightarrow> r \<in> set rows"
  by (induction rows arbitrary: r) (auto split: option.splits if_splits)

lemma sql_first_by_least: "sql_first_by k rows = Some r \<Longrightarrow> s \<in> set rows \<Longrightarrow> k r \<le> k s"
  by (induction rows arbitrary: r) (fastforce split: option.splits if_splits)+

lemma fold_max_ge: "(m::nat) \<le> fold max xs m \<and> (\<forall>x \<in> set xs. x \<le> fold max xs m)"
proof (induction xs arbitrary: m)
  case Nil
  then show ?case by simp
next
  case (Cons x xs)
  from Cons.IH [of "max x m"] show ?case by auto
qed

lemma next_id_fresh: "r \<in> set rows \<Longrightarrow> ident r < next_id ident rows"
  using fold_max_ge [of 0 "map ident rows"] by (auto simp: next_id_def less_Suc_eq_le)

lemma next_id_pos [simp]: "0 < next_id ident rows"
  by (simp add: next_id_def)

lemma distinct_by_id_eq:
  assumes "distinct (map ident rows)" "r \<in> set rows" "s \<in> set rows" "ident r = ident s"
  shows "r = s"
  using assms by (metis distinct_map inj_onD)

lemma sql_count_update_le:
  assumes "\<And>r. r \<in> set rows \<Longrightarrow> P r \<Longrightarrow> Q (f r) \<Longrightarrow> Q r"
  shows "sql_count Q (sql_update P f rows) \<le> sql_count Q rows"
  using assms by (induction rows) (auto simp: sql_count_def)

lemma sql_count_append [simp]: "sql_count Q (xs @ ys) = sql_count Q xs + sql_count Q ys"
  by (simp add: sql_count_def)

lemma sql_count_0_iff: "sql_count Q rows = 0 \<longleftrightarrow> (\<forall>r \<in> set rows. \<not> Q r)"
  by (auto simp: sql_count_def filter_empty_conv)

lemma filter_by_id_single:
  assumes "distinct (map ident rows)" "r \<in> set rows"
  shows "filter (\<lambda>s. ident s = ident r) rows = [r]"
  using assms
proof (induction rows)
  case Nil
  then show ?case by simp
next
  case (Cons a rows)
  show ?case
  proof (cases "ident a = ident r")
    case True
    then have "r = a" using Cons.prems by (auto simp: rev_image_eqI)
    moreover have "filter (\<lambda>s. ident s = ident a) rows = []"
      using Cons.prems(1) by (auto simp: filter_empty_conv image_iff)
    ultimately show ?thesis by simp
  next
    case False
    then show ?thesis using Cons by auto
  qed
qed

end
