(* ===== verification/Go_Strings.thy ===== *)
theory Go_Strings
  imports Dwh_Prelude "HOL-Library.Sublist"
begin

text \<open>
  The functions of Go's \<open>strings\<close>, \<open>unicode/utf8\<close> and \<open>strconv\<close> packages that the modelled code
  calls. A Go string is its list of bytes, a \<open>string\<close> here; \<open>len\<close> is \<open>length\<close>, \<open><\<close> is the
  bytewise lexicographic order of \<open>List_Lexorder\<close>. A rune is a natural number; \<open>decode_runes\<close> is
  \<open>[]rune(s)\<close>, in which every byte that starts no well-formed UTF-8 sequence is U+FFFD, and
  \<open>encode_runes\<close> is \<open>string(runes)\<close>. Shown: a decoded well-formed encoding is the rune list again,
  so a bound on runes survives the conversion; decimal printing at a fixed width orders like the
  numbers and is read back.
\<close>

section \<open>Runes\<close>

type_synonym rune = nat

definition RuneError :: rune where "RuneError = 0xFFFD"

definition cont :: "nat \<Rightarrow> bool" where "cont b = (0x80 \<le> b \<and> b \<le> 0xBF)"

text \<open>The range of the second byte of a three or four byte sequence depends on the first.\<close>

definition accept3 :: "nat \<Rightarrow> nat \<Rightarrow> bool" where
  "accept3 a b = (if a = 0xE0 then 0xA0 \<le> b \<and> b \<le> 0xBF
                  else if a = 0xED then 0x80 \<le> b \<and> b \<le> 0x9F else cont b)"

definition accept4 :: "nat \<Rightarrow> nat \<Rightarrow> bool" where
  "accept4 a b = (if a = 0xF0 then 0x90 \<le> b \<and> b \<le> 0xBF
                  else if a = 0xF4 then 0x80 \<le> b \<and> b \<le> 0x8F else cont b)"

text \<open>\<open>DecodeRune\<close>: the first rune of a non-empty byte list and the number of bytes it takes.\<close>

definition decode_rune :: "nat list \<Rightarrow> rune \<times> nat" where
  "decode_rune bs =
     (case bs of
        [] \<Rightarrow> (RuneError, 0)
      | a # r \<Rightarrow>
          if a < 0x80 then (a, 1)
          else if 0xC2 \<le> a \<and> a \<le> 0xDF then
            (case r of
               b # _ \<Rightarrow> if cont b then (64 * (a - 0xC0) + (b - 0x80), 2) else (RuneError, 1)
             | _ \<Rightarrow> (RuneError, 1))
          else if 0xE0 \<le> a \<and> a \<le> 0xEF then
            (case r of
               b # c # _ \<Rightarrow>
                 if accept3 a b \<and> cont c
                 then (4096 * (a - 0xE0) + 64 * (b - 0x80) + (c - 0x80), 3) else (RuneError, 1)
             | _ \<Rightarrow> (RuneError, 1))
          else if 0xF0 \<le> a \<and> a \<le> 0xF4 then
            (case r of
               b # c # d # _ \<Rightarrow>
                 if accept4 a b \<and> cont c \<and> cont d
                 then (262144 * (a - 0xF0) + 4096 * (b - 0x80) + 64 * (c - 0x80) + (d - 0x80), 4)
                 else (RuneError, 1)
             | _ \<Rightarrow> (RuneError, 1))
          else (RuneError, 1))"

function decode_bytes :: "nat list \<Rightarrow> rune list" where
  "decode_bytes [] = []"
| "decode_bytes (b # bs) =
     fst (decode_rune (b # bs)) # decode_bytes (drop (max 1 (snd (decode_rune (b # bs)))) (b # bs))"
  by pat_completeness auto
termination
  by (relation "measure length") auto

definition valid_rune :: "rune \<Rightarrow> bool" where
  "valid_rune r = (r < 0xD800 \<or> (0xE000 \<le> r \<and> r \<le> 0x10FFFF))"

definition encode_rune :: "rune \<Rightarrow> nat list" where
  "encode_rune r0 =
     (let r = (if valid_rune r0 then r0 else RuneError)
      in if r < 0x80 then [r]
         else if r < 0x800 then [0xC0 + r div 64, 0x80 + r mod 64]
         else if r < 0x10000 then [0xE0 + r div 4096, 0x80 + (r div 64) mod 64, 0x80 + r mod 64]
         else [0xF0 + r div 262144, 0x80 + (r div 4096) mod 64, 0x80 + (r div 64) mod 64,
               0x80 + r mod 64])"

definition decode_runes :: "string \<Rightarrow> rune list" where
  "decode_runes s = decode_bytes (map of_char s)"

definition encode_runes :: "rune list \<Rightarrow> string" where
  "encode_runes rs = map char_of (concat (map encode_rune rs))"

text \<open>\<open>strings.Map\<close> with a function that never drops a rune.\<close>

definition strings_Map :: "(rune \<Rightarrow> rune) \<Rightarrow> string \<Rightarrow> string" where
  "strings_Map f s = encode_runes (map f (decode_runes s))"

section \<open>Trimming and searching\<close>

text \<open>The UTF-8 encodings of the runes \<open>unicode.IsSpace\<close> accepts.\<close>

definition space_encodings :: "nat list list" where
  "space_encodings =
     map (\<lambda>b. [b]) [9, 10, 11, 12, 13, 32] @
     [[0xC2, 0x85], [0xC2, 0xA0], [0xE1, 0x9A, 0x80]] @
     map (\<lambda>k. [0xE2, 0x80, k]) ([0x80 ..< 0x8B] @ [0xA8, 0xA9, 0xAF]) @
     [[0xE2, 0x81, 0x9F], [0xE3, 0x80, 0x80]]"

definition space_strings :: "string list" where
  "space_strings = map (map char_of) space_encodings"

definition rev_space_strings :: "string list" where
  "rev_space_strings = map rev space_strings"

fun strip_prefix :: "'a list list \<Rightarrow> 'a list \<Rightarrow> 'a list option" where
  "strip_prefix [] s = None"
| "strip_prefix (p # ps) s =
     (if p \<noteq> [] \<and> take (length p) s = p then Some (drop (length p) s) else strip_prefix ps s)"

lemma strip_prefix_shorter: "strip_prefix ps s = Some t \<Longrightarrow> length t < length s"
proof (induction ps)
  case Nil
  then show ?case by simp
next
  case (Cons p ps)
  show ?case
  proof (cases "p \<noteq> [] \<and> take (length p) s = p")
    case True
    then have "length p \<le> length s" by (metis length_take min.absorb_iff1 min.commute nat_le_linear)
    moreover from True have "0 < length p" by simp
    ultimately have "length s - length p < length s" by linarith
    with True Cons.prems show ?thesis by auto
  next
    case False
    with Cons show ?thesis by (auto split: if_splits)
  qed
qed

function trim_left :: "'a list list \<Rightarrow> 'a list \<Rightarrow> 'a list" where
  "trim_left ps s = (case strip_prefix ps s of None \<Rightarrow> s | Some t \<Rightarrow> trim_left ps t)"
  by pat_completeness auto
termination
  by (relation "measure (\<lambda>(ps, s). length s)") (auto dest: strip_prefix_shorter)

declare trim_left.simps [simp del]

definition TrimSpace :: "string \<Rightarrow> string" where
  "TrimSpace s = rev (trim_left rev_space_strings (rev (trim_left space_strings s)))"

definition HasPrefix :: "string \<Rightarrow> string \<Rightarrow> bool" where
  "HasPrefix s p = (take (length p) s = p)"

fun Contains :: "string \<Rightarrow> string \<Rightarrow> bool" where
  "Contains [] p = (p = [])"
| "Contains (c # s) p = (HasPrefix (c # s) p \<or> Contains s p)"

section \<open>Decimal numbers\<close>

definition digit :: "nat \<Rightarrow> char" where
  "digit n = char_of (48 + n mod 10)"

definition is_digit :: "char \<Rightarrow> bool" where
  "is_digit c = (48 \<le> (of_char c :: nat) \<and> (of_char c :: nat) \<le> 57)"

definition digit_value :: "char \<Rightarrow> nat" where
  "digit_value c = of_char c - 48"

fun nat_string :: "nat \<Rightarrow> string" where
  "nat_string n = (if n < 10 then [digit n] else nat_string (n div 10) @ [digit n])"

declare nat_string.simps [simp del]

definition int_string :: "int \<Rightarrow> string" where
  "int_string n = (if n < 0 then CHR ''-'' # nat_string (nat (- n)) else nat_string (nat n))"

text \<open>\<open>appendInt(b, x, width)\<close> of package \<open>time\<close>: the sign, then the digits padded with zeros.\<close>

definition pad_string :: "nat \<Rightarrow> nat \<Rightarrow> string" where
  "pad_string w n = replicate (w - length (nat_string n)) (CHR ''0'') @ nat_string n"

definition append_int :: "nat \<Rightarrow> int \<Rightarrow> string" where
  "append_int w n = (if n < 0 then CHR ''-'' # pad_string w (nat (- n)) else pad_string w (nat n))"

text \<open>All digits of a string, most significant first.\<close>

definition digits_value :: "string \<Rightarrow> nat" where
  "digits_value s = foldl (\<lambda>a c. 10 * a + digit_value c) 0 s"

section \<open>Lemmas on runes\<close>

lemma valid_RuneError [simp]: "valid_rune RuneError"
  by (simp add: valid_rune_def RuneError_def)

lemma encode_rune_bytes: "b \<in> set (encode_rune r) \<Longrightarrow> b < 256"
  by (auto simp: encode_rune_def valid_rune_def RuneError_def Let_def split: if_splits)

lemma split64: "(r::nat) = 64 * (r div 64) + r mod 64" "r div 4096 = r div 64 div 64"
  "r div 262144 = r div 64 div 64 div 64"
  by (simp_all add: div_mult2_eq [symmetric])

lemma decode_encode2:
  assumes "0x80 \<le> r" "r < 0x800"
  shows "decode_rune ((0xC0 + r div 64) # (0x80 + r mod 64) # rest) = (r, 2)"
proof -
  from assms have "2 \<le> r div 64" "r div 64 < 32" by auto
  then show ?thesis using split64(1) [of r] by (simp add: decode_rune_def cont_def)
qed

lemma decode_three:
  assumes "v < 64" "w < 64" "u < 16" "u = 0 \<Longrightarrow> 32 \<le> v" "u = 13 \<Longrightarrow> v < 32"
  shows "decode_rune ((0xE0 + u) # (0x80 + v) # (0x80 + w) # rest) = (4096 * u + 64 * v + w, 3)"
  using assms by (auto simp: decode_rune_def accept3_def cont_def)

lemma decode_four:
  assumes "v < 64" "w < 64" "x < 64" "u \<le> 4" "u = 0 \<Longrightarrow> 16 \<le> v" "u = 4 \<Longrightarrow> v < 16"
  shows "decode_rune ((0xF0 + u) # (0x80 + v) # (0x80 + w) # (0x80 + x) # rest) =
    (262144 * u + 4096 * v + 64 * w + x, 4)"
  using assms by (auto simp: decode_rune_def accept4_def cont_def)

lemma decode_encode3:
  assumes "0x800 \<le> r" "r < 0x10000" "valid_rune r"
  shows "decode_rune ((0xE0 + r div 4096) # (0x80 + (r div 64) mod 64) # (0x80 + r mod 64) # rest) = (r, 3)"
proof -
  define q where "q = r div 64"
  have r: "r = 64 * q + r mod 64" and q: "q = 64 * (q div 64) + q mod 64"
    by (simp_all add: q_def)
  have a: "r div 4096 = q div 64" by (simp add: q_def split64)
  from assms have b: "32 \<le> q" "q < 1024" by (auto simp: q_def)
  have "decode_rune ((0xE0 + q div 64) # (0x80 + q mod 64) # (0x80 + r mod 64) # rest) =
      (4096 * (q div 64) + 64 * (q mod 64) + r mod 64, 3)"
  proof (rule decode_three)
    show "q div 64 = 0 \<Longrightarrow> 32 \<le> q mod 64" using q b by linarith
    show "q div 64 = 13 \<Longrightarrow> q mod 64 < 32"
      using q assms(3) r unfolding valid_rune_def by linarith
  qed (use b in auto)
  moreover have "4096 * (q div 64) + 64 * (q mod 64) + r mod 64 = r" using r q by linarith
  ultimately show ?thesis by (simp add: a q_def)
qed

lemma decode_encode4:
  assumes "0x10000 \<le> r" "r \<le> 0x10FFFF"
  shows "decode_rune ((0xF0 + r div 262144) # (0x80 + (r div 4096) mod 64) # (0x80 + (r div 64) mod 64)
      # (0x80 + r mod 64) # rest) = (r, 4)"
proof -
  define q where "q = r div 64"
  define p where "p = q div 64"
  have r: "r = 64 * q + r mod 64" and q: "q = 64 * p + q mod 64" and p: "p = 64 * (p div 64) + p mod 64"
    by (simp_all add: q_def p_def)
  have a: "r div 262144 = p div 64" "r div 4096 = p" by (simp_all add: p_def q_def split64)
  have b: "16 \<le> p" "p \<le> 271" using assms unfolding a(2) [symmetric] by auto
  have "decode_rune ((0xF0 + p div 64) # (0x80 + p mod 64) # (0x80 + q mod 64) # (0x80 + r mod 64) # rest)
      = (262144 * (p div 64) + 4096 * (p mod 64) + 64 * (q mod 64) + r mod 64, 4)"
  proof (rule decode_four)
    show "p div 64 = 0 \<Longrightarrow> 16 \<le> p mod 64" using p b by linarith
    show "p div 64 = 4 \<Longrightarrow> p mod 64 < 16" using p b by linarith
  qed (use b in auto)
  moreover have "262144 * (p div 64) + 4096 * (p mod 64) + 64 * (q mod 64) + r mod 64 = r"
    using r q p by linarith
  ultimately show ?thesis by (simp add: a q_def)
qed

lemma decode_rune_encode:
  assumes "valid_rune r"
  shows "decode_rune (encode_rune r @ rest) = (r, length (encode_rune r))"
  using assms decode_encode2 [of r rest] decode_encode3 [of r rest] decode_encode4 [of r rest]
  by (auto simp: encode_rune_def valid_rune_def Let_def) (auto simp: decode_rune_def)

lemma encode_rune_nonempty: "encode_rune r \<noteq> []"
  by (simp add: encode_rune_def Let_def)

lemma decode_bytes_encode:
  "(\<And>r. r \<in> set rs \<Longrightarrow> valid_rune r) \<Longrightarrow> decode_bytes (concat (map encode_rune rs)) = rs"
proof (induction rs)
  case Nil
  then show ?case by simp
next
  case (Cons r rs)
  obtain b bs where enc: "encode_rune r = b # bs"
    using encode_rune_nonempty [of r] by (cases "encode_rune r") auto
  have d: "decode_rune (b # bs @ concat (map encode_rune rs)) = (r, Suc (length bs))"
    using decode_rune_encode [of r "concat (map encode_rune rs)"] Cons.prems enc by simp
  show ?case
    using Cons by (simp add: enc d)
qed

lemma decode_encode_runes:
  assumes "\<And>r. r \<in> set rs \<Longrightarrow> valid_rune r"
  shows "decode_runes (encode_runes rs) = rs"
proof -
  have "map (of_char \<circ> char_of) (concat (map encode_rune rs)) = concat (map encode_rune rs)"
    by (rule map_idI) (auto dest!: encode_rune_bytes simp: of_char_of)
  then show ?thesis
    using decode_bytes_encode [OF assms] by (simp add: decode_runes_def encode_runes_def)
qed

lemma decode_rune_valid: "valid_rune (fst (decode_rune bs))"
proof -
  have c3: "valid_rune (4096 * (a - 0xE0) + 64 * (b - 0x80) + (c - 0x80))"
    if "accept3 a b" "cont c" "0xE0 \<le> a" "a \<le> 0xEF" for a b c
    using that unfolding valid_rune_def accept3_def cont_def by (auto split: if_splits; linarith)
  have c4: "valid_rune (262144 * (a - 0xF0) + 4096 * (b - 0x80) + 64 * (c - 0x80) + (d - 0x80))"
    if "accept4 a b" "cont c" "cont d" "0xF0 \<le> a" "a \<le> 0xF4" for a b c d
    using that unfolding valid_rune_def accept4_def cont_def by (auto split: if_splits; linarith)
  have c2: "valid_rune (64 * (a - 0xC0) + (b - 0x80))" if "a \<le> 0xDF" "cont b" for a b
    using that unfolding valid_rune_def cont_def by linarith
  show ?thesis
    unfolding decode_rune_def
    by (auto split: list.splits simp: c3 c4 c2) (auto simp: valid_rune_def)
qed

lemma decode_bytes_valid: "r \<in> set (decode_bytes bs) \<Longrightarrow> valid_rune r"
  by (induction bs rule: decode_bytes.induct) (auto simp del: One_nat_def simp: decode_rune_valid)

lemma decode_runes_valid: "r \<in> set (decode_runes s) \<Longrightarrow> valid_rune r"
  by (simp add: decode_runes_def decode_bytes_valid)

section \<open>Lemmas on decimals\<close>

text \<open>The last \<open>k\<close> decimal digits of a number; within range this is padded printing.\<close>

fun digits :: "nat \<Rightarrow> nat \<Rightarrow> string" where
  "digits 0 n = []"
| "digits (Suc k) n = digits k (n div 10) @ [digit n]"

lemma of_char_digit [simp]: "of_char (digit n) = 48 + n mod 10"
proof -
  have "48 + n mod 10 < 256" by (rule order.strict_trans [of _ "58"]) simp_all
  then show ?thesis by (simp add: digit_def of_char_of)
qed

lemma digit_value_digit [simp]: "digit_value (digit n) = n mod 10"
  by (simp add: digit_value_def)

lemma is_digit_digit [simp]: "is_digit (digit n)"
proof -
  have "n mod 10 < 10" by simp
  then show ?thesis unfolding is_digit_def of_char_digit by linarith
qed

lemma digit_of_value:
  assumes "is_digit c"
  shows "digit (10 * a + digit_value c) = c"
proof -
  have "digit_value c < 10" "48 + digit_value c = of_char c"
    using assms by (auto simp: is_digit_def digit_value_def)
  moreover have "(10 * a + digit_value c) mod 10 = digit_value c mod 10" by simp
  ultimately show ?thesis by (simp add: digit_def)
qed

lemma digit_less: "(digit a < digit b) = (a mod 10 < b mod 10)"
  by (simp add: less_char_def)

lemma length_digits [simp]: "length (digits k n) = k"
  by (induction k arbitrary: n) auto

lemma digits_all: "c \<in> set (digits k n) \<Longrightarrow> is_digit c"
  by (induction k arbitrary: n) auto

lemma digits_zero: "digits k 0 = replicate k (CHR ''0'')"
proof (induction k)
  case (Suc k)
  have "digit 0 = CHR ''0''" by code_simp
  with Suc show ?case by (simp add: replicate_append_same)
qed simp

lemma pad_string_step:
  assumes "10 \<le> n"
  shows "pad_string (Suc k) n = pad_string k (n div 10) @ [digit n]"
  using assms by (simp add: pad_string_def nat_string.simps [of n])

lemma pad_string_digits: "n < 10 ^ k \<Longrightarrow> 0 < k \<Longrightarrow> pad_string k n = digits k n"
proof (induction k arbitrary: n)
  case 0
  then show ?case by simp
next
  case (Suc k)
  show ?case
  proof (cases "n < 10")
    case True
    then show ?thesis
      by (simp add: pad_string_def nat_string.simps [of n] digits_zero)
  next
    case False
    with Suc.prems have "n div 10 < 10 ^ k" "0 < k" by (cases k; auto)+
    with Suc.IH False show ?thesis by (simp add: pad_string_step)
  qed
qed

lemma snoc_less:
  fixes xs ys :: string
  assumes "length xs = length ys"
  shows "(xs @ [x] < ys @ [y]) = (xs < ys \<or> (xs = ys \<and> x < y))"
  using assms by (induction xs ys rule: list_induct2) auto

lemma append_less:
  fixes xs ys us vs :: string
  assumes "length xs = length ys"
  shows "(xs @ us < ys @ vs) = (xs < ys \<or> (xs = ys \<and> us < vs))"
  using assms by (induction xs ys rule: list_induct2) auto

lemma digits_inject:
  "a < 10 ^ k \<Longrightarrow> b < 10 ^ k \<Longrightarrow> (digits k a = digits k b) = (a = b)"
proof (induction k arbitrary: a b)
  case 0
  then show ?case by simp
next
  case (Suc k)
  have "a div 10 < 10 ^ k" "b div 10 < 10 ^ k" using Suc.prems by auto
  moreover have "digit a = digit b \<longleftrightarrow> a mod 10 = b mod 10"
    by (metis digit_value_digit digit_def)
  moreover have "a = b \<longleftrightarrow> a div 10 = b div 10 \<and> a mod 10 = b mod 10"
    by (metis mult_div_mod_eq)
  ultimately show ?case using Suc.IH by auto
qed

lemma less_by_digit:
  "(u::nat) < 10 \<Longrightarrow> v < 10 \<Longrightarrow> (10 * p + u < 10 * q + v) = (p < q \<or> (p = q \<and> u < v))"
  by linarith

lemma digits_less:
  "a < 10 ^ k \<Longrightarrow> b < 10 ^ k \<Longrightarrow> (digits k a < digits k b) = (a < b)"
proof (induction k arbitrary: a b)
  case 0
  then show ?case by simp
next
  case (Suc k)
  have le: "a div 10 < 10 ^ k" "b div 10 < 10 ^ k" using Suc.prems by auto
  have "a < b \<longleftrightarrow> a div 10 < b div 10 \<or> (a div 10 = b div 10 \<and> a mod 10 < b mod 10)"
    using less_by_digit [of "a mod 10" "b mod 10" "a div 10" "b div 10"] by simp
  then show ?case
    using le by (simp add: snoc_less digit_less Suc.IH digits_inject)
qed

lemma digits_value_snoc: "digits_value (s @ [c]) = 10 * digits_value s + digit_value c"
  by (simp add: digits_value_def)

lemma digits_value_digits: "n < 10 ^ k \<Longrightarrow> digits_value (digits k n) = n"
proof (induction k arbitrary: n)
  case 0
  then show ?case by (simp add: digits_value_def)
next
  case (Suc k)
  then have "n div 10 < 10 ^ k" by auto
  with Suc.IH show ?case by (simp add: digits_value_snoc)
qed

lemma digits_of_value:
  "(\<And>c. c \<in> set s \<Longrightarrow> is_digit c) \<Longrightarrow> digits (length s) (digits_value s) = s"
proof (induction s rule: rev_induct)
  case Nil
  then show ?case by simp
next
  case (snoc c s)
  have "digit_value c < 10" using snoc.prems [of c] by (auto simp: is_digit_def digit_value_def)
  then have "(10 * digits_value s + digit_value c) div 10 = digits_value s" by auto
  with snoc show ?case by (simp add: digits_value_snoc digit_of_value)
qed

lemma digits_value_bound:
  "(\<And>c. c \<in> set s \<Longrightarrow> is_digit c) \<Longrightarrow> digits_value s < 10 ^ length s"
proof (induction s rule: rev_induct)
  case Nil
  then show ?case by (simp add: digits_value_def)
next
  case (snoc c s)
  have "digit_value c < 10" using snoc.prems [of c] by (auto simp: is_digit_def digit_value_def)
  with snoc show ?case by (auto simp: digits_value_snoc)
qed

section \<open>Evaluation on binary integers\<close>

text \<open>Code equations that compute on \<open>int\<close>, whose numerals are binary; \<open>nat\<close> is unary there.\<close>

function int_dec :: "int \<Rightarrow> string" where
  "int_dec n = (if n < 10 then [char_of (48 + n mod 10)] else int_dec (n div 10) @ [char_of (48 + n mod 10)])"
  by pat_completeness auto
termination
  by (relation "measure nat") auto

declare int_dec.simps [simp del]

lemma digit_int: "0 \<le> n \<Longrightarrow> char_of (48 + n mod 10) = digit (nat n)"
proof -
  assume "0 \<le> n"
  then have "48 + n mod 10 = int (48 + nat n mod 10)" by (simp add: nat_mod_distrib zmod_int)
  then show ?thesis unfolding digit_def by (simp only: char_of_nat)
qed

lemma int_dec_nat: "0 \<le> n \<Longrightarrow> int_dec n = nat_string (nat n)"
proof (induction n rule: int_dec.induct)
  case (1 n)
  show ?case
  proof (cases "n < 10")
    case True
    then have "int_dec n = [char_of (48 + n mod 10)]" "nat n < 10"
      using 1(2) by (simp_all only: int_dec.simps [of n] if_True)
    then show ?thesis using 1(2) by (simp only: nat_string.simps [of "nat n"] if_True digit_int)
  next
    case False
    then have "int_dec (n div 10) = nat_string (nat n div 10)"
      using 1 by (simp add: nat_div_distrib)
    then show ?thesis using False 1(2)
      by (simp add: int_dec.simps [of n] nat_string.simps [of "nat n"] digit_int)
  qed
qed

definition pad_int :: "nat \<Rightarrow> int \<Rightarrow> string" where
  "pad_int w n = (let s = int_dec n in replicate (w - length s) (CHR ''0'') @ s)"

lemma append_int_code [code]:
  "append_int w n = (if n < 0 then CHR ''-'' # pad_int w (- n) else pad_int w n)"
  by (auto simp: append_int_def pad_int_def pad_string_def int_dec_nat Let_def)

definition digits_int :: "string \<Rightarrow> int" where
  "digits_int s = foldl (\<lambda>a c. 10 * a + (of_char c - 48)) 0 s"

lemma digits_int_eq: "list_all is_digit s \<Longrightarrow> digits_int s = int (digits_value s)"
proof (induction s rule: rev_induct)
  case Nil
  then show ?case by (simp add: digits_int_def digits_value_def)
next
  case (snoc c s)
  then have "of_char c - 48 = int (digit_value c)"
    using of_nat_of_char [of c, where ?'a = int] by (simp add: digit_value_def is_digit_def of_nat_diff)
  with snoc show ?case by (simp add: digits_int_def digits_value_def)
qed

text \<open>The white-space texts evaluated, for the evaluation of concrete inputs.\<close>

lemma space_strings_code [code]:
  "space_strings =
    [[CHR 0x09], [CHR 0x0A], [CHR 0x0B], [CHR 0x0C],
     [CHR 0x0D], [CHR 0x20], [CHR 0xC2, CHR 0x85], [CHR 0xC2, CHR 0xA0],
     [CHR 0xE1, CHR 0x9A, CHR 0x80], [CHR 0xE2, CHR 0x80, CHR 0x80], [CHR 0xE2, CHR 0x80, CHR 0x81], [CHR 0xE2, CHR 0x80, CHR 0x82],
     [CHR 0xE2, CHR 0x80, CHR 0x83], [CHR 0xE2, CHR 0x80, CHR 0x84], [CHR 0xE2, CHR 0x80, CHR 0x85], [CHR 0xE2, CHR 0x80, CHR 0x86],
     [CHR 0xE2, CHR 0x80, CHR 0x87], [CHR 0xE2, CHR 0x80, CHR 0x88], [CHR 0xE2, CHR 0x80, CHR 0x89], [CHR 0xE2, CHR 0x80, CHR 0x8A],
     [CHR 0xE2, CHR 0x80, CHR 0xA8], [CHR 0xE2, CHR 0x80, CHR 0xA9], [CHR 0xE2, CHR 0x80, CHR 0xAF], [CHR 0xE2, CHR 0x81, CHR 0x9F],
     [CHR 0xE3, CHR 0x80, CHR 0x80]]"
  by code_simp

lemma rev_space_strings_code [code]:
  "rev_space_strings =
    [[CHR 0x09], [CHR 0x0A], [CHR 0x0B], [CHR 0x0C],
     [CHR 0x0D], [CHR 0x20], [CHR 0x85, CHR 0xC2], [CHR 0xA0, CHR 0xC2],
     [CHR 0x80, CHR 0x9A, CHR 0xE1], [CHR 0x80, CHR 0x80, CHR 0xE2], [CHR 0x81, CHR 0x80, CHR 0xE2], [CHR 0x82, CHR 0x80, CHR 0xE2],
     [CHR 0x83, CHR 0x80, CHR 0xE2], [CHR 0x84, CHR 0x80, CHR 0xE2], [CHR 0x85, CHR 0x80, CHR 0xE2], [CHR 0x86, CHR 0x80, CHR 0xE2],
     [CHR 0x87, CHR 0x80, CHR 0xE2], [CHR 0x88, CHR 0x80, CHR 0xE2], [CHR 0x89, CHR 0x80, CHR 0xE2], [CHR 0x8A, CHR 0x80, CHR 0xE2],
     [CHR 0xA8, CHR 0x80, CHR 0xE2], [CHR 0xA9, CHR 0x80, CHR 0xE2], [CHR 0xAF, CHR 0x80, CHR 0xE2], [CHR 0x9F, CHR 0x81, CHR 0xE2],
     [CHR 0x80, CHR 0x80, CHR 0xE3]]"
  by (simp add: rev_space_strings_def space_strings_code)

end
