(* ===== verification/Civil_Date.thy ===== *)
theory Civil_Date
  imports Go_Strings
begin

text \<open>
  Civil dates: \<^verbatim>\<open>src/internal/ingestion/date.go\<close> and the part of package \<open>time\<close> it calls. A
  \<open>CalendarDate\<close> holds year, month and day; \<open>epoch_day\<close> is \<open>time.Date\<close> at midnight UTC, the number
  of days since 1970-01-01 after normalising the month, and \<open>civil_of\<close> reads the fields of a day
  back by the 400, 100, 4 and 1 year cycles. Go's \<open>int\<close> fields are mathematical integers here: a
  day count that overflows 64 bits needs a year beyond 25 * 10^15, which no input of the program
  reaches.

  A JSON document is the value \<open>json\<close> it denotes; white space and the order of object members,
  which a JSON column of the database does not keep, are not part of it.
\<close>

section \<open>The calendar of package time\<close>

definition is_leap :: "int \<Rightarrow> bool" where
  "is_leap y = (y mod 4 = 0 \<and> (y mod 100 \<noteq> 0 \<or> y mod 400 = 0))"

definition days_in :: "int \<Rightarrow> int \<Rightarrow> int" where
  "days_in y m =
     (if m = 2 then (if is_leap y then 29 else 28)
      else if m = 4 \<or> m = 6 \<or> m = 9 \<or> m = 11 then 30 else 31)"

definition days_before_year :: "int \<Rightarrow> int" where
  "days_before_year y = 365 * (y - 1) + (y - 1) div 4 - (y - 1) div 100 + (y - 1) div 400"

definition month_starts :: "int list" where
  "month_starts = [0, 31, 59, 90, 120, 151, 181, 212, 243, 273, 304, 334]"

definition days_before_month :: "int \<Rightarrow> int \<Rightarrow> int" where
  "days_before_month y m = month_starts ! nat (m - 1) + (if is_leap y \<and> 2 < m then 1 else 0)"

definition unix_day :: int where "unix_day = 719162" \<comment> \<open>days from 0001-01-01 to 1970-01-01\<close>

definition epoch_day :: "int \<Rightarrow> int \<Rightarrow> int \<Rightarrow> int" where
  "epoch_day y m d =
     (let y' = y + (m - 1) div 12; m' = (m - 1) mod 12 + 1
      in days_before_year y' + days_before_month y' m' + (d - 1) - unix_day)"

definition year_of :: "int \<Rightarrow> int" where
  "year_of n =
     (let r = n mod 146097; b = min (r div 36524) 3; r1 = r - 36524 * b;
          c = r1 div 1461; r2 = r1 mod 1461; d = min (r2 div 365) 3
      in 400 * (n div 146097) + 100 * b + 4 * c + d + 1)"

definition month_of :: "int \<Rightarrow> int \<Rightarrow> int" where
  "month_of y k = int (length (filter (\<lambda>m. days_before_month y m \<le> k) [1..12]))"

record CalendarDate =
  cd_year :: int
  cd_month :: int
  cd_day :: int

definition mk_date :: "int \<Rightarrow> int \<Rightarrow> int \<Rightarrow> CalendarDate" where
  "mk_date y m d = \<lparr>cd_year = y, cd_month = m, cd_day = d\<rparr>"

definition civil_of :: "int \<Rightarrow> CalendarDate" where
  "civil_of n =
     (let a = n + unix_day; y = year_of a; k = a - days_before_year y; m = month_of y k
      in mk_date y m (k - days_before_month y m + 1))"

section \<open>CalendarDate\<close>

definition zero_date :: CalendarDate where "zero_date = mk_date 0 0 0"

text \<open>The layout \<open>2006-01-02\<close> reads four digits, a dash, two digits, a dash and two digits, then
  checks the month and the day of the month.\<close>

definition ParseCalendarDate :: "string \<Rightarrow> CalendarDate result" where
  "ParseCalendarDate s =
     (if length s = 10 \<and> list_all is_digit (take 4 s) \<and> s ! 4 = CHR ''-'' \<and>
         list_all is_digit (take 2 (drop 5 s)) \<and> s ! 7 = CHR ''-'' \<and> list_all is_digit (drop 8 s)
      then (let y = int (digits_value (take 4 s)); m = int (digits_value (take 2 (drop 5 s)));
                d = int (digits_value (drop 8 s))
            in if 1 \<le> m \<and> m \<le> 12 \<and> 1 \<le> d \<and> d \<le> days_in y m then Inr (mk_date y m d)
               else Inl (ErrMsg ''parsing time''))
      else Inl (ErrMsg ''parsing time''))"

text \<open>A \<open>time.Time\<close> carries its zone; \<open>CalendarDateFromTime\<close> reads the wall clock there, so its
  argument is the wall clock: the instant plus the zone's offset.\<close>

definition microseconds_per_day :: int where "microseconds_per_day = 24 * hour"

definition CalendarDateFromTime :: "time \<Rightarrow> CalendarDate" where
  "CalendarDateFromTime wall = civil_of (wall div microseconds_per_day)"

definition IsZero :: "CalendarDate \<Rightarrow> bool" where
  "IsZero date = (cd_year date = 0)"

definition date_day :: "CalendarDate \<Rightarrow> int" where
  "date_day date = epoch_day (cd_year date) (cd_month date) (cd_day date)"

definition format_date :: "CalendarDate \<Rightarrow> string" where
  "format_date c = append_int 4 (cd_year c) @ ''-'' @ append_int 2 (cd_month c) @ ''-'' @
     append_int 2 (cd_day c)"

definition date_String :: "CalendarDate \<Rightarrow> string" where
  "date_String date = (if IsZero date then [] else format_date (civil_of (date_day date)))"

definition AddDays :: "CalendarDate \<Rightarrow> int \<Rightarrow> CalendarDate" where
  "AddDays date days =
     (if IsZero date then date
      else civil_of (epoch_day (cd_year date) (cd_month date) (cd_day date + days)))"

definition ResolvePreviousCalendarDayJakarta :: "time \<Rightarrow> CalendarDate" where
  "ResolvePreviousCalendarDayJakarta now =
     CalendarDateFromTime (now + 7 * hour - microseconds_per_day)"

datatype json =
    JNull
  | JBool bool
  | JNum string
  | JStr string
  | JArr "json list"
  | JObj "(string \<times> json) list"

definition date_MarshalJSON :: "CalendarDate \<Rightarrow> json" where
  "date_MarshalJSON date = (if IsZero date then JNull else JStr (date_String date))"

definition date_UnmarshalJSON :: "json \<Rightarrow> CalendarDate result" where
  "date_UnmarshalJSON data =
     (case data of
        JNull \<Rightarrow> Inr zero_date
      | JStr value \<Rightarrow> ParseCalendarDate value
      | _ \<Rightarrow> Inl (ErrMsg ''json: cannot unmarshal''))"

text \<open>The dates of the calendar, and those whose text has four digits for the year.\<close>

definition valid_date :: "CalendarDate \<Rightarrow> bool" where
  "valid_date c = (1 \<le> cd_month c \<and> cd_month c \<le> 12 \<and> 1 \<le> cd_day c \<and>
     cd_day c \<le> days_in (cd_year c) (cd_month c))"

definition printable_date :: "CalendarDate \<Rightarrow> bool" where
  "printable_date c = (valid_date c \<and> 1 \<le> cd_year c \<and> cd_year c \<le> 9999)"

section \<open>The cycles\<close>

lemma month_set: "1 \<le> (m::int) \<Longrightarrow> m \<le> 12 \<Longrightarrow> m \<in> {1, 2, 3, 4, 5, 6, 7, 8, 9, 10, 11, 12}"
  by (simp, presburger)

lemma days_before_month_Suc:
  assumes "1 \<le> m" "m < 12"
  shows "days_before_month y (m + 1) = days_before_month y m + days_in y m"
proof -
  from assms have "m \<in> {1, 2, 3, 4, 5, 6, 7, 8, 9, 10, 11}" by (simp, presburger)
  then show ?thesis by (auto simp: days_before_month_def days_in_def month_starts_def)
qed

lemma days_in_bounds: "28 \<le> days_in y m" "days_in y m \<le> 31"
  by (simp_all add: days_in_def)

definition year_length :: "int \<Rightarrow> int" where
  "year_length y = (if is_leap y then 366 else 365)"

lemma days_before_month_12: "days_before_month y 12 + days_in y 12 = year_length y"
  by (simp add: days_before_month_def days_in_def month_starts_def year_length_def)

lemma div_step:
  assumes "0 < (k::int)"
  shows "y div k = (y - 1) div k + (if y mod k = 0 then 1 else 0)"
proof -
  have y: "y = k * (y div k) + y mod k" by simp
  have m: "0 \<le> y mod k" "y mod k < k" using assms by simp_all
  show ?thesis
  proof (cases "y mod k = 0")
    case True
    have "(y - 1) div k = y div k - 1"
      by (rule int_div_pos_eq [of _ _ _ "k - 1"]) (use True y assms in \<open>simp_all add: algebra_simps\<close>)
    with True show ?thesis by simp
  next
    case False
    have "(y - 1) div k = y div k"
      by (rule int_div_pos_eq [of _ _ _ "y mod k - 1"]) (use False y m in simp_all)
    with False show ?thesis by simp
  qed
qed

lemma mod_boundary:
  assumes "0 < x" "x \<le> (k::int)"
  shows "(k * q + x) mod k = 0 \<longleftrightarrow> x = k"
proof (cases "x = k")
  case False
  with assms show ?thesis by (simp add: mod_pos_pos_trivial)
qed simp

lemma leap_arith:
  "x4 = a4 + (if p then 1 else 0) \<Longrightarrow> x100 = a100 + (if q then 1 else 0) \<Longrightarrow>
   x400 = a400 + (if r then 1 else 0) \<Longrightarrow> (r \<Longrightarrow> q) \<Longrightarrow> (q \<Longrightarrow> p) \<Longrightarrow>
   x4 - x100 + x400 = a4 - a100 + a400 + (if p \<and> (\<not> q \<or> r) then 1 else (0::int))"
  by (cases p; cases q; cases r) simp_all

lemma days_before_year_Suc: "days_before_year (y + 1) = days_before_year y + year_length y"
proof -
  define a b where "a = y div 4 - y div 100 + y div 400"
    and "b = (y - 1) div 4 - (y - 1) div 100 + (y - 1) div 400"
  have "y div 4 - y div 100 + y div 400 = (y - 1) div 4 - (y - 1) div 100 + (y - 1) div 400 +
      (if y mod 4 = 0 \<and> (y mod 100 \<noteq> 0 \<or> y mod 400 = 0) then 1 else 0)"
  proof (rule leap_arith)
    show "y mod 400 = 0 \<Longrightarrow> y mod 100 = 0"
      unfolding mod_eq_0_iff_dvd by (rule dvd_trans [of 100 400]) simp_all
    show "y mod 100 = 0 \<Longrightarrow> y mod 4 = 0"
      unfolding mod_eq_0_iff_dvd by (rule dvd_trans [of 4 100]) simp_all
  qed (rule div_step, simp)+
  then have step: "a = b + (if is_leap y then 1 else 0)"
    by (simp only: a_def b_def is_leap_def)
  have "days_before_year (y + 1) = 365 * y + a" "days_before_year y = 365 * (y - 1) + b"
    by (simp_all add: days_before_year_def a_def b_def)
  with step show ?thesis by (simp add: year_length_def)
qed

lemma year_length_pos: "0 < year_length y" by (simp add: year_length_def)

lemma days_before_year_mono:
  assumes "y < z"
  shows "days_before_year (y + 1) \<le> days_before_year z"
proof -
  have "y + 1 \<le> z" using assms by simp
  then show ?thesis
  proof (induction z rule: int_ge_induct)
    case base
    then show ?case by simp
  next
    case (step z)
    then show ?case using days_before_year_Suc [of z] year_length_pos [of z] by simp
  qed
qed

lemma days_before_year_cycle:
  assumes "0 \<le> b" "b \<le> 3" "0 \<le> c" "c \<le> 24" "0 \<le> d" "d \<le> 3"
  shows "days_before_year (400 * a + 100 * b + 4 * c + d + 1) = 146097 * a + 36524 * b + 1461 * c + 365 * d"
proof -
  have "(400 * a + 100 * b + 4 * c + d) div 4 = 100 * a + 25 * b + c"
    by (rule int_div_pos_eq [of _ _ _ d]) (use assms in auto)
  moreover have "(400 * a + 100 * b + 4 * c + d) div 100 = 4 * a + b"
    by (rule int_div_pos_eq [of _ _ _ "4 * c + d"]) (use assms in auto)
  moreover have "(400 * a + 100 * b + 4 * c + d) div 400 = a"
    by (rule int_div_pos_eq [of _ _ _ "100 * b + 4 * c + d"]) (use assms in auto)
  ultimately show ?thesis by (simp add: days_before_year_def)
qed

lemma year_length_cycle:
  assumes "0 \<le> b" "b \<le> 3" "0 \<le> c" "c \<le> 24" "0 \<le> d" "d \<le> 3"
  shows "year_length (400 * a + 100 * b + 4 * c + d + 1) =
    (if d = 3 \<and> (c \<noteq> 24 \<or> b = 3) then 366 else 365)"
proof -
  have s: "d + 1 = 4 \<longleftrightarrow> d = 3" "4 * c + d + 1 = 100 \<longleftrightarrow> d = 3 \<and> c = 24"
    "100 * b + 4 * c + d + 1 = 400 \<longleftrightarrow> d = 3 \<and> c = 24 \<and> b = 3"
    by (rule iffI; (elim conjE)?; (intro conjI)?; use assms in linarith)+
  have "(400 * a + 100 * b + 4 * c + d + 1) mod 4 = 0 \<longleftrightarrow> d = 3"
    using mod_boundary [of "d + 1" 4 "100 * a + 25 * b + c"] assms s(1) by (simp add: algebra_simps)
  moreover have "(400 * a + 100 * b + 4 * c + d + 1) mod 100 = 0 \<longleftrightarrow> d = 3 \<and> c = 24"
    using mod_boundary [of "4 * c + d + 1" 100 "4 * a + b"] assms s(2) by (simp add: algebra_simps)
  moreover have "(400 * a + 100 * b + 4 * c + d + 1) mod 400 = 0 \<longleftrightarrow> d = 3 \<and> c = 24 \<and> b = 3"
    using mod_boundary [of "100 * b + 4 * c + d + 1" 400 a] assms s(3) by (simp add: algebra_simps)
  ultimately show ?thesis by (auto simp: year_length_def is_leap_def)
qed

lemma min_div_3:
  assumes "0 \<le> r" "0 < (k::int)" "r < 5 * k"
  shows "0 \<le> min (r div k) 3" "k * min (r div k) 3 \<le> r"
    "r < k * min (r div k) 3 + k \<or> min (r div k) 3 = 3"
proof -
  have r: "r = k * (r div k) + r mod k" by simp
  have m: "0 \<le> r mod k" "r mod k < k" using assms by simp_all
  show "0 \<le> min (r div k) 3" using assms by (simp add: pos_imp_zdiv_nonneg_iff)
  have "k * min (r div k) 3 \<le> k * (r div k)" using assms by (intro mult_left_mono) auto
  then show "k * min (r div k) 3 \<le> r" using r m by linarith
  show "r < k * min (r div k) 3 + k \<or> min (r div k) 3 = 3"
  proof (cases "r div k \<le> 2")
    case True
    then have "min (r div k) 3 = r div k" by simp
    then show ?thesis using r m by linarith
  qed simp
qed

lemma year_of_bounds:
  "days_before_year (year_of n) \<le> n \<and> n < days_before_year (year_of n + 1)"
proof -
  define a r b r1 c r2 d where defs: "a = n div 146097" "r = n mod 146097" "b = min (r div 36524) 3"
    "r1 = r - 36524 * b" "c = r1 div 1461" "r2 = r1 mod 1461" "d = min (r2 div 365) 3"
  have "n = 146097 * a + r" "r1 = 1461 * c + r2" "r = 36524 * b + r1"
    unfolding defs by (simp_all only: mult_div_mod_eq)
  then have n: "n = 146097 * a + 36524 * b + 1461 * c + r2" by linarith
  have r: "0 \<le> r" "r < 146097" by (simp_all add: defs)
  have b: "0 \<le> b" "b \<le> 3" and r1: "0 \<le> r1" "r1 < 36524 \<or> (b = 3 \<and> r1 < 36525)"
    using min_div_3 [of r 36524] r unfolding defs(3,4) by auto
  have r2: "0 \<le> r2" "r2 < 1461" by (simp_all add: defs(6))
  have rc: "r1 = 1461 * c + r2" by (simp add: defs(5,6))
  have c: "0 \<le> c" "c \<le> 24" using r1 r2 rc by linarith+
  have d: "0 \<le> d" "d \<le> 3" "365 * d \<le> r2" "r2 < 365 * d + 365 \<or> d = 3"
    using min_div_3 [of r2 365] r2 unfolding defs(7) by auto
  have y: "year_of n = 400 * a + 100 * b + 4 * c + d + 1"
    unfolding year_of_def defs Let_def by (rule refl)
  have "r2 < 365 * d + year_length (year_of n)"
    using d r1 r2 rc unfolding y year_length_cycle [OF b c d(1,2)] by auto
  moreover have "days_before_year (year_of n) = 146097 * a + 36524 * b + 1461 * c + 365 * d"
    unfolding y by (rule days_before_year_cycle [OF b c d(1,2)])
  ultimately show ?thesis
    using d(3) n by (simp add: days_before_year_Suc)
qed

lemma year_of_unique:
  assumes "days_before_year y \<le> n" "n < days_before_year (y + 1)"
  shows "year_of n = y"
  using assms year_of_bounds [of n] days_before_year_mono [of y "year_of n"]
    days_before_year_mono [of "year_of n" y] by linarith

section \<open>Months and days\<close>

lemma days_before_month_mono:
  assumes "1 \<le> m" "m < j" "j \<le> 12"
  shows "days_before_month y m + days_in y m \<le> days_before_month y j"
proof -
  have "m + 1 \<le> j" using assms by simp
  then show ?thesis using assms(3)
  proof (induction j rule: int_ge_induct)
    case base
    then show ?case using days_before_month_Suc [of m y] assms(1) by simp
  next
    case (step j)
    then show ?case using days_before_month_Suc [of j y] days_in_bounds(1) [of y j] assms by simp
  qed
qed

lemma month_bounds:
  assumes "1 \<le> m" "m \<le> 12"
  shows "0 \<le> days_before_month y m" "days_before_month y m + days_in y m \<le> year_length y"
proof -
  have one: "days_before_month y 1 = 0" by (simp add: days_before_month_def month_starts_def)
  show "0 \<le> days_before_month y m"
    using days_before_month_mono [of 1 m y] assms one days_in_bounds(1) [of y 1]
    by (cases "m = 1") auto
  show "days_before_month y m + days_in y m \<le> year_length y"
    using days_before_month_mono [of m 12 y] assms days_before_month_12 [of y] days_in_bounds(1) [of y 12]
    by (cases "m = 12") auto
qed

lemma month_of_unique:
  assumes "1 \<le> m" "m \<le> 12" "days_before_month y m \<le> k" "k < days_before_month y m + days_in y m"
  shows "month_of y k = m"
proof -
  have "days_before_month y j \<le> k \<longleftrightarrow> j \<le> m" if "j \<in> set [1..12]" for j
  proof (cases "j \<le> m")
    case True
    then show ?thesis
      using days_before_month_mono [of j m y] days_in_bounds(1) [of y j] assms that
      by (cases "j = m") auto
  next
    case False
    then show ?thesis using days_before_month_mono [of m j y] assms that by auto
  qed
  then have "filter (\<lambda>j. days_before_month y j \<le> k) [1..12] = filter (\<lambda>j. j \<le> m) [1..12]"
    by (rule filter_cong [OF refl])
  also have "int (length \<dots>) = m"
    using month_set [OF assms(1,2)] by (auto simp: upto.simps)
  finally show ?thesis by (simp add: month_of_def)
qed

lemma month_exists:
  assumes "0 \<le> k" "k < year_length y"
  obtains m where "1 \<le> m" "m \<le> 12" "days_before_month y m \<le> k" "k < days_before_month y m + days_in y m"
proof -
  have ex: "\<exists>i. 1 \<le> i \<and> i \<le> 12 \<and> days_before_month y i \<le> k \<and> k < days_before_month y i + days_in y i"
    if "1 \<le> j" "j \<le> 12" "k < days_before_month y j + days_in y j" for j
    using that
  proof (induction j rule: int_ge_induct)
    case base
    then show ?case using assms(1) by (intro exI [of _ 1]) (simp add: days_before_month_def month_starts_def)
  next
    case (step j)
    show ?case
    proof (cases "k < days_before_month y j + days_in y j")
      case True
      with step show ?thesis by simp
    next
      case False
      with step show ?thesis
        using days_before_month_Suc [of j y] by (intro exI [of _ "j + 1"]) auto
    qed
  qed
  from ex [of 12] assms(2) days_before_month_12 [of y] that show thesis by auto
qed

lemma date_day_valid:
  assumes "valid_date c"
  shows "date_day c = days_before_year (cd_year c) + days_before_month (cd_year c) (cd_month c) +
    (cd_day c - 1) - unix_day"
  using assms by (simp add: date_day_def epoch_day_def valid_date_def Let_def div_pos_pos_trivial
    mod_pos_pos_trivial)

lemma civil_of_date_day:
  assumes "valid_date c"
  shows "civil_of (date_day c) = c"
proof -
  let ?y = "cd_year c" and ?m = "cd_month c"
  let ?k = "days_before_month ?y ?m + (cd_day c - 1)"
  have v: "1 \<le> ?m" "?m \<le> 12" "1 \<le> cd_day c" "cd_day c \<le> days_in ?y ?m"
    using assms by (auto simp: valid_date_def)
  have k: "0 \<le> ?k" "?k < year_length ?y" using month_bounds [OF v(1,2), of ?y] v by auto
  have y: "year_of (date_day c + unix_day) = ?y"
    by (rule year_of_unique) (use k in \<open>simp_all add: date_day_valid [OF assms] days_before_year_Suc\<close>)
  have m: "month_of ?y ?k = ?m"
    by (rule month_of_unique) (use v in auto)
  have "date_day c + unix_day - days_before_year ?y = ?k"
    by (simp add: date_day_valid [OF assms])
  then show ?thesis using m by (simp add: civil_of_def y Let_def mk_date_def)
qed

lemma civil_of_valid: "valid_date (civil_of n)" and date_day_civil_of: "date_day (civil_of n) = n"
proof -
  define a y k where "a = n + unix_day" and "y = year_of a" and "k = a - days_before_year y"
  have "0 \<le> k" "k < year_length y"
    using year_of_bounds [of a] by (auto simp: k_def y_def days_before_year_Suc)
  then obtain m where m: "1 \<le> m" "m \<le> 12" "days_before_month y m \<le> k"
      "k < days_before_month y m + days_in y m"
    by (rule month_exists)
  have c: "civil_of n = mk_date y m (k - days_before_month y m + 1)"
    using month_of_unique [OF m] by (simp add: civil_of_def a_def y_def k_def Let_def)
  show v: "valid_date (civil_of n)" using m by (simp add: c valid_date_def mk_date_def)
  show "date_day (civil_of n) = n"
    unfolding date_day_valid [OF v] by (simp add: c mk_date_def k_def a_def)
qed

lemma date_day_inject:
  "valid_date a \<Longrightarrow> valid_date b \<Longrightarrow> (date_day a = date_day b) = (a = b)"
  by (metis civil_of_date_day)

lemma AddDays_civil: "\<not> IsZero c \<Longrightarrow> AddDays c k = civil_of (date_day c + k)"
  by (simp add: AddDays_def date_day_def epoch_day_def Let_def add.assoc algebra_simps)

lemma date_day_AddDays: "\<not> IsZero c \<Longrightarrow> date_day (AddDays c k) = date_day c + k"
  by (simp add: AddDays_civil date_day_civil_of)

lemma valid_AddDays: "valid_date c \<Longrightarrow> valid_date (AddDays c k)"
  by (cases "IsZero c") (simp_all add: AddDays_civil civil_of_valid AddDays_def [of c k])

text \<open>Later days have later fields.\<close>

definition earlier :: "CalendarDate \<Rightarrow> CalendarDate \<Rightarrow> bool" where
  "earlier a b = (cd_year a < cd_year b \<or> (cd_year a = cd_year b \<and> (cd_month a < cd_month b \<or>
     (cd_month a = cd_month b \<and> cd_day a < cd_day b))))"

lemma earlier_less:
  assumes a: "valid_date a" and b: "valid_date b" and "earlier a b"
  shows "date_day a < date_day b"
proof -
  have va: "1 \<le> cd_month a" "cd_month a \<le> 12" "1 \<le> cd_day a" "cd_day a \<le> days_in (cd_year a) (cd_month a)"
    and vb: "1 \<le> cd_month b" "cd_month b \<le> 12" "1 \<le> cd_day b" "cd_day b \<le> days_in (cd_year b) (cd_month b)"
    using a b by (auto simp: valid_date_def)
  from assms(3) consider "cd_year a < cd_year b" | "cd_year a = cd_year b" "cd_month a < cd_month b"
    | "cd_year a = cd_year b" "cd_month a = cd_month b" "cd_day a < cd_day b"
    by (auto simp: earlier_def)
  then show ?thesis
  proof cases
    case 1
    then show ?thesis
      using days_before_year_mono [of "cd_year a" "cd_year b"] month_bounds(2) [OF va(1,2), of "cd_year a"]
        month_bounds(1) [OF vb(1,2), of "cd_year b"] va vb
      by (simp add: date_day_valid a b days_before_year_Suc)
  next
    case 2
    then show ?thesis
      using days_before_month_mono [OF va(1) 2(2) vb(2), of "cd_year b"] va vb
      by (simp add: date_day_valid a b)
  next
    case 3
    then show ?thesis by (simp add: date_day_valid a b)
  qed
qed

lemma earlier_iff:
  assumes "valid_date a" "valid_date b"
  shows "earlier a b \<longleftrightarrow> date_day a < date_day b"
proof
  show "earlier a b \<Longrightarrow> date_day a < date_day b" using assms by (rule earlier_less)
  assume "date_day a < date_day b"
  then have "\<not> earlier b a" "a \<noteq> b" using earlier_less [OF assms(2,1)] by auto
  then show "earlier a b"
    by (cases a; cases b) (auto simp: earlier_def)
qed

section \<open>Text\<close>

lemma printable_bounds:
  assumes "printable_date c"
  shows "nat (cd_year c) < 10 ^ 4" "nat (cd_month c) < 10 ^ 2" "nat (cd_day c) < 10 ^ 2"
  using assms days_in_bounds(2) [of "cd_year c" "cd_month c"]
  by (auto simp: printable_date_def valid_date_def)

lemma date_String_printable:
  assumes "printable_date c"
  shows "date_String c = digits 4 (nat (cd_year c)) @ ''-'' @ digits 2 (nat (cd_month c)) @ ''-'' @
    digits 2 (nat (cd_day c))"
proof -
  have v: "valid_date c" "1 \<le> cd_year c" "1 \<le> cd_month c" "1 \<le> cd_day c"
    using assms by (auto simp: printable_date_def valid_date_def)
  then show ?thesis
    using printable_bounds [OF assms]
    by (simp add: date_String_def IsZero_def civil_of_date_day format_date_def append_int_def
      pad_string_digits)
qed

lemma fields_split:
  fixes s :: string
  assumes "length s = 10" "s ! 4 = CHR ''-''" "s ! 7 = CHR ''-''"
  shows "s = take 4 s @ ''-'' @ take 2 (drop 5 s) @ ''-'' @ drop 8 s"
proof -
  have "s = take 4 s @ s ! 4 # drop 5 s" using assms(1) id_take_nth_drop [of 4 s] by simp
  moreover have "drop 5 s = take 2 (drop 5 s) @ s ! 7 # drop 8 s"
    using assms(1) id_take_nth_drop [of 2 "drop 5 s"] by simp
  ultimately show ?thesis using assms(2,3) by simp
qed

lemma ParseCalendarDate_fields:
  assumes "ParseCalendarDate s = Inr c"
  shows "valid_date c" "0 \<le> cd_year c" "cd_year c \<le> 9999"
    "s = digits 4 (nat (cd_year c)) @ ''-'' @ digits 2 (nat (cd_month c)) @ ''-'' @
      digits 2 (nat (cd_day c))"
proof -
  let ?y = "take 4 s" and ?m = "take 2 (drop 5 s)" and ?d = "drop 8 s"
  from assms have len: "length s = 10" and y: "list_all is_digit ?y" and m: "list_all is_digit ?m"
    and d: "list_all is_digit ?d" and dash: "s ! 4 = CHR ''-''" "s ! 7 = CHR ''-''"
    and c: "c = mk_date (int (digits_value ?y)) (int (digits_value ?m)) (int (digits_value ?d))"
    and v: "valid_date c"
    by (auto simp: ParseCalendarDate_def Let_def valid_date_def mk_date_def split: if_splits)
  show "valid_date c" by (rule v)
  show "0 \<le> cd_year c" by (simp add: c mk_date_def)
  have "digits_value ?y < 10 ^ length ?y"
    by (rule digits_value_bound) (use y in \<open>auto simp: list_all_iff\<close>)
  then show "cd_year c \<le> 9999" using len by (simp add: c mk_date_def)
  have dg: "digits (length t) (digits_value t) = t" if "list_all is_digit t" for t
    by (rule digits_of_value) (use that in \<open>auto simp: list_all_iff\<close>)
  have "digits 4 (digits_value ?y) = ?y" "digits 2 (digits_value ?m) = ?m"
      "digits 2 (digits_value ?d) = ?d"
    using dg [OF y] dg [OF m] dg [OF d] len by simp_all
  then show "s = digits 4 (nat (cd_year c)) @ ''-'' @ digits 2 (nat (cd_month c)) @ ''-'' @
      digits 2 (nat (cd_day c))"
    using fields_split [OF len dash] by (simp add: c mk_date_def)
qed

lemma list_all_digits [simp]: "list_all is_digit (digits k n)"
  by (auto simp: list_all_iff dest: digits_all)

lemma ParseCalendarDate_String:
  assumes "printable_date c"
  shows "ParseCalendarDate (date_String c) = Inr c"
proof -
  have v: "1 \<le> cd_year c" "1 \<le> cd_month c" "cd_month c \<le> 12" "1 \<le> cd_day c"
      "cd_day c \<le> days_in (cd_year c) (cd_month c)"
    using assms by (auto simp: printable_date_def valid_date_def)
  show ?thesis
    unfolding date_String_printable [OF assms]
    using v printable_bounds [OF assms]
    by (simp add: ParseCalendarDate_def nth_append digits_value_digits Let_def mk_date_def)
qed

lemma date_String_less_iff:
  assumes "printable_date a" and "printable_date b"
  shows "date_String a < date_String b \<longleftrightarrow> date_day a < date_day b"
proof -
  have v: "1 \<le> cd_year a" "1 \<le> cd_year b" "1 \<le> cd_month a" "1 \<le> cd_month b" "1 \<le> cd_day a" "1 \<le> cd_day b"
    and "valid_date a" "valid_date b"
    using assms by (auto simp: printable_date_def valid_date_def)
  then have "date_day a < date_day b \<longleftrightarrow> earlier a b" by (simp add: earlier_iff)
  also have "\<dots> \<longleftrightarrow> date_String a < date_String b"
    using printable_bounds [OF assms(1)] printable_bounds [OF assms(2)] v
    by (simp add: date_String_printable assms earlier_def append_less digits_less digits_inject)
      auto
  finally show ?thesis by simp
qed

lemma ParseCalendarDate_code [code]:
  "ParseCalendarDate s =
     (if length s = 10 \<and> list_all is_digit (take 4 s) \<and> s ! 4 = CHR ''-'' \<and>
         list_all is_digit (take 2 (drop 5 s)) \<and> s ! 7 = CHR ''-'' \<and> list_all is_digit (drop 8 s)
      then (let y = digits_int (take 4 s); m = digits_int (take 2 (drop 5 s)); d = digits_int (drop 8 s)
            in if 1 \<le> m \<and> m \<le> 12 \<and> 1 \<le> d \<and> d \<le> days_in y m then Inr (mk_date y m d)
               else Inl (ErrMsg ''parsing time''))
      else Inl (ErrMsg ''parsing time''))"
  by (simp add: ParseCalendarDate_def digits_int_eq)

section \<open>Properties\<close>

text \<open>
  C23. Printing and parsing a date are inverse to each other: for every date of the years 1 to
  9999, its text is the only string \<open>ParseCalendarDate\<close> reads as that date.
\<close>

theorem parse_date_iff:
  assumes "printable_date c"
  shows "ParseCalendarDate s = Inr c \<longleftrightarrow> s = date_String c"
  using ParseCalendarDate_String [OF assms] ParseCalendarDate_fields(4) [of s c]
    date_String_printable [OF assms] by auto

theorem parse_date_iff_witness:
  "ParseCalendarDate ''2024-02-29'' = Inr (mk_date 2024 2 29)"
proof -
  have p: "printable_date (mk_date 2024 2 29)" by code_simp
  have "''2024-02-29'' = date_String (mk_date 2024 2 29)" by code_simp
  then show ?thesis using parse_date_iff [OF p] by blast
qed

text \<open>
  \<open>AddDays\<close> moves a date of the calendar by exactly the given number of days, forwards or
  backwards over month ends and leap days, and gives a date of the calendar.
\<close>

theorem AddDays_exact:
  assumes "valid_date c" and "\<not> IsZero c"
  shows "valid_date (AddDays c k) \<and> date_day (AddDays c k) = date_day c + k \<and>
    AddDays c 0 = c \<and> (\<forall>d. valid_date d \<and> date_day d = date_day c + k \<longrightarrow> d = AddDays c k)"
  using assms valid_AddDays [OF assms(1)] date_day_AddDays [OF assms(2)]
    AddDays_civil [OF assms(2), of 0] civil_of_date_day [OF assms(1)]
  by (auto simp flip: date_day_inject)

theorem AddDays_exact_witness:
  "AddDays (mk_date 2024 2 28) 2 = mk_date 2024 3 1 \<and>
   date_day (mk_date 2024 3 1) = date_day (mk_date 2024 2 28) + 2"
proof -
  have c: "valid_date (mk_date 2024 2 28)" "\<not> IsZero (mk_date 2024 2 28)" by code_simp+
  have "AddDays (mk_date 2024 2 28) 2 = mk_date 2024 3 1" by code_simp
  with AddDays_exact [OF c, of 2] show ?thesis by simp
qed

text \<open>
  The date the scheduler ingests is the day before the Jakarta (UTC+7) calendar day of the
  instant: the instant lies in the 24 hours that follow that date there.
\<close>

theorem previous_day_jakarta:
  "valid_date (ResolvePreviousCalendarDayJakarta now) \<and>
   (let midnight = (date_day (ResolvePreviousCalendarDayJakarta now) + 1) * microseconds_per_day - 7 * hour
    in midnight \<le> now \<and> now < midnight + microseconds_per_day)"
proof -
  define w where "w = now + 7 * hour - microseconds_per_day"
  have now: "now = w + microseconds_per_day - 7 * hour" by (simp add: w_def)
  have pos: "0 < microseconds_per_day" by (simp add: microseconds_per_day_def)
  have "w = microseconds_per_day * (w div microseconds_per_day) + w mod microseconds_per_day"
    by (rule mult_div_mod_eq [symmetric])
  moreover have "0 \<le> w mod microseconds_per_day" "w mod microseconds_per_day < microseconds_per_day"
    using pos by simp_all
  ultimately have "microseconds_per_day * (w div microseconds_per_day) \<le> w"
      "w < microseconds_per_day * (w div microseconds_per_day) + microseconds_per_day"
    by linarith+
  then show ?thesis
    unfolding ResolvePreviousCalendarDayJakarta_def CalendarDateFromTime_def Let_def w_def [symmetric]
    by (simp add: civil_of_valid date_day_civil_of now algebra_simps)
qed

end
