(* ===== verification/Job_Catalog.thy ===== *)
theory Job_Catalog
  imports Civil_Date
begin

text \<open>
  The canonical catalog of the 42 ingestion jobs: \<^verbatim>\<open>src/internal/ingestion/catalog.go\<close> and the
  definitions at the head of \<^verbatim>\<open>fixed.go\<close> and \<^verbatim>\<open>maintenance.go\<close>. A string-typed enumeration is a
  datatype with the source's constants and, where the code has a branch for any other value, a
  constructor for it. A \<open>map[string]T\<close> is a map; a loop over a slice is a recursive function on
  the list whose arguments are the variables of the loop.

  The file patterns are compiled from \<open>(?i)^\<close>, a quoted file name and \<open>$\<close>; the model keeps the
  file name and matches whole names up to the simple case folding of regexp, which for ASCII
  letters adds U+017F to s and U+212A to k.
\<close>

section \<open>Enumerations and definitions\<close>

datatype JobCategory = CategoryFixed | CategoryEOD | CategoryCBR | CategoryDetail | CategoryMaster

datatype DateStrategy = RangeCapable | SingleDate | NoDate | OtherStrategy string

datatype MasterKind = MasterReference | MasterMarketing | OtherMasterKind string

datatype LocationStrategy = SingleRequestAllLocationsEmpty | PerLocation | OtherLocation string

datatype AccountCodeStrategy = NoAccountCodeStrategy | AllAccountCodes | OtherAccount string

datatype PublicationMode = DateAddressable | IntervalResult | OtherPublication string

datatype SourceRequestMode = BoundedDateChunks | ExactInterval | OtherRequestMode string

datatype MaintenanceKind = MaintenanceEOD | MaintenanceCBR | OtherMaintenance string

datatype MaintenanceIdentity = BusinessKeyIdentity | RowNumberIdentity | OtherIdentity string

datatype SchemaMode = DynamicAdditive | OtherSchema string

record FixedDefinition =
  fd_Key :: string
  fd_Name :: string
  fd_FincloudReportName :: string
  fd_RequiredHeaders :: "string list"
  fd_LocationStrategy :: LocationStrategy
  fd_AccountCodeStrategy :: AccountCodeStrategy
  fd_SnapshotDate :: bool
  fd_SourceLocationID :: bool
  fd_MaxChunkDays :: int
  fd_PublicationMode :: PublicationMode
  fd_SourceRequestMode :: SourceRequestMode
  fd_CoverageDateHeader :: string
  fd_CoverageDateLayout :: string

record SecondaryIndexColumn =
  ic_Name :: string
  ic_PrefixLength :: int

record SecondaryIndex =
  si_Name :: string
  si_Unique :: bool
  si_Columns :: "SecondaryIndexColumn list"

record MaintenanceDefinition =
  md_Key :: string
  md_Name :: string
  md_Kind :: MaintenanceKind
  md_FilePattern :: "string option"
  md_TableName :: string
  md_Identity :: MaintenanceIdentity
  md_BusinessKeyColumns :: "string list"
  md_SchemaMode :: SchemaMode
  md_SecondaryIndexes :: "SecondaryIndex list"
  md_FixtureGapAccepted :: bool

record MasterDefinition =
  ma_Kind :: MasterKind
  ma_Domain :: string
  ma_Path :: string

record JobDefinition =
  jd_Key :: string
  jd_Name :: string
  jd_Category :: JobCategory
  jd_DateStrategy :: DateStrategy
  jd_Active :: bool
  jd_Fixed :: "FixedDefinition option"
  jd_Maintenance :: "MaintenanceDefinition option"
  jd_Master :: "MasterDefinition option"

record Catalog =
  cat_jobs :: "JobDefinition list"
  cat_byKey :: "string \<Rightarrow> JobDefinition option"

definition CanonicalJobCount :: nat where "CanonicalJobCount = 42"

definition maxMySQLIdentifierLength :: nat where "maxMySQLIdentifierLength = 64"

section \<open>Regular expressions of the catalog\<close>

definition is_lower_ascii :: "char \<Rightarrow> bool" where
  "is_lower_ascii c = (97 \<le> (of_char c :: nat) \<and> (of_char c :: nat) \<le> 122)"

definition ident_rest :: "char \<Rightarrow> bool" where
  "ident_rest c = (is_lower_ascii c \<or> is_digit c \<or> c = CHR ''_'')"

text \<open>\<open>^[a-z][a-z0-9_]*$\<close> and \<open>^[a-z_][a-z0-9_]*$\<close>.\<close>

definition is_job_key :: "string \<Rightarrow> bool" where
  "is_job_key s = (case s of [] \<Rightarrow> False | c # r \<Rightarrow> is_lower_ascii c \<and> list_all ident_rest r)"

definition is_identifier :: "string \<Rightarrow> bool" where
  "is_identifier s =
     (case s of [] \<Rightarrow> False | c # r \<Rightarrow> (is_lower_ascii c \<or> c = CHR ''_'') \<and> list_all ident_rest r)"

definition ascii_lower :: "nat \<Rightarrow> nat" where
  "ascii_lower r = (if 65 \<le> r \<and> r \<le> 90 then r + 32 else r)"

definition fold_rune :: "nat \<Rightarrow> nat" where
  "fold_rune r = (if r = 0x17F then 115 else if r = 0x212A then 107 else ascii_lower r)"

definition match_name :: "string \<Rightarrow> string \<Rightarrow> bool" where
  "match_name pattern name =
     (map fold_rune (decode_runes name) = map fold_rune (decode_runes pattern))"

section \<open>Fixed report definitions\<close>

definition dateLayout :: string where "dateLayout = ''2006-01-02''"

definition cifOpeningHeaders :: "string list" where
  "cifOpeningHeaders = [
    ''CIF No'', ''CIF Alt No'', ''Customer Name'', ''Alias Name'', ''Mobile Phone'',
     ''Home Phone'', ''Religion'', ''Formal Education'', ''Employee ID / Retired ID'', ''Age'',
     ''Customer Type'', ''Occupation'', ''Company Name'', ''Office Address'',
     ''Total Monthly Income'', ''Customer Status'', ''National ID No'', ''Tax ID'', ''Emails'',
     ''Birth Date'', ''Birth Place'', ''Home Address'', ''Home Urban Village'',
     ''Home  Sub-Distric'', ''Home  City'', ''Home Province'', ''Home Postal Code'',
     ''Mother Maiden Name'', ''Gender'', ''Marital Status'', ''Customer Data Attachment'',
     ''Branch Code'', ''Officer Create'', ''Register Date'']"

definition journalHeaders :: "string list" where
  "journalHeaders = [
    ''Branch'', ''Journal ID'', ''Transaction Date'', ''Transaction Type'', ''Reference Number'',
     ''Description'', ''Officer Create'', ''Account No'', ''Customer Name'', ''Customer No'',
     ''Account Alternate No'', ''Currency'', ''CoA No'', ''CoA Name'', ''Debit'', ''Credit'',
     ''Transaction Value'', ''Transaction Code'', ''Time'', ''Create Date'']"

definition balanceSheetHeaders :: "string list" where
  "balanceSheetHeaders = [
    ''Branch'', ''CoA No'', ''Chart of Account'', ''Beginning Balance'', ''Debit Transaction'',
     ''Credit Transaction'', ''Last Balance'']"

definition profitLossHeaders :: "string list" where
  "profitLossHeaders = [
    ''CoA No'', ''Chart of Account'', ''Beginning Balance'', ''Debit'', ''Credit'',
     ''Last Balance'']"

definition coaMovementHeaders :: "string list" where
  "coaMovementHeaders = [
    ''CoA No'', ''Branch'', ''Date'', ''Journal ID'', ''Beginning Balance'', ''Debit'',
     ''Credit'', ''Last Balance'', ''Reference No'', ''Transaction Type'', ''Description'',
     ''Officer Create'', ''User Authorize'', ''Create Date'']"

definition fundDistributionHeaders :: "string list" where
  "fundDistributionHeaders = [
    ''Savings Alt No'', ''Journal Date'', ''Fund Distribution Name'', ''Transaction No'',
     ''CIF No'', ''Customer Name'', ''Savings No'', ''Savings Product'', ''Transaction Type'',
     ''Transaction Amount'', ''Branch'', ''Description'']"

definition vaultMutationHeaders :: "string list" where
  "vaultMutationHeaders = [
    ''branch'', ''tellername'', ''transactiontype'', ''currency'', ''beginningbalance'',
     ''lastbalance'', ''debit'', ''credit'', ''officer'', ''datetime'']"

definition tellerMutationHeaders :: "string list" where
  "tellerMutationHeaders = [
    ''referencenumber'', ''accountnumber'', ''customername'', ''transactiontype'',
     ''beginningbalance'', ''debit'', ''credit'', ''lastbalance'', ''branch'', ''tellerid'',
     ''userauthorization'', ''useroverride'', ''transactiondate'']"

definition fixed :: "string \<Rightarrow> string \<Rightarrow> string \<Rightarrow> LocationStrategy \<Rightarrow> AccountCodeStrategy \<Rightarrow>
    string list \<Rightarrow> string \<Rightarrow> string \<Rightarrow> bool list \<Rightarrow> FixedDefinition" where
  "fixed key name report location account headers coverageHeader coverageLayout sourceLocation =
     \<lparr>fd_Key = key, fd_Name = name, fd_FincloudReportName = report, fd_RequiredHeaders = headers,
      fd_LocationStrategy = location, fd_AccountCodeStrategy = account, fd_SnapshotDate = False,
      fd_SourceLocationID = (0 < length sourceLocation \<and> sourceLocation ! 0), fd_MaxChunkDays = 30,
      fd_PublicationMode = DateAddressable, fd_SourceRequestMode = BoundedDateChunks,
      fd_CoverageDateHeader = coverageHeader, fd_CoverageDateLayout = coverageLayout\<rparr>"

definition fixedInterval ::
    "string \<Rightarrow> string \<Rightarrow> string \<Rightarrow> LocationStrategy \<Rightarrow> string list \<Rightarrow> FixedDefinition" where
  "fixedInterval key name report location headers =
     (fixed key name report location NoAccountCodeStrategy headers [] [] [True])
     \<lparr>fd_PublicationMode := IntervalResult, fd_SourceRequestMode := ExactInterval,
      fd_MaxChunkDays := 0\<rparr>"

definition fixedSnapshot ::
    "string \<Rightarrow> string \<Rightarrow> string \<Rightarrow> LocationStrategy \<Rightarrow> string list \<Rightarrow> bool \<Rightarrow> FixedDefinition" where
  "fixedSnapshot key name report location headers sourceLocation =
     (fixed key name report location NoAccountCodeStrategy headers [] [] [sourceLocation])
     \<lparr>fd_SnapshotDate := True\<rparr>"

definition FixedDefinitions :: "FixedDefinition list" where
  "FixedDefinitions = [
     fixed ''cif_opening_report'' ''CIF Opening Report'' ''CIF Opening Report''
       SingleRequestAllLocationsEmpty NoAccountCodeStrategy cifOpeningHeaders ''Register Date''
       dateLayout [],
     fixed ''journal_transaction_report'' ''Journal Transaction Report'' ''Journal Transaction csv''
       SingleRequestAllLocationsEmpty NoAccountCodeStrategy journalHeaders ''Transaction Date''
       dateLayout [],
     fixedSnapshot ''balance_sheet_report'' ''Balance Sheet Report'' ''Balance Sheet Report csv''
       PerLocation balanceSheetHeaders True,
     fixedInterval ''profit_loss_statement'' ''Profit and Loss Statement''
       ''Profit and Loss Statement csv'' PerLocation profitLossHeaders,
     fixed ''coa_movement_report'' ''CoA Movement Report'' ''CoA Movement Report csv''
       SingleRequestAllLocationsEmpty AllAccountCodes coaMovementHeaders ''Date'' dateLayout [],
     fixed ''fund_distribution_report'' ''Fund Distribution Report'' ''Fund Distribution Report csv''
       SingleRequestAllLocationsEmpty NoAccountCodeStrategy fundDistributionHeaders ''Journal Date''
       dateLayout [],
     fixed ''vault_mutation_report'' ''Vault Mutation Report'' ''Vault Mutation Report csv''
       SingleRequestAllLocationsEmpty NoAccountCodeStrategy vaultMutationHeaders ''datetime''
       ''2006 -01-0215:04:05'' [],
     fixed ''teller_mutation_report'' ''Teller Mutation Report''
       ''Teller Mutation Report (Teller's Blotter) csv''
       SingleRequestAllLocationsEmpty NoAccountCodeStrategy tellerMutationHeaders ''transactiondate''
       ''2006-01-02 15:04:05'' []]"

definition fixed_tables :: "(string \<times> string) list" where
  "fixed_tables = [
     (''cif_opening_report'', ''fincloud_cif_opening_reports''),
     (''journal_transaction_report'', ''fincloud_journal_transaction_reports''),
     (''balance_sheet_report'', ''fincloud_balance_sheet_reports''),
     (''profit_loss_statement'', ''fincloud_profit_loss_statements''),
     (''coa_movement_report'', ''fincloud_coa_movement_reports''),
     (''fund_distribution_report'', ''fincloud_fund_distribution_reports''),
     (''vault_mutation_report'', ''fincloud_vault_mutation_reports''),
     (''teller_mutation_report'', ''fincloud_teller_mutation_reports'')]"

definition FixedTableName :: "string \<Rightarrow> string result" where
  "FixedTableName jobKey =
     (case map_of fixed_tables jobKey of
        None \<Rightarrow> Inl (ErrMsg ''unknown fixed report'')
      | Some table \<Rightarrow> Inr table)"

text \<open>\<open>canonical\<close> is built by assignment, so a later definition with the same key wins.\<close>

definition canonical_fixed :: "string \<Rightarrow> FixedDefinition option" where
  "canonical_fixed = fold (\<lambda>d m. m(fd_Key d \<mapsto> d)) FixedDefinitions Map.empty"

definition fixed_semantics_differ :: "FixedDefinition \<Rightarrow> FixedDefinition \<Rightarrow> bool" where
  "fixed_semantics_differ d expected =
     (fd_PublicationMode d \<noteq> fd_PublicationMode expected \<or>
      fd_SourceRequestMode d \<noteq> fd_SourceRequestMode expected \<or>
      fd_MaxChunkDays d \<noteq> fd_MaxChunkDays expected \<or> fd_SnapshotDate d \<noteq> fd_SnapshotDate expected \<or>
      fd_CoverageDateHeader d \<noteq> fd_CoverageDateHeader expected \<or>
      fd_CoverageDateLayout d \<noteq> fd_CoverageDateLayout expected)"

definition check_fixed :: "string list \<Rightarrow> FixedDefinition \<Rightarrow> unit result" where
  "check_fixed seen d =
     (if fd_Key d = [] \<or> fd_Name d = [] \<or> fd_FincloudReportName d = [] \<or> fd_RequiredHeaders d = []
      then Inl (ErrMsg ''fixed definition is incomplete'')
      else if (case canonical_fixed (fd_Key d) of
                 None \<Rightarrow> True | Some expected \<Rightarrow> fixed_semantics_differ d expected)
      then Inl (ErrMsg ''invalid canonical publication/source/date semantics'')
      else if fd_Key d \<in> set seen then Inl (ErrMsg ''duplicate fixed definition'')
      else if fd_LocationStrategy d \<noteq> SingleRequestAllLocationsEmpty \<and> fd_LocationStrategy d \<noteq> PerLocation
      then Inl (ErrMsg ''invalid location strategy'')
      else if fd_AccountCodeStrategy d \<noteq> NoAccountCodeStrategy \<and> fd_AccountCodeStrategy d \<noteq> AllAccountCodes
      then Inl (ErrMsg ''invalid account-code strategy'')
      else if fd_LocationStrategy d = PerLocation \<and> fd_AccountCodeStrategy d \<noteq> NoAccountCodeStrategy
      then Inl (ErrMsg ''conflicting internal dimensions'')
      else if fd_LocationStrategy d = PerLocation \<and> \<not> fd_SourceLocationID d
      then Inl (ErrMsg ''must preserve request-location provenance'')
      else if fd_LocationStrategy d \<noteq> PerLocation \<and> fd_SourceLocationID d
      then Inl (ErrMsg ''unexpected request-location provenance'')
      else Inr ())"

fun check_fixed_all :: "string list \<Rightarrow> FixedDefinition list \<Rightarrow> unit result" where
  "check_fixed_all seen [] = Inr ()"
| "check_fixed_all seen (d # ds) =
     (case check_fixed seen d of Inl x \<Rightarrow> Inl x | Inr _ \<Rightarrow> check_fixed_all (fd_Key d # seen) ds)"

definition validateFixedDefinitions :: "FixedDefinition list \<Rightarrow> unit result" where
  "validateFixedDefinitions definitions =
     (if length definitions \<noteq> 8 then Inl (ErrMsg ''fixed catalog definitions, want 8'')
      else check_fixed_all [] definitions)"

section \<open>Maintenance file definitions\<close>

definition maintenance :: "string \<Rightarrow> string \<Rightarrow> MaintenanceKind \<Rightarrow> string \<Rightarrow> string \<Rightarrow>
    MaintenanceIdentity \<Rightarrow> string list \<Rightarrow> MaintenanceDefinition" where
  "maintenance key name kind filename table identity businessKeys =
     \<lparr>md_Key = key, md_Name = name, md_Kind = kind, md_FilePattern = Some filename,
      md_TableName = table, md_Identity = identity, md_BusinessKeyColumns = businessKeys,
      md_SchemaMode = DynamicAdditive, md_SecondaryIndexes = [], md_FixtureGapAccepted = False\<rparr>"

definition withSecondaryIndexes ::
    "MaintenanceDefinition \<Rightarrow> SecondaryIndex list \<Rightarrow> MaintenanceDefinition" where
  "withSecondaryIndexes definition0 indexes = definition0\<lparr>md_SecondaryIndexes := indexes\<rparr>"

definition fixtureGap :: "MaintenanceDefinition \<Rightarrow> MaintenanceDefinition" where
  "fixtureGap definition0 = definition0\<lparr>md_FixtureGapAccepted := True\<rparr>"

definition MaintenanceDefinitions :: "MaintenanceDefinition list" where
  "MaintenanceDefinitions = [
     maintenance ''eod_cif_opening_report_full'' ''EOD CIF Opening Report (Full)'' MaintenanceEOD
       ''CIF Opening Report (Full).csv'' ''fincloud_eod_cif_opening_report_full'' BusinessKeyIdentity
       [''cif_no''],
     withSecondaryIndexes (maintenance ''eod_detail_outstanding_rekening_pinjaman'' ''EOD DetailOutstandingRekeningPinjaman'' MaintenanceEOD
       ''DetailOutstandingRekeningPinjaman.csv'' ''fincloud_eod_detail_outstanding_rekening_pinjaman'' BusinessKeyIdentity
       [''no_rekening''])
       [\<lparr>si_Name = ''idx_eod_outstanding_no_rekening_as_of_date'', si_Unique = False, si_Columns =
          [\<lparr>ic_Name = ''no_rekening'', ic_PrefixLength = 64\<rparr>,
           \<lparr>ic_Name = ''as_of_date'', ic_PrefixLength = 0\<rparr>]\<rparr>],
     maintenance ''eod_laporan_pelunasan_pinjaman_sebelum_jt'' ''EOD LaporanPelunasanPinjamanSebelumJT'' MaintenanceEOD
       ''LaporanPelunasanPinjamanSebelumJT.csv'' ''fincloud_eod_laporan_pelunasan_pinjaman_sebelum_jt'' BusinessKeyIdentity
       [''norekening'', ''tgl_pelunasan''],
     maintenance ''eod_laporan_pembayaran_angsuran'' ''EOD LaporanPembayaranAngsuran'' MaintenanceEOD
       ''LaporanPembayaranAngsuran.csv'' ''fincloud_eod_laporan_pembayaran_angsuran'' BusinessKeyIdentity
       [''norekening'', ''tglbayar'', ''bayar_pokok'', ''bayar_bunga'', ''bayar_denda''],
     maintenance ''eod_laporan_pencairan_pinjaman'' ''EOD LaporanPencairanPinjaman'' MaintenanceEOD
       ''LaporanPencairanPinjaman.csv'' ''fincloud_eod_laporan_pencairan_pinjaman'' BusinessKeyIdentity
       [''norekening''],
     maintenance ''eod_laporan_pinjaman_akan_jatuh_tempo'' ''EOD LaporanPinjamanAkanJatuhTempo'' MaintenanceEOD
       ''LaporanPinjamanAkanJatuhTempo.csv'' ''fincloud_eod_laporan_pinjaman_akan_jatuh_tempo'' BusinessKeyIdentity
       [''no_rekening'', ''angsuran_ke''],
     maintenance ''eod_loan_write_off_report'' ''EOD Loan Write Off Report'' MaintenanceEOD
       ''Loan Write Off Report.csv'' ''fincloud_eod_loan_write_off_report'' BusinessKeyIdentity
       [''loan_no''],
     maintenance ''eod_savings_account_api_transaction'' ''EOD Savings Account API Transaction'' MaintenanceEOD
       ''Savings Account API Transaction.csv'' ''fincloud_eod_savings_account_api_transaction'' RowNumberIdentity
       [],
     maintenance ''eod_savings_account_closing_report'' ''EOD Savings Account Closing Report'' MaintenanceEOD
       ''Savings Account Closing Report.csv'' ''fincloud_eod_savings_account_closing_report'' BusinessKeyIdentity
       [''account_number''],
     maintenance ''eod_savings_account_opening_report'' ''EOD Savings Account Opening Report'' MaintenanceEOD
       ''Savings Account Opening Report.csv'' ''fincloud_eod_savings_account_opening_report'' BusinessKeyIdentity
       [''account_number''],
     maintenance ''eod_savings_account_balance_report'' ''EOD Savings Account Balance Report'' MaintenanceEOD
       ''DetailSaldoRekeningTabungan.csv'' ''fincloud_eod_savings_account_balance_report'' BusinessKeyIdentity
       [''no_rekening''],
     maintenance ''eod_loan_will_due_report'' ''EOD Loan Will Due Report'' MaintenanceEOD
       ''Loan Will Due Report.csv'' ''fincloud_eod_loan_will_due_report'' BusinessKeyIdentity
       [''account_number'', ''maturity_date''],
     fixtureGap (maintenance ''eod_savings_balance_details_report'' ''EOD Savings Balance Details Report'' MaintenanceEOD
       ''Savings Balance Details Report.csv'' ''fincloud_eod_savings_balance_details_report'' BusinessKeyIdentity
       [''account_no'']),
     fixtureGap (maintenance ''eod_time_deposit_account_balance_details'' ''EOD Time Deposit Account Balance Details'' MaintenanceEOD
       ''Time Deposit Account Balance Details.csv'' ''fincloud_eod_time_deposit_account_balance_details'' BusinessKeyIdentity
       [''account_no'']),
     fixtureGap (maintenance ''eod_time_deposit_closing_report'' ''EOD Time Deposit Closing Report'' MaintenanceEOD
       ''Time Deposit Closing Report.csv'' ''fincloud_eod_time_deposit_closing_report'' BusinessKeyIdentity
       [''account_no'']),
     fixtureGap (maintenance ''eod_time_deposit_placement_report'' ''EOD Time Deposit Placement Report'' MaintenanceEOD
       ''Time Deposit Placement Report.csv'' ''fincloud_eod_time_deposit_placement_report'' BusinessKeyIdentity
       [''account_no'']),
     fixtureGap (maintenance ''eod_savings_balance_details_report_rak'' ''EOD Savings Balance Details Report RAK'' MaintenanceEOD
       ''savings_balance_details_report_rak.csv'' ''fincloud_eod_savings_balance_details_report_rak'' BusinessKeyIdentity
       [''account_no'']),
     maintenance ''cbr_balance_sheet'' ''CBR Balance Sheet'' MaintenanceCBR
       ''cbr_balance_sheet.csv'' ''fincloud_cbr_balance_sheet'' BusinessKeyIdentity
       [''account_id'', ''account_name''],
     maintenance ''cbr_arrears'' ''CBR Arrears'' MaintenanceCBR
       ''cbrarrears.csv'' ''fincloud_cbr_arrears'' BusinessKeyIdentity
       [''loan_no'', ''installment_no''],
     maintenance ''cbr_collateral'' ''CBR Collateral'' MaintenanceCBR
       ''cbrcollateral.csv'' ''fincloud_cbr_collateral'' RowNumberIdentity
       [],
     maintenance ''cbr_customer'' ''CBR Customer'' MaintenanceCBR
       ''cbrcustomer.csv'' ''fincloud_cbr_customer'' RowNumberIdentity
       [],
     maintenance ''cbr_loan'' ''CBR Loan'' MaintenanceCBR
       ''cbrloan.csv'' ''fincloud_cbr_loan'' RowNumberIdentity
       [],
     maintenance ''cbr_savings'' ''CBR Savings'' MaintenanceCBR
       ''cbrsavings.csv'' ''fincloud_cbr_savings'' BusinessKeyIdentity
       [''acc_no''],
     maintenance ''cbr_time_deposit'' ''CBR Time Deposit'' MaintenanceCBR
       ''cbrtimedeposit.csv'' ''fincloud_cbr_time_deposit'' BusinessKeyIdentity
       [''acc_no'']]"

record DynamicSchemaPolicy =
  sp_Mode :: SchemaMode
  sp_CreateTableOnFirstLoad :: bool
  sp_ReuseKnownColumns :: bool
  sp_AddMissingColumns :: bool
  sp_AddColumnSQLType :: string
  sp_AllowDrop :: bool
  sp_AllowRename :: bool
  sp_AllowTypeMutation :: bool

definition DynamicAdditivePolicy :: DynamicSchemaPolicy where
  "DynamicAdditivePolicy =
     \<lparr>sp_Mode = DynamicAdditive, sp_CreateTableOnFirstLoad = True, sp_ReuseKnownColumns = True,
      sp_AddMissingColumns = True, sp_AddColumnSQLType = ''TEXT NULL'', sp_AllowDrop = False,
      sp_AllowRename = False, sp_AllowTypeMutation = False\<rparr>"

definition maintenanceMetadataColumnTypes :: "(string \<times> string) list" where
  "maintenanceMetadataColumnTypes = [
     (''requested_date'', ''DATE''),
     (''as_of_date'', ''DATE''),
     (''source_file_name'', ''VARCHAR(255)''),
     (''source_row_number'', ''BIGINT UNSIGNED''),
     (''source_row_checksum'', ''CHAR(64)''),
     (''business_key_hash'', ''CHAR(64)''),
     (''created_at'', ''DATETIME(6)''),
     (''updated_at'', ''DATETIME(6)'')]"

definition reservedMaintenanceColumns :: "string list" where
  "reservedMaintenanceColumns = [
     ''requested_date'', ''as_of_date'', ''business_key_hash'', ''source_file_name'',
     ''source_row_number'', ''source_row_checksum'', ''ingestion_run_id'', ''created_at'',
     ''updated_at'']"

definition MaintenanceColumnSQLType :: "MaintenanceDefinition \<Rightarrow> string \<Rightarrow> string result" where
  "MaintenanceColumnSQLType d column =
     (case map_of maintenanceMetadataColumnTypes column of
        Some sqlType \<Rightarrow> Inr sqlType
      | None \<Rightarrow>
          if column \<in> set reservedMaintenanceColumns
          then Inl (ErrMsg ''maintenance column has no generated SQL type'')
          else if md_SchemaMode d \<noteq> DynamicAdditive \<or> sp_AddColumnSQLType DynamicAdditivePolicy = []
          then Inl (ErrMsg ''maintenance column SQL type cannot be resolved'')
          else Inr (sp_AddColumnSQLType DynamicAdditivePolicy))"

text \<open>\<open>strings.ToUpper(strings.Fields(sqlType)[0])\<close> on the ASCII names of SQL types.\<close>

definition ascii_upper :: "char \<Rightarrow> char" where
  "ascii_upper c = (if is_lower_ascii c then char_of (of_char c - (32::nat)) else c)"

definition ascii_space :: "char \<Rightarrow> bool" where
  "ascii_space c = ((of_char c :: nat) \<in> {9, 10, 11, 12, 13, 32})"

definition first_field :: "string \<Rightarrow> string" where
  "first_field s = takeWhile (\<lambda>c. \<not> ascii_space c) (dropWhile ascii_space s)"

definition maintenanceIndexPrefixType :: "string \<Rightarrow> bool" where
  "maintenanceIndexPrefixType sqlType =
     (let typeName = map ascii_upper (first_field sqlType)
      in typeName = ''TEXT'' \<or> HasPrefix typeName ''CHAR('' \<or> HasPrefix typeName ''VARCHAR('')"

fun check_index_columns ::
    "MaintenanceDefinition \<Rightarrow> string list \<Rightarrow> SecondaryIndexColumn list \<Rightarrow> unit result" where
  "check_index_columns d seen [] = Inr ()"
| "check_index_columns d seen (column # columns) =
     (if \<not> is_identifier (ic_Name column) \<or> length (ic_Name column) > maxMySQLIdentifierLength \<or>
         ic_PrefixLength column < 0
      then Inl (ErrMsg ''secondary index has invalid column'')
      else if ic_Name column \<in> set seen then Inl (ErrMsg ''secondary index repeats column'')
      else (case MaintenanceColumnSQLType d (ic_Name column) of
              Inl x \<Rightarrow> Inl x
            | Inr sqlType \<Rightarrow>
                if ic_PrefixLength column > 0 \<and> \<not> maintenanceIndexPrefixType sqlType
                then Inl (ErrMsg ''type does not support prefix length'')
                else check_index_columns d (ic_Name column # seen) columns))"

fun check_indexes :: "MaintenanceDefinition \<Rightarrow> string list \<Rightarrow> SecondaryIndex list \<Rightarrow> unit result" where
  "check_indexes d seen [] = Inr ()"
| "check_indexes d seen (index # indexes) =
     (if \<not> is_identifier (si_Name index) \<or> length (si_Name index) > maxMySQLIdentifierLength \<or>
         si_Columns index = []
      then Inl (ErrMsg ''invalid secondary index'')
      else if si_Name index \<in> set seen then Inl (ErrMsg ''duplicate secondary index'')
      else (case check_index_columns d [] (si_Columns index) of
              Inl x \<Rightarrow> Inl x
            | Inr _ \<Rightarrow> check_indexes d (si_Name index # seen) indexes))"

definition check_identity :: "MaintenanceDefinition \<Rightarrow> unit result" where
  "check_identity d =
     (case md_Identity d of
        BusinessKeyIdentity \<Rightarrow>
          if md_BusinessKeyColumns d = [] then Inl (ErrMsg ''requires business keys'') else Inr ()
      | RowNumberIdentity \<Rightarrow>
          if md_BusinessKeyColumns d \<noteq> [] then Inl (ErrMsg ''row identity cannot have business keys'')
          else Inr ()
      | OtherIdentity _ \<Rightarrow> Inl (ErrMsg ''invalid identity''))"

fun check_maintenance :: "string list \<Rightarrow> string list \<Rightarrow> (MaintenanceKind \<times> string) list \<Rightarrow>
    MaintenanceDefinition list \<Rightarrow> unit result" where
  "check_maintenance seenKeys seenTables seenPatterns [] = Inr ()"
| "check_maintenance seenKeys seenTables seenPatterns (d # ds) =
     (if \<not> is_identifier (md_Key d) \<or> \<not> is_identifier (md_TableName d) \<or>
         length (md_TableName d) > maxMySQLIdentifierLength
      then Inl (ErrMsg ''invalid maintenance definition'')
      else (case md_FilePattern d of
         None \<Rightarrow> Inl (ErrMsg ''maintenance definition has invalid source contract'')
       | Some pattern \<Rightarrow>
           if (md_Kind d \<noteq> MaintenanceEOD \<and> md_Kind d \<noteq> MaintenanceCBR) \<or> md_SchemaMode d \<noteq> DynamicAdditive
           then Inl (ErrMsg ''maintenance definition has invalid source contract'')
           else if md_Key d \<in> set seenKeys then Inl (ErrMsg ''duplicate maintenance key'')
           else if md_TableName d \<in> set seenTables then Inl (ErrMsg ''duplicate maintenance table'')
           else if (md_Kind d, pattern) \<in> set seenPatterns
           then Inl (ErrMsg ''duplicate maintenance filename matcher'')
           else (case check_identity d of
              Inl x \<Rightarrow> Inl x
            | Inr _ \<Rightarrow>
                (case check_indexes d [] (md_SecondaryIndexes d) of
                   Inl x \<Rightarrow> Inl x
                 | Inr _ \<Rightarrow>
                     check_maintenance (md_Key d # seenKeys) (md_TableName d # seenTables)
                       ((md_Kind d, pattern) # seenPatterns) ds))))"

definition validateMaintenanceDefinitions :: "MaintenanceDefinition list \<Rightarrow> unit result" where
  "validateMaintenanceDefinitions definitions = check_maintenance [] [] [] definitions"

definition ValidateMaintenanceDefinition :: "MaintenanceDefinition \<Rightarrow> unit result" where
  "ValidateMaintenanceDefinition d = validateMaintenanceDefinitions [d]"

section \<open>The catalog\<close>

definition job :: "string \<Rightarrow> string \<Rightarrow> JobCategory \<Rightarrow> DateStrategy \<Rightarrow> JobDefinition" where
  "job key name category strategy =
     \<lparr>jd_Key = key, jd_Name = name, jd_Category = category, jd_DateStrategy = strategy,
      jd_Active = True, jd_Fixed = None, jd_Maintenance = None, jd_Master = None\<rparr>"

definition fixed_job :: "FixedDefinition \<Rightarrow> JobDefinition" where
  "fixed_job d =
     (job (fd_Key d) (fd_Name d) CategoryFixed (if fd_SnapshotDate d then SingleDate else RangeCapable))
     \<lparr>jd_Fixed := Some d\<rparr>"

definition maintenance_job :: "MaintenanceDefinition \<Rightarrow> JobDefinition" where
  "maintenance_job d =
     (job (md_Key d) (md_Name d) (if md_Kind d = MaintenanceCBR then CategoryCBR else CategoryEOD)
       SingleDate)\<lparr>jd_Maintenance := Some d\<rparr>"

definition detail_jobs :: "JobDefinition list" where
  "detail_jobs = map (\<lambda>(key, name). job key name CategoryDetail NoDate) [
     (''cif_detail'', ''CIF Detail''),
     (''saving_detail'', ''Saving Detail''),
     (''time_deposit_detail'', ''Time Deposit Detail''),
     (''loan_detail'', ''Loan Detail''),
     (''saving_block_detail'', ''Saving Block Detail'')]"

definition master :: "MasterKind \<Rightarrow> string \<Rightarrow> string \<Rightarrow> MasterDefinition" where
  "master kind domain path = \<lparr>ma_Kind = kind, ma_Domain = domain, ma_Path = path\<rparr>"

definition master_jobs :: "JobDefinition list" where
  "master_jobs =
     map (\<lambda>(key, name, d). (job key name CategoryMaster NoDate)\<lparr>jd_Master := Some d\<rparr>) [
     (''cif_reference_master'', ''CIF Reference Master'',
        master MasterReference ''cif'' ''/cif/inquiry/cif//listvalues''),
     (''saving_reference_master'', ''Savings Reference Master'',
        master MasterReference ''saving'' ''/tabungan/inquiry/rekening//listvalues''),
     (''time_deposit_reference_master'', ''Time Deposit Reference Master'',
        master MasterReference ''time_deposit'' ''/deposito/inquiry/rekening//listvalues''),
     (''loan_reference_master'', ''Loan Reference Master'',
        master MasterReference ''loan'' ''/pinjaman/inquiry/rekening//listvalues''),
     (''marketing_master'', ''Marketing Master'',
        master MasterMarketing [] ''/system/marketing/pembuatan/cari?nama='')]"

definition check_job :: "(string \<Rightarrow> JobDefinition option) \<Rightarrow> JobDefinition \<Rightarrow> unit result" where
  "check_job byKey j =
     (if \<not> is_job_key (jd_Key j) then Inl (ErrMsg ''invalid job key'')
      else if byKey (jd_Key j) \<noteq> None then Inl (ErrMsg ''duplicate job key'')
      else if jd_Category j = CategoryMaster then
        (case jd_Master j of
           None \<Rightarrow> Inl (ErrMsg ''master definition is incomplete'')
         | Some d \<Rightarrow>
             if ma_Path d = [] \<or> (ma_Kind d \<noteq> MasterReference \<and> ma_Kind d \<noteq> MasterMarketing) \<or>
                (ma_Kind d = MasterReference \<and> ma_Domain d = []) \<or>
                (ma_Kind d = MasterMarketing \<and> ma_Domain d \<noteq> [])
             then Inl (ErrMsg ''master definition is incomplete'') else Inr ())
      else if jd_Master j \<noteq> None then Inl (ErrMsg ''non-master job has a master definition'')
      else Inr ())"

fun index_jobs :: "(string \<Rightarrow> JobDefinition option) \<Rightarrow> (DateStrategy \<Rightarrow> nat) \<Rightarrow> JobDefinition list \<Rightarrow>
    ((string \<Rightarrow> JobDefinition option) \<times> (DateStrategy \<Rightarrow> nat)) result" where
  "index_jobs byKey strategies [] = Inr (byKey, strategies)"
| "index_jobs byKey strategies (j # js) =
     (case check_job byKey j of
        Inl x \<Rightarrow> Inl x
      | Inr _ \<Rightarrow>
          index_jobs (byKey(jd_Key j \<mapsto> j))
            (strategies(jd_DateStrategy j := Suc (strategies (jd_DateStrategy j)))) js)"

definition catalog_jobs :: "JobDefinition list" where
  "catalog_jobs =
     map fixed_job FixedDefinitions @ map maintenance_job MaintenanceDefinitions @ detail_jobs @ master_jobs"

definition NewCatalog :: "Catalog result" where
  "NewCatalog =
     (case validateFixedDefinitions FixedDefinitions of
        Inl x \<Rightarrow> Inl x
      | Inr _ \<Rightarrow>
          (case validateMaintenanceDefinitions MaintenanceDefinitions of
             Inl x \<Rightarrow> Inl x
           | Inr _ \<Rightarrow>
               if length catalog_jobs \<noteq> CanonicalJobCount then Inl (ErrMsg ''canonical catalog size'')
               else (case index_jobs Map.empty (\<lambda>_. 0) catalog_jobs of
                  Inl x \<Rightarrow> Inl x
                | Inr (byKey, strategies) \<Rightarrow>
                    if strategies RangeCapable \<noteq> 7 \<or> strategies SingleDate \<noteq> 25 \<or> strategies NoDate \<noteq> 10
                    then Inl (ErrMsg ''canonical date strategies'')
                    else Inr \<lparr>cat_jobs = catalog_jobs, cat_byKey = byKey\<rparr>)))"

definition Jobs :: "Catalog \<Rightarrow> JobDefinition list" where
  "Jobs catalog = cat_jobs catalog"

definition Find :: "Catalog \<Rightarrow> string \<Rightarrow> JobDefinition option" where
  "Find catalog key = cat_byKey catalog key"

section \<open>Lemmas\<close>

lemma index_jobs_spec:
  "index_jobs byKey st js = Inr (m, st') \<Longrightarrow>
   distinct (map jd_Key js) \<and> (\<forall>j \<in> set js. byKey (jd_Key j) = None) \<and>
   m = (\<lambda>k. case List.find (\<lambda>j. jd_Key j = k) js of Some j \<Rightarrow> Some j | None \<Rightarrow> byKey k)"
proof (induction js arbitrary: byKey st)
  case Nil
  then show ?case by auto
next
  case (Cons j js)
  then have new: "byKey (jd_Key j) = None"
    by (auto simp: check_job_def split: sum.splits if_splits)
  from Cons have rec: "index_jobs (byKey(jd_Key j \<mapsto> j))
      (st(jd_DateStrategy j := Suc (st (jd_DateStrategy j)))) js = Inr (m, st')"
    by (auto split: sum.splits)
  note IH = Cons.IH [OF rec]
  have fresh: "jd_Key j \<notin> jd_Key ` set js" using IH by auto
  then have none: "List.find (\<lambda>i. jd_Key i = jd_Key j) js = None"
    unfolding find_None_iff by (metis imageI)
  show ?case
    using IH new fresh none by (auto split: option.splits if_splits intro!: ext)
qed

lemma validate_fixed: "validateFixedDefinitions FixedDefinitions = Inr ()"
  by code_simp

lemma validate_maintenance: "validateMaintenanceDefinitions MaintenanceDefinitions = Inr ()"
  by code_simp

lemma index_catalog:
  "\<exists>m st. index_jobs Map.empty (\<lambda>_. 0) catalog_jobs = Inr (m, st) \<and>
     st RangeCapable = 7 \<and> st SingleDate = 25 \<and> st NoDate = 10"
proof -
  have "(case index_jobs Map.empty (\<lambda>_. 0) catalog_jobs of Inl x \<Rightarrow> False
     | Inr (m, st) \<Rightarrow> st RangeCapable = 7 \<and> st SingleDate = 25 \<and> st NoDate = 10)"
    by code_simp
  then show ?thesis by (auto split: sum.splits prod.splits)
qed

lemma length_catalog_jobs: "length catalog_jobs = CanonicalJobCount"
  by code_simp

definition canonical_catalog :: Catalog where
  "canonical_catalog =
     \<lparr>cat_jobs = catalog_jobs, cat_byKey = (\<lambda>k. List.find (\<lambda>j. jd_Key j = k) catalog_jobs)\<rparr>"

lemma catalog_keys_distinct: "distinct (map jd_Key catalog_jobs)"
  using index_catalog index_jobs_spec by blast

lemma NewCatalog_eq: "NewCatalog = Inr canonical_catalog"
proof -
  obtain m st where ix: "index_jobs Map.empty (\<lambda>_. 0) catalog_jobs = Inr (m, st)"
      and n: "st RangeCapable = 7" "st SingleDate = 25" "st NoDate = 10"
    using index_catalog by blast
  have "m = (\<lambda>k. List.find (\<lambda>j. jd_Key j = k) catalog_jobs)"
    using index_jobs_spec [OF ix] by (auto split: option.splits)
  then show ?thesis
    by (simp add: NewCatalog_def validate_fixed validate_maintenance length_catalog_jobs ix n
      canonical_catalog_def)
qed

lemma Jobs_canonical [simp]: "Jobs canonical_catalog = catalog_jobs"
  by (simp add: Jobs_def canonical_catalog_def)

lemma find_key_iff:
  "distinct (map jd_Key js) \<Longrightarrow>
   List.find (\<lambda>j. jd_Key j = k) js = Some j \<longleftrightarrow> j \<in> set js \<and> jd_Key j = k"
  by (induction js) (auto simp: image_iff)

lemma Find_canonical_iff:
  "Find canonical_catalog k = Some j \<longleftrightarrow> j \<in> set catalog_jobs \<and> jd_Key j = k"
  by (simp add: Find_def canonical_catalog_def find_key_iff [OF catalog_keys_distinct])

lemma strategy_counts:
  "length (filter (\<lambda>j. jd_DateStrategy j = RangeCapable) catalog_jobs) = 7"
  "length (filter (\<lambda>j. jd_DateStrategy j = SingleDate) catalog_jobs) = 25"
  "length (filter (\<lambda>j. jd_DateStrategy j = NoDate) catalog_jobs) = 10"
  by code_simp+

section \<open>Properties\<close>


end
