(* ===== verification/Run_Parameters.thy ===== *)
theory Run_Parameters
  imports Job_Catalog
begin

text \<open>
  The parameter envelope of a run: \<^verbatim>\<open>src/internal/ingestionrun/params.go\<close> and \<open>parametersForJob\<close> of
  \<^verbatim>\<open>repository.go\<close>. The bytes of a JSON column are \<open>raw_json\<close>: nothing, text that starts no JSON
  value, one JSON value, or a value followed by more text. \<open>json.Marshal\<close> prints the compact form
  of the value, whose SHA-256 digest is the checksum; the hash function is the parameter \<open>sha\<close>.
  The strings printed here are dates and field names, which need no escapes.

  The loop of \<open>inclusiveDates\<close> has no bound of its own, so it is a \<open>partial_function\<close> in \<open>option\<close>
  and a loop that never ends is \<open>ErrDiverge\<close>; that it returns is part of the theorems.
\<close>

section \<open>JSON documents\<close>

datatype raw_json = RawEmpty | NotJson | Json json | JsonTrailing json

definition json_Valid :: "raw_json \<Rightarrow> bool" where
  "json_Valid raw = (case raw of Json _ \<Rightarrow> True | _ \<Rightarrow> False)"

definition json_quote :: "string \<Rightarrow> string" where
  "json_quote s = [CHR 0x22] @ s @ [CHR 0x22]"

fun join_comma :: "string list \<Rightarrow> string" where
  "join_comma [] = []"
| "join_comma [s] = s"
| "join_comma (s # t # ts) = s @ '','' @ join_comma (t # ts)"

fun print_json :: "json \<Rightarrow> string" where
  "print_json JNull = ''null''"
| "print_json (JBool b) = (if b then ''true'' else ''false'')"
| "print_json (JNum s) = s"
| "print_json (JStr s) = json_quote s"
| "print_json (JArr xs) = ''['' @ join_comma (map print_json xs) @ '']''"
| "print_json (JObj ms) =
     ''{'' @ join_comma (map (\<lambda>(k, v). json_quote k @ '':'' @ print_json v) ms) @ ''}''"

section \<open>Envelope\<close>

datatype ParameterKind =
    FixedRangeV1
  | FixedDateSeriesV1
  | MaintenanceDateSeriesV2
  | LiveSnapshotV1
  | DetailLiveSnapshotV1
  | RunAllRangeV1
  | OtherParameterKind string

record Parameters =
  pm_Kind :: ParameterKind
  pm_Version :: "16 word"
  pm_JSON :: raw_json
  pm_Checksum :: hash

record Range =
  rg_From :: CalendarDate
  rg_To :: CalendarDate

definition mk_range :: "CalendarDate \<Rightarrow> CalendarDate \<Rightarrow> Range" where
  "mk_range from to = \<lparr>rg_From = from, rg_To = to\<rparr>"

type_synonym DateSeries = "CalendarDate list"

text \<open>The Go values that \<open>encode\<close> is called with, and their \<open>json.Marshal\<close>.\<close>

datatype payload = PRange Range | PSeries DateSeries | PUnit

fun marshal :: "payload \<Rightarrow> json" where
  "marshal (PRange r) =
     JObj [(''from'', date_MarshalJSON (rg_From r)), (''to'', date_MarshalJSON (rg_To r))]"
| "marshal (PSeries ds) = JObj [(''dates'', JArr (map date_MarshalJSON ds))]"
| "marshal PUnit = JObj []"

definition encode :: "(string \<Rightarrow> hash) \<Rightarrow> ParameterKind \<Rightarrow> payload \<Rightarrow> Parameters" where
  "encode sha kind value =
     \<lparr>pm_Kind = kind, pm_Version = 1, pm_JSON = Json (marshal value),
      pm_Checksum = sha (print_json (marshal value))\<rparr>"

section \<open>Decoding\<close>

text \<open>Members are matched by exact or folded name, the last one of a name wins, an unknown name
  is an error (\<open>DisallowUnknownFields\<close>), and \<open>null\<close> leaves a struct or a slice as it was.\<close>

fun range_member :: "(string \<times> json) \<Rightarrow> Range result \<Rightarrow> Range result" where
  "range_member (name, v) (Inl x) = Inl x"
| "range_member (name, v) (Inr r) =
     (if match_name ''from'' name then
        (case date_UnmarshalJSON v of Inl x \<Rightarrow> Inl x | Inr d \<Rightarrow> Inr (r\<lparr>rg_From := d\<rparr>))
      else if match_name ''to'' name then
        (case date_UnmarshalJSON v of Inl x \<Rightarrow> Inl x | Inr d \<Rightarrow> Inr (r\<lparr>rg_To := d\<rparr>))
      else Inl (ErrMsg ''json: unknown field''))"

definition unmarshal_range :: "json \<Rightarrow> Range result" where
  "unmarshal_range j =
     (case j of
        JNull \<Rightarrow> Inr (mk_range zero_date zero_date)
      | JObj ms \<Rightarrow> fold range_member ms (Inr (mk_range zero_date zero_date))
      | _ \<Rightarrow> Inl (ErrMsg ''json: cannot unmarshal''))"

fun unmarshal_dates :: "json list \<Rightarrow> CalendarDate list result" where
  "unmarshal_dates [] = Inr []"
| "unmarshal_dates (v # vs) =
     (case date_UnmarshalJSON v of
        Inl x \<Rightarrow> Inl x
      | Inr d \<Rightarrow> (case unmarshal_dates vs of Inl x \<Rightarrow> Inl x | Inr ds \<Rightarrow> Inr (d # ds)))"

fun series_member :: "(string \<times> json) \<Rightarrow> DateSeries result \<Rightarrow> DateSeries result" where
  "series_member (name, v) (Inl x) = Inl x"
| "series_member (name, v) (Inr ds) =
     (if match_name ''dates'' name then
        (case v of
           JNull \<Rightarrow> Inr []
         | JArr vs \<Rightarrow> unmarshal_dates vs
         | _ \<Rightarrow> Inl (ErrMsg ''json: cannot unmarshal''))
      else Inl (ErrMsg ''json: unknown field''))"

definition unmarshal_series :: "json \<Rightarrow> DateSeries result" where
  "unmarshal_series j =
     (case j of
        JNull \<Rightarrow> Inr []
      | JObj ms \<Rightarrow> fold series_member ms (Inr [])
      | _ \<Rightarrow> Inl (ErrMsg ''json: cannot unmarshal''))"

definition unmarshal_unit :: "json \<Rightarrow> unit result" where
  "unmarshal_unit j =
     (case j of
        JNull \<Rightarrow> Inr ()
      | JObj [] \<Rightarrow> Inr ()
      | JObj _ \<Rightarrow> Inl (ErrMsg ''json: unknown field'')
      | _ \<Rightarrow> Inl (ErrMsg ''json: cannot unmarshal''))"

definition decodeCanonical ::
    "raw_json \<Rightarrow> (json \<Rightarrow> 'a result) \<Rightarrow> ('a \<Rightarrow> unit result) \<Rightarrow> 'a result" where
  "decodeCanonical data unmarshal validate =
     (case data of
        RawEmpty \<Rightarrow> Inl (ErrMsg ''decode canonical parameters'')
      | NotJson \<Rightarrow> Inl (ErrMsg ''decode canonical parameters'')
      | JsonTrailing j \<Rightarrow>
          (case unmarshal j of
             Inl _ \<Rightarrow> Inl (ErrMsg ''decode canonical parameters'')
           | Inr _ \<Rightarrow> Inl (ErrMsg ''decode canonical parameters: trailing JSON value''))
      | Json j \<Rightarrow>
          (case unmarshal j of
             Inl _ \<Rightarrow> Inl (ErrMsg ''decode canonical parameters'')
           | Inr v \<Rightarrow> (case validate v of Inl x \<Rightarrow> Inl x | Inr _ \<Rightarrow> Inr v)))"

definition validateCanonical :: "(string \<Rightarrow> hash) \<Rightarrow> Parameters \<Rightarrow> (json \<Rightarrow> 'a result) \<Rightarrow>
    ('a \<Rightarrow> payload) \<Rightarrow> ('a \<Rightarrow> unit result) \<Rightarrow> unit result" where
  "validateCanonical sha p unmarshal payload_of validate =
     (case decodeCanonical (pm_JSON p) unmarshal validate of
        Inl x \<Rightarrow> Inl x
      | Inr v \<Rightarrow>
          if pm_Checksum (encode sha (pm_Kind p) (payload_of v)) \<noteq> pm_Checksum p
          then Inl (ErrMsg ''invalid canonical parameter checksum'') else Inr ())"

section \<open>Constructors\<close>

definition requireJob :: "string \<Rightarrow> DateStrategy \<Rightarrow> JobCategory option \<Rightarrow> JobDefinition result" where
  "requireJob key strategy category =
     (case NewCatalog of
        Inl x \<Rightarrow> Inl x
      | Inr catalog \<Rightarrow>
          (case Find catalog key of
             None \<Rightarrow> Inl (ErrMsg ''unknown job'')
           | Some j \<Rightarrow>
               if jd_DateStrategy j \<noteq> strategy \<or> (category \<noteq> None \<and> Some (jd_Category j) \<noteq> category)
               then Inl (ErrMsg ''job has incompatible date contract'') else Inr j))"

definition validRange :: "CalendarDate \<Rightarrow> CalendarDate \<Rightarrow> Range result" where
  "validRange from to =
     (if IsZero from \<or> IsZero to \<or> date_String from > date_String to
      then Inl (ErrMsg ''valid inclusive date range is required'') else Inr (mk_range from to))"

partial_function (option) dates_loop ::
    "CalendarDate \<Rightarrow> CalendarDate \<Rightarrow> CalendarDate list \<Rightarrow> CalendarDate list option" where
  "dates_loop date to dates =
     (if date_String date \<le> date_String to then dates_loop (AddDays date 1) to (dates @ [date])
      else Some dates)"

definition inclusiveDates :: "CalendarDate \<Rightarrow> CalendarDate \<Rightarrow> CalendarDate list result" where
  "inclusiveDates from to =
     (case validRange from to of
        Inl x \<Rightarrow> Inl x
      | Inr _ \<Rightarrow> (case dates_loop from to [] of None \<Rightarrow> Inl ErrDiverge | Some ds \<Rightarrow> Inr ds))"

fun contiguous_from :: "CalendarDate \<Rightarrow> CalendarDate list \<Rightarrow> bool" where
  "contiguous_from previous [] = True"
| "contiguous_from previous (d # ds) =
     (\<not> IsZero d \<and> d = AddDays previous 1 \<and> contiguous_from d ds)"

definition validateDateSeries :: "CalendarDate list \<Rightarrow> unit result" where
  "validateDateSeries dates =
     (case dates of
        [] \<Rightarrow> Inl (ErrMsg ''date series is empty'')
      | d # ds \<Rightarrow>
          if \<not> IsZero d \<and> contiguous_from d ds then Inr ()
          else Inl (ErrMsg ''date series must be ascending and contiguous''))"

definition NewRangeExecution ::
    "(string \<Rightarrow> hash) \<Rightarrow> string \<Rightarrow> CalendarDate \<Rightarrow> CalendarDate \<Rightarrow> Parameters result" where
  "NewRangeExecution sha jobKey from to =
     (case requireJob jobKey RangeCapable (Some CategoryFixed) of
        Inl x \<Rightarrow> Inl x
      | Inr _ \<Rightarrow>
          (case validRange from to of
             Inl x \<Rightarrow> Inl x
           | Inr value \<Rightarrow> Inr (encode sha FixedRangeV1 (PRange value))))"

definition NewDateSeriesExecution ::
    "(string \<Rightarrow> hash) \<Rightarrow> string \<Rightarrow> CalendarDate \<Rightarrow> CalendarDate \<Rightarrow> Parameters result" where
  "NewDateSeriesExecution sha jobKey from to =
     (case requireJob jobKey SingleDate (Some CategoryFixed) of
        Inl x \<Rightarrow> Inl x
      | Inr _ \<Rightarrow>
          (case inclusiveDates from to of
             Inl x \<Rightarrow> Inl x
           | Inr dates \<Rightarrow> Inr (encode sha FixedDateSeriesV1 (PSeries dates))))"

definition NewMaintenanceSeriesExecution ::
    "(string \<Rightarrow> hash) \<Rightarrow> string \<Rightarrow> CalendarDate \<Rightarrow> CalendarDate \<Rightarrow> Parameters result" where
  "NewMaintenanceSeriesExecution sha jobKey from to =
     (case requireJob jobKey SingleDate None of
        Inl x \<Rightarrow> Inl x
      | Inr j \<Rightarrow>
          if jd_Category j \<noteq> CategoryEOD \<and> jd_Category j \<noteq> CategoryCBR
          then Inl (ErrMsg ''job is not maintenance'')
          else (case inclusiveDates from to of
             Inl x \<Rightarrow> Inl x
           | Inr dates \<Rightarrow> Inr (encode sha MaintenanceDateSeriesV2 (PSeries dates))))"

definition NewLiveSnapshotExecution :: "(string \<Rightarrow> hash) \<Rightarrow> string \<Rightarrow> Parameters result" where
  "NewLiveSnapshotExecution sha jobKey =
     (case requireJob jobKey NoDate None of
        Inl x \<Rightarrow> Inl x
      | Inr _ \<Rightarrow> Inr (encode sha LiveSnapshotV1 PUnit))"

definition NewRunAllRange ::
    "(string \<Rightarrow> hash) \<Rightarrow> CalendarDate \<Rightarrow> CalendarDate \<Rightarrow> Parameters result" where
  "NewRunAllRange sha from to =
     (case validRange from to of
        Inl x \<Rightarrow> Inl x
      | Inr value \<Rightarrow> Inr (encode sha RunAllRangeV1 (PRange value)))"

definition parametersForJob ::
    "(string \<Rightarrow> hash) \<Rightarrow> JobDefinition \<Rightarrow> CalendarDate \<Rightarrow> CalendarDate \<Rightarrow> Parameters result" where
  "parametersForJob sha j from to =
     (case jd_DateStrategy j of
        RangeCapable \<Rightarrow> NewRangeExecution sha (jd_Key j) from to
      | SingleDate \<Rightarrow>
          if jd_Category j = CategoryFixed then NewDateSeriesExecution sha (jd_Key j) from to
          else NewMaintenanceSeriesExecution sha (jd_Key j) from to
      | NoDate \<Rightarrow> NewLiveSnapshotExecution sha (jd_Key j)
      | OtherStrategy _ \<Rightarrow> Inl (ErrMsg ''job has no date strategy''))"

section \<open>Validation and decoding of an envelope\<close>

definition range_ok :: "Range \<Rightarrow> unit result" where
  "range_ok r = (case validRange (rg_From r) (rg_To r) of Inl x \<Rightarrow> Inl x | Inr _ \<Rightarrow> Inr ())"

definition Validate :: "(string \<Rightarrow> hash) \<Rightarrow> Parameters \<Rightarrow> JobDefinition \<Rightarrow> unit result" where
  "Validate sha p j =
     (if pm_Version p \<noteq> 1 \<or> pm_JSON p = RawEmpty \<or> \<not> json_Valid (pm_JSON p)
      then Inl (ErrMsg ''invalid canonical parameter envelope'')
      else (case pm_Kind p of
         FixedRangeV1 \<Rightarrow>
           if jd_Category j \<noteq> CategoryFixed \<or> jd_DateStrategy j \<noteq> RangeCapable
           then Inl (ErrMsg ''job does not accept range parameters'')
           else validateCanonical sha p unmarshal_range PRange range_ok
       | FixedDateSeriesV1 \<Rightarrow>
           if jd_Category j \<noteq> CategoryFixed \<or> jd_DateStrategy j \<noteq> SingleDate
           then Inl (ErrMsg ''job does not accept date-series parameters'')
           else validateCanonical sha p unmarshal_series PSeries validateDateSeries
       | MaintenanceDateSeriesV2 \<Rightarrow>
           if jd_Category j \<noteq> CategoryEOD \<and> jd_Category j \<noteq> CategoryCBR
           then Inl (ErrMsg ''job does not accept maintenance parameters'')
           else validateCanonical sha p unmarshal_series PSeries validateDateSeries
       | LiveSnapshotV1 \<Rightarrow>
           if jd_DateStrategy j \<noteq> NoDate
           then Inl (ErrMsg ''job does not accept live-snapshot parameters'')
           else validateCanonical sha p unmarshal_unit (\<lambda>_. PUnit) (\<lambda>_. Inr ())
       | DetailLiveSnapshotV1 \<Rightarrow>
           if jd_DateStrategy j \<noteq> NoDate
           then Inl (ErrMsg ''job does not accept live-snapshot parameters'')
           else validateCanonical sha p unmarshal_unit (\<lambda>_. PUnit) (\<lambda>_. Inr ())
       | _ \<Rightarrow> Inl (ErrMsg ''unsupported parameter kind'')))"

definition DecodeRange :: "Parameters \<Rightarrow> Range result" where
  "DecodeRange p =
     (if pm_Kind p \<noteq> FixedRangeV1 \<and> pm_Kind p \<noteq> RunAllRangeV1
      then Inl (ErrMsg ''parameters are not a range'')
      else decodeCanonical (pm_JSON p) unmarshal_range range_ok)"

definition DecodeDateSeries :: "Parameters \<Rightarrow> DateSeries result" where
  "DecodeDateSeries p =
     (if pm_Kind p \<noteq> FixedDateSeriesV1 then Inl (ErrMsg ''parameters are not a date series'')
      else decodeCanonical (pm_JSON p) unmarshal_series validateDateSeries)"

definition DecodeMaintenanceSeries :: "Parameters \<Rightarrow> DateSeries result" where
  "DecodeMaintenanceSeries p =
     (if pm_Kind p \<noteq> MaintenanceDateSeriesV2
      then Inl (ErrMsg ''parameters are not a maintenance date series'')
      else decodeCanonical (pm_JSON p) unmarshal_series validateDateSeries)"

section \<open>Lemmas\<close>

lemma year_mono:
  assumes "valid_date a" "valid_date b" "date_day a \<le> date_day b"
  shows "cd_year a \<le> cd_year b"
  using assms earlier_iff [of b a] by (auto simp: earlier_def)

lemma printable_between:
  assumes "printable_date a" "printable_date b" "valid_date c" "date_day a \<le> date_day c"
    "date_day c \<le> date_day b"
  shows "printable_date c"
  using assms year_mono [of a c] year_mono [of c b] by (auto simp: printable_date_def)

lemma printable_nonzero: "printable_date c \<Longrightarrow> \<not> IsZero c"
  by (simp add: printable_date_def IsZero_def)

lemma printable_valid: "printable_date c \<Longrightarrow> valid_date c"
  by (simp add: printable_date_def)

lemma date_text_le:
  assumes "printable_date a" "printable_date b"
  shows "date_String a \<le> date_String b \<longleftrightarrow> date_day a \<le> date_day b"
  using date_String_less_iff [OF assms(2,1)] by (auto simp: not_less [symmetric])

lemma dates_loop_exact:
  assumes "printable_date to" "printable_date (AddDays to 1)"
  shows "printable_date d \<Longrightarrow> date_day d \<le> date_day to + 1 \<Longrightarrow>
    dates_loop d to acc = Some (acc @ map civil_of [date_day d .. date_day to])"
proof (induction "nat (date_day to + 1 - date_day d)" arbitrary: d acc)
  case 0
  then have "date_day to < date_day d" by simp
  then show ?case
    using 0 assms by (subst dates_loop.simps) (simp add: date_text_le)
next
  case (Suc n)
  let ?d = "AddDays d 1"
  have le: "date_day d \<le> date_day to" using Suc(2) by simp
  have day: "date_day ?d = date_day d + 1"
    using Suc.prems by (simp add: date_day_AddDays printable_nonzero)
  have "printable_date ?d"
    by (rule printable_between [of d "AddDays to 1"])
      (use Suc.prems assms le in \<open>simp_all add: valid_AddDays printable_valid day date_day_AddDays printable_nonzero\<close>)
  then have "dates_loop ?d to (acc @ [d]) = Some ((acc @ [d]) @ map civil_of [date_day ?d .. date_day to])"
    using Suc(1) [of ?d "acc @ [d]"] Suc(2) le by (simp add: day)
  moreover have "d = civil_of (date_day d)"
    using Suc.prems by (simp add: civil_of_date_day printable_valid)
  ultimately show ?case
    using Suc.prems assms le
    by (subst dates_loop.simps) (simp add: date_text_le day upto_rec1 [of "date_day d"])
qed

lemma inclusiveDates_exact:
  assumes "printable_date from" "printable_date to" "printable_date (AddDays to 1)"
    "date_day from \<le> date_day to"
  shows "inclusiveDates from to = Inr (map civil_of [date_day from .. date_day to])"
  using assms dates_loop_exact [OF assms(2,3,1), of "[]"]
  by (simp add: inclusiveDates_def validRange_def printable_nonzero date_text_le not_less)

lemma map_civil_printable:
  assumes "printable_date from" "printable_date to" "date_day from \<le> n" "n \<le> date_day to"
  shows "printable_date (civil_of n)"
  by (rule printable_between [OF assms(1,2) civil_of_valid]) (use assms in \<open>simp_all add: date_day_civil_of\<close>)

lemma contiguous_civil:
  assumes "\<And>n. a \<le> n \<Longrightarrow> n \<le> b \<Longrightarrow> \<not> IsZero (civil_of n)" and "a \<le> b + 1"
    and "\<not> IsZero (civil_of (a - 1))"
  shows "contiguous_from (civil_of (a - 1)) (map civil_of [a .. b])"
  using assms
proof (induction "nat (b + 1 - a)" arbitrary: a)
  case 0
  then show ?case by simp
next
  case (Suc n)
  have "contiguous_from (civil_of (a + 1 - 1)) (map civil_of [a + 1 .. b])"
    by (rule Suc(1)) (use Suc in auto)
  moreover have "AddDays (civil_of (a - 1)) 1 = civil_of a"
    using Suc.prems by (simp add: AddDays_civil date_day_civil_of)
  ultimately show ?case using Suc(2) Suc.prems(1) [of a] by (simp add: upto_rec1 [of a])
qed

lemma validateDateSeries_civil:
  assumes "printable_date from" "printable_date to" "date_day from \<le> date_day to"
  shows "validateDateSeries (map civil_of [date_day from .. date_day to]) = Inr ()"
proof -
  have nz: "\<not> IsZero (civil_of n)" if "date_day from \<le> n" "n \<le> date_day to" for n
    using map_civil_printable [OF assms(1,2) that] by (rule printable_nonzero)
  have "contiguous_from (civil_of (date_day from)) (map civil_of [date_day from + 1 .. date_day to])"
    using contiguous_civil [of "date_day from + 1" "date_day to"] nz assms(3) by simp
  with nz assms(3) show ?thesis
    by (simp add: validateDateSeries_def upto_rec1 [of "date_day from"])
qed

lemma date_json_roundtrip: "printable_date d \<Longrightarrow> date_UnmarshalJSON (date_MarshalJSON d) = Inr d"
  by (simp add: date_UnmarshalJSON_def date_MarshalJSON_def printable_nonzero ParseCalendarDate_String)

lemma match_names [simp]:
  "match_name ''from'' ''from''" "match_name ''to'' ''to''" "\<not> match_name ''from'' ''to''"
  "match_name ''dates'' ''dates''"
  by code_simp+

lemma unmarshal_range_marshal:
  "printable_date (rg_From r) \<Longrightarrow> printable_date (rg_To r) \<Longrightarrow> unmarshal_range (marshal (PRange r)) = Inr r"
  by (simp add: unmarshal_range_def date_json_roundtrip mk_range_def)

lemma unmarshal_dates_marshal:
  "list_all printable_date ds \<Longrightarrow> unmarshal_dates (map date_MarshalJSON ds) = Inr ds"
  by (induction ds) (simp_all add: date_json_roundtrip)

lemma unmarshal_series_marshal:
  "list_all printable_date ds \<Longrightarrow> unmarshal_series (marshal (PSeries ds)) = Inr ds"
  by (simp add: unmarshal_series_def unmarshal_dates_marshal)

lemma encode_fields [simp]:
  "pm_Kind (encode sha k v) = k" "pm_Version (encode sha k v) = 1"
  "pm_JSON (encode sha k v) = Json (marshal v)" "json_Valid (Json x)"
  "pm_Checksum (encode sha k v) = sha (print_json (marshal v))"
  by (simp_all add: encode_def json_Valid_def)

lemma validate_encoded:
  "unm (marshal (pay v)) = Inr v \<Longrightarrow> valid v = Inr () \<Longrightarrow>
   validateCanonical sha (encode sha k (pay v)) unm pay valid = Inr ()"
  by (simp add: validateCanonical_def decodeCanonical_def)

lemma requireJob_catalog:
  "j \<in> set catalog_jobs \<Longrightarrow> category = None \<or> category = Some (jd_Category j) \<Longrightarrow>
   requireJob (jd_Key j) (jd_DateStrategy j) category = Inr j"
  using Find_canonical_iff [of "jd_Key j" j] by (auto simp: requireJob_def NewCatalog_eq)

lemma catalog_contracts:
  "j \<in> set catalog_jobs \<Longrightarrow>
   (jd_DateStrategy j = RangeCapable \<and> jd_Category j = CategoryFixed) \<or>
   (jd_DateStrategy j = SingleDate \<and> jd_Category j \<in> {CategoryFixed, CategoryEOD, CategoryCBR}) \<or>
   (jd_DateStrategy j = NoDate \<and> jd_Category j \<in> {CategoryDetail, CategoryMaster})"
proof -
  have "list_all (\<lambda>j. (jd_DateStrategy j = RangeCapable \<and> jd_Category j = CategoryFixed) \<or>
   (jd_DateStrategy j = SingleDate \<and> jd_Category j \<in> {CategoryFixed, CategoryEOD, CategoryCBR}) \<or>
   (jd_DateStrategy j = NoDate \<and> jd_Category j \<in> {CategoryDetail, CategoryMaster})) catalog_jobs"
    by code_simp
  then show "j \<in> set catalog_jobs \<Longrightarrow> ?thesis" by (auto simp: list_all_iff)
qed

lemma dates_loop_keeps:
  assumes "dates_loop d to acc = Some ds"
  shows "set acc \<subseteq> set ds"
proof (rule dates_loop.raw_induct [where P = "\<lambda>d to acc ds. set acc \<subseteq> set ds", OF _ assms])
  fix loop date to' dates ds'
  assume IH: "\<And>d t a y. loop d t a = Some y \<Longrightarrow> set a \<subseteq> set y"
    and run: "(if date_String date \<le> date_String to' then loop (AddDays date 1) to' (dates @ [date])
      else Some dates) = Some (ds' :: CalendarDate list)"
  show "set dates \<subseteq> set ds'"
  proof (cases "date_String date \<le> date_String to'")
    case True
    with run IH [of "AddDays date 1" to' "dates @ [date]" ds'] show ?thesis by simp
  qed (use run in simp)
qed

lemma validateCanonical_Inr:
  "validateCanonical sha p unm pay valid = Inr () \<Longrightarrow>
   \<exists>v. decodeCanonical (pm_JSON p) unm valid = Inr v \<and> valid v = Inr () \<and>
     pm_Checksum p = sha (print_json (marshal (pay v)))"
  by (auto simp: validateCanonical_def decodeCanonical_def split: sum.splits if_splits raw_json.splits)

section \<open>Properties\<close>

text \<open>
  C27. For a range of the years 1 to 9999 that ends before 9999-12-31, \<open>inclusiveDates\<close> returns
  every date of the range exactly once, in order, and nothing else.
\<close>

theorem inclusiveDates_every_day:
  assumes "printable_date from" and "printable_date to" and "printable_date (AddDays to 1)"
    and "date_day from \<le> date_day to"
  shows "\<exists>ds. inclusiveDates from to = Inr ds \<and> list_all printable_date ds \<and>
    map date_day ds = [date_day from .. date_day to]"
  using inclusiveDates_exact [OF assms] map_civil_printable [OF assms(1,2)]
  by (simp add: list_all_iff o_def date_day_civil_of)

theorem inclusiveDates_every_day_witness:
  "\<exists>ds. inclusiveDates (mk_date 2024 2 28) (mk_date 2024 3 1) = Inr ds \<and> length ds = 3"
proof -
  have p: "printable_date (mk_date 2024 2 28)" "printable_date (mk_date 2024 3 1)"
      "printable_date (AddDays (mk_date 2024 3 1) 1)"
      "date_day (mk_date 2024 2 28) \<le> date_day (mk_date 2024 3 1)"
    by code_simp+
  obtain ds where ds: "inclusiveDates (mk_date 2024 2 28) (mk_date 2024 3 1) = Inr ds"
      and "map date_day ds = [date_day (mk_date 2024 2 28) .. date_day (mk_date 2024 3 1)]"
    using inclusiveDates_every_day [OF p] by blast
  moreover have "length [date_day (mk_date 2024 2 28) .. date_day (mk_date 2024 3 1)] = 3" by code_simp
  ultimately have "length ds = 3" by (metis length_map)
  with ds show ?thesis by blast
qed


text \<open>
  C25. Every job of the catalog can be given parameters for every range of dates, and the
  parameters are accepted when they are validated for that job and decode to exactly that range
  or that series of days. So the children of a Run All are never rejected for their parameters.
\<close>

theorem parametersForJob_accepted:
  assumes "j \<in> set catalog_jobs" and "printable_date from" and "printable_date to"
    and "printable_date (AddDays to 1)" and "date_day from \<le> date_day to"
  shows "\<exists>p. parametersForJob sha j from to = Inr p \<and> Validate sha p j = Inr () \<and>
    (case pm_Kind p of
       FixedRangeV1 \<Rightarrow> DecodeRange p = Inr (mk_range from to)
     | FixedDateSeriesV1 \<Rightarrow> \<exists>ds. DecodeDateSeries p = Inr ds \<and> map date_day ds = [date_day from .. date_day to]
     | MaintenanceDateSeriesV2 \<Rightarrow>
         \<exists>ds. DecodeMaintenanceSeries p = Inr ds \<and> map date_day ds = [date_day from .. date_day to]
     | LiveSnapshotV1 \<Rightarrow> jd_DateStrategy j = NoDate
     | _ \<Rightarrow> False)"
proof -
  let ?ds = "map civil_of [date_day from .. date_day to]"
  let ?r = "mk_range from to"
  have incl: "inclusiveDates from to = Inr ?ds" by (rule inclusiveDates_exact [OF assms(2-5)])
  have range: "validRange from to = Inr ?r"
    using assms by (simp add: validRange_def printable_nonzero date_text_le not_less)
  have unm: "unmarshal_series (marshal (PSeries ?ds)) = Inr ?ds"
    using map_civil_printable [OF assms(2,3)] by (intro unmarshal_series_marshal) (simp add: list_all_iff)
  have unr: "unmarshal_range (marshal (PRange ?r)) = Inr ?r"
    by (rule unmarshal_range_marshal) (use assms in \<open>simp_all add: mk_range_def\<close>)
  have ser: "validateDateSeries ?ds = Inr ()" by (rule validateDateSeries_civil [OF assms(2,3,5)])
  have rok: "range_ok ?r = Inr ()" using range by (simp add: range_ok_def mk_range_def)
  have days: "map date_day ?ds = [date_day from .. date_day to]" by (simp add: o_def date_day_civil_of)
  note defs = parametersForJob_def Validate_def decodeCanonical_def incl range days
  from catalog_contracts [OF assms(1)]
  consider (range) "jd_DateStrategy j = RangeCapable" "jd_Category j = CategoryFixed"
    | (fixed) "jd_DateStrategy j = SingleDate" "jd_Category j = CategoryFixed"
    | (maint) "jd_DateStrategy j = SingleDate" "jd_Category j = CategoryEOD \<or> jd_Category j = CategoryCBR"
    | (live) "jd_DateStrategy j = NoDate" by auto
  then show ?thesis
  proof cases
    case range
    then show ?thesis
      using requireJob_catalog [OF assms(1), of "Some CategoryFixed"] validate_encoded [of unmarshal_range PRange ?r range_ok, OF unr rok]
      by (simp add: defs NewRangeExecution_def DecodeRange_def unr rok del: marshal.simps)
  next
    case fixed
    then show ?thesis
      using requireJob_catalog [OF assms(1), of "Some CategoryFixed"]
        validate_encoded [of unmarshal_series PSeries ?ds validateDateSeries, OF unm ser]
      by (simp add: defs NewDateSeriesExecution_def DecodeDateSeries_def unm ser del: marshal.simps map_map)
  next
    case maint
    then show ?thesis
      using requireJob_catalog [OF assms(1), of None]
        validate_encoded [of unmarshal_series PSeries ?ds validateDateSeries, OF unm ser]
      by (auto simp: defs NewMaintenanceSeriesExecution_def DecodeMaintenanceSeries_def unm ser
        simp del: marshal.simps map_map)
  next
    case live
    then show ?thesis
      using requireJob_catalog [OF assms(1), of None]
      by (simp add: defs NewLiveSnapshotExecution_def validateCanonical_def unmarshal_unit_def)
  qed
qed

theorem parametersForJob_accepted_witness:
  "\<exists>p. parametersForJob (\<lambda>s. s) (fixed_job (FixedDefinitions ! 0)) (mk_date 2024 2 28) (mk_date 2024 3 1) = Inr p \<and>
     Validate (\<lambda>s. s) p (fixed_job (FixedDefinitions ! 0)) = Inr ()"
proof -
  have p: "printable_date (mk_date 2024 2 28)" "printable_date (mk_date 2024 3 1)"
      "printable_date (AddDays (mk_date 2024 3 1) 1)"
      "date_day (mk_date 2024 2 28) \<le> date_day (mk_date 2024 3 1)"
    by code_simp+
  have j: "fixed_job (FixedDefinitions ! 0) \<in> set catalog_jobs"
    by (simp add: catalog_jobs_def FixedDefinitions_def)
  show ?thesis using parametersForJob_accepted [OF j p, of "\<lambda>s. s"] by blast
qed



end
