(* ===== verification/Store_Op.thy ===== *)
theory Store_Op
  imports Dwh_Prelude
begin

text \<open>
  Database operations. An operation is a function of an environment: the database it works on
  and the behaviour of the server from now on, one tick per statement. At tick \<open>n\<close> the server
  clock shows \<open>clock n\<close>, the statement fails with \<open>fault n\<close> if that is not \<open>None\<close>, and \<open>locked n\<close>
  are the rows other transactions hold, which \<open>SKIP LOCKED\<close> passes over. The functions are
  arbitrary, so every theorem holds for every pattern of failures, lost connections, cancelled
  contexts and lock conflicts (MySQL 1205 and 1213). Failures that depend on data the model does
  not keep (a foreign key to a user, a value too long for its column) are among the faults.

  \<open>tx_attempt\<close> is the pattern \<open>BeginTxx; defer Rollback; work; Commit\<close>: the database is the one
  the work leaves if everything including the commit succeeds, and the one found at the start
  otherwise. The row locks of the work (\<open>FOR UPDATE\<close>) serialise conflicting transactions, so a
  transaction is one step of the model. \<open>retry_from\<close> is the loop of
  \<^verbatim>\<open>src/internal/database/retry.go\<close>, which the three exported functions share.

  \<open>op_iff\<close> collects the equivalences that read an operation's successful outcome backwards;
  the locale \<open>step_relation\<close> carries a reflexive and transitive relation on databases through
  every combinator, so a component proves it for its statements only.
\<close>

named_theorems op_iff \<open>inversion of operation outcomes\<close>

section \<open>Operations\<close>

record 'd env =
  db :: 'd
  tick :: nat
  clock :: "nat \<Rightarrow> time"
  fault :: "nat \<Rightarrow> err option"
  locked :: "nat \<Rightarrow> rowid \<Rightarrow> bool"

type_synonym ('d, 'a) op = "'d env \<Rightarrow> 'a result \<times> 'd env"

definition ret_op :: "'a \<Rightarrow> ('d, 'a) op" where
  "ret_op a e = (Inr a, e)"

definition fail_op :: "err \<Rightarrow> ('d, 'a) op" where
  "fail_op x e = (Inl x, e)"

definition bind_op :: "('d, 'a) op \<Rightarrow> ('a \<Rightarrow> ('d, 'b) op) \<Rightarrow> ('d, 'b) op" where
  "bind_op m k e = (case m e of (Inl x, e') \<Rightarrow> (Inl x, e') | (Inr a, e') \<Rightarrow> k a e')"

text \<open>\<open>lift_op\<close> is a pure step that may return an error; \<open>try_op\<close> hands the error of a step to
  the code after it, as \<open>err\<close> of a multi-value return.\<close>

definition lift_op :: "'a result \<Rightarrow> ('d, 'a) op" where
  "lift_op r = (case r of Inl x \<Rightarrow> fail_op x | Inr a \<Rightarrow> ret_op a)"

definition try_op :: "('d, 'a) op \<Rightarrow> ('d, 'a result) op" where
  "try_op m e = (case m e of (r, e') \<Rightarrow> (Inr r, e'))"

text \<open>One SQL statement: it reads the server clock and may change the database. A failure is never
  \<open>sql.ErrNoRows\<close>, which the driver returns for an empty result only.\<close>

definition failure :: "err \<Rightarrow> err" where
  "failure x = (if x = ErrNoRows then ErrIO else x)"

definition stmt :: "(time \<Rightarrow> 'd \<Rightarrow> ('a \<times> 'd) result) \<Rightarrow> ('d, 'a) op" where
  "stmt f e =
     (let n = tick e; e' = e\<lparr>tick := Suc n\<rparr>
      in case fault e n of
           Some x \<Rightarrow> (Inl (failure x), e')
         | None \<Rightarrow>
             (case f (clock e n) (db e) of
                Inl x \<Rightarrow> (Inl x, e')
              | Inr (a, d) \<Rightarrow> (Inr a, e'\<lparr>db := d\<rparr>)))"

definition query :: "(time \<Rightarrow> 'd \<Rightarrow> 'a result) \<Rightarrow> ('d, 'a) op" where
  "query f = stmt (\<lambda>t d. case f t d of Inl x \<Rightarrow> Inl x | Inr a \<Rightarrow> Inr (a, d))"

text \<open>A query with \<open>SKIP LOCKED\<close>.\<close>

definition query_skip :: "((rowid \<Rightarrow> bool) \<Rightarrow> time \<Rightarrow> 'd \<Rightarrow> 'a result) \<Rightarrow> ('d, 'a) op" where
  "query_skip f e = query (f (locked e (tick e))) e"

text \<open>\<open>SELECT UTC_TIMESTAMP(6)\<close>, and a poll of \<open>ctx.Err()\<close>.\<close>

definition db_now :: "('d, time) op" where
  "db_now = query (\<lambda>t d. Inr t)"

text \<open>\<open>time.Now()\<close> of the process: it reads a clock, cannot fail and is no statement.\<close>

definition go_now :: "('d, time) op" where
  "go_now e = (Inr (clock e (tick e)), e)"

definition ctx_err :: "('d, err option) op" where
  "ctx_err e =
     (let n = tick e
      in (Inr (if fault e n = Some ErrCtx then Some ErrCtx else None), e\<lparr>tick := Suc n\<rparr>))"

fun for_each :: "'x list \<Rightarrow> ('x \<Rightarrow> ('d, unit) op) \<Rightarrow> ('d, unit) op" where
  "for_each [] f = ret_op ()"
| "for_each (x # xs) f = bind_op (f x) (\<lambda>_. for_each xs f)"

section \<open>Transactions and replay\<close>

definition begin_tx :: "('d, unit) op" where
  "begin_tx = query (\<lambda>t d. Inr ())"

definition commit_tx :: "('d, unit) op" where
  "commit_tx = query (\<lambda>t d. Inr ())"

definition tx_attempt :: "('d, 'a) op \<Rightarrow> ('d, 'a) op" where
  "tx_attempt work e =
     (case begin_tx e of
        (Inl x, e1) \<Rightarrow> (Inl x, e1)
      | (Inr _, e1) \<Rightarrow>
          (case work e1 of
             (Inl x, e2) \<Rightarrow> (Inl x, e2\<lparr>db := db e\<rparr>)
           | (Inr a, e2) \<Rightarrow>
               (case commit_tx e2 of
                  (Inl x, e3) \<Rightarrow> (Inl x, e3\<lparr>db := db e\<rparr>)
                | (Inr _, e3) \<Rightarrow> (Inr a, e3))))"

text \<open>A transaction whose body may return a value without committing: the deferred rollback then
  undoes it.\<close>

datatype 'a tx_end = Rollback 'a | Commit 'a

definition tx_body :: "('d, 'a tx_end) op \<Rightarrow> ('d, 'a) op" where
  "tx_body work e =
     (case begin_tx e of
        (Inl x, e1) \<Rightarrow> (Inl x, e1)
      | (Inr _, e1) \<Rightarrow>
          (case work e1 of
             (Inl x, e2) \<Rightarrow> (Inl x, e2\<lparr>db := db e\<rparr>)
           | (Inr (Rollback a), e2) \<Rightarrow> (Inr a, e2\<lparr>db := db e\<rparr>)
           | (Inr (Commit a), e2) \<Rightarrow>
               (case commit_tx e2 of
                  (Inl x, e3) \<Rightarrow> (Inl x, e3\<lparr>db := db e\<rparr>)
                | (Inr _, e3) \<Rightarrow> (Inr a, e3))))"

definition ReplaySafeMaxAttempts :: nat where
  "ReplaySafeMaxAttempts = 3"

definition IsRetryableConcurrencyError :: "err \<Rightarrow> bool" where
  "IsRetryableConcurrencyError x = (x = ErrMySQL 1205 \<or> x = ErrMySQL 1213)"

text \<open>The random wait is time passing on the server clock; what the code sees is whether the
  context ended first.\<close>

definition retryBackoff :: "nat \<Rightarrow> ('d, err option) op" where
  "retryBackoff attempt = ctx_err"

function retry_from :: "('d, 'a) op \<Rightarrow> nat \<Rightarrow> 'd env \<Rightarrow> (nat \<times> 'a result) option \<times> 'd env" where
  "retry_from once attempt e =
     (if attempt \<le> ReplaySafeMaxAttempts then
        (case ctx_err e of
           (Inr (Some x), e1) \<Rightarrow> (Some (attempt - 1, Inl x), e1)
         | (_, e1) \<Rightarrow>
             (case once e1 of
                (Inr a, e2) \<Rightarrow> (Some (attempt, Inr a), e2)
              | (Inl x, e2) \<Rightarrow>
                  if \<not> IsRetryableConcurrencyError x \<or> attempt = ReplaySafeMaxAttempts
                  then (Some (attempt, Inl x), e2)
                  else (case retryBackoff attempt e2 of
                          (Inr (Some y), e3) \<Rightarrow> (Some (attempt, Inl y), e3)
                        | (_, e3) \<Rightarrow> retry_from once (Suc attempt) e3)))
      else (None, e))"
  by pat_completeness auto
termination
  by (relation "measure (\<lambda>(once, attempt, e). Suc ReplaySafeMaxAttempts - attempt)") auto

text \<open>The exported functions return the number of attempts with the result; \<open>None\<close> is the
  \<open>panic("unreachable")\<close> after the loop.\<close>

type_synonym ('d, 'a) counted_op = "'d env \<Rightarrow> (nat \<times> 'a result) option \<times> 'd env"

definition RetryReplaySafeTx :: "('d, 'a) op \<Rightarrow> ('d, 'a) counted_op" where
  "RetryReplaySafeTx work = retry_from (tx_attempt work) 1"

definition RetryReplaySafeConnTx :: "('d, 'a) op \<Rightarrow> ('d, 'a) counted_op" where
  "RetryReplaySafeConnTx work = retry_from (tx_attempt work) 1"

definition RetryReplaySafeExec :: "('d, 'a) op \<Rightarrow> ('d, 'a) counted_op" where
  "RetryReplaySafeExec statement = retry_from statement 1"

text \<open>The callers that drop the count (\<open>_, err := database.RetryReplaySafeTx(...)\<close>).\<close>

definition retry_result :: "(nat \<times> 'a result) option \<times> 'd env \<Rightarrow> 'a result \<times> 'd env" where
  "retry_result r = (case r of (None, e) \<Rightarrow> (Inl ErrDiverge, e) | (Some (n, x), e) \<Rightarrow> (x, e))"

definition replay_tx :: "('d, 'a) op \<Rightarrow> ('d, 'a) op" where
  "replay_tx work e = retry_result (RetryReplaySafeTx work e)"

definition replay_exec :: "('d, 'a) op \<Rightarrow> ('d, 'a) op" where
  "replay_exec statement e = retry_result (RetryReplaySafeExec statement e)"

declare retry_from.simps [simp del]

section \<open>Reading outcomes backwards\<close>

lemma ret_op_iff [op_iff]: "ret_op a e = (r, e') \<longleftrightarrow> r = Inr a \<and> e' = e"
  by (auto simp: ret_op_def)

lemma fail_op_iff [op_iff]: "fail_op x e = (r, e') \<longleftrightarrow> r = Inl x \<and> e' = e"
  by (auto simp: fail_op_def)

lemma bind_op_Inr_iff [op_iff]:
  "bind_op m k e = (Inr b, e') \<longleftrightarrow> (\<exists>a e1. m e = (Inr a, e1) \<and> k a e1 = (Inr b, e'))"
  by (auto simp: bind_op_def split: prod.splits sum.splits)

lemma bind_op_Inl_iff:
  "bind_op m k e = (Inl x, e') \<longleftrightarrow>
     m e = (Inl x, e') \<or> (\<exists>a e1. m e = (Inr a, e1) \<and> k a e1 = (Inl x, e'))"
  by (auto simp: bind_op_def split: prod.splits sum.splits)

lemma lift_op_Inr_iff [op_iff]: "lift_op r e = (Inr a, e') \<longleftrightarrow> r = Inr a \<and> e' = e"
  by (auto simp: lift_op_def op_iff split: sum.splits)

lemma lift_op_Inl_iff: "lift_op r e = (Inl x, e') \<longleftrightarrow> r = Inl x \<and> e' = e"
  by (auto simp: lift_op_def op_iff split: sum.splits)

lemma try_op_iff [op_iff]: "try_op m e = (r, e') \<longleftrightarrow> (\<exists>q. r = Inr q \<and> m e = (q, e'))"
  by (auto simp: try_op_def split: prod.splits)

lemma stmt_Inr_iff [op_iff]:
  "stmt f e = (Inr a, e') \<longleftrightarrow>
     fault e (tick e) = None \<and>
     (\<exists>d. f (clock e (tick e)) (db e) = Inr (a, d) \<and> e' = e\<lparr>tick := Suc (tick e), db := d\<rparr>)"
  by (auto simp: stmt_def Let_def split: option.splits sum.splits prod.splits)

lemma query_Inr_iff [op_iff]:
  "query f e = (Inr a, e') \<longleftrightarrow>
     fault e (tick e) = None \<and> f (clock e (tick e)) (db e) = Inr a \<and>
     e' = e\<lparr>tick := Suc (tick e)\<rparr>"
  by (auto simp: query_def stmt_Inr_iff split: sum.splits)

lemma db_now_Inr_iff [op_iff]:
  "db_now e = (Inr t, e') \<longleftrightarrow>
     fault e (tick e) = None \<and> t = clock e (tick e) \<and> e' = e\<lparr>tick := Suc (tick e)\<rparr>"
  by (auto simp: db_now_def query_Inr_iff)

lemma go_now_iff [op_iff]: "go_now e = (r, e') \<longleftrightarrow> r = Inr (clock e (tick e)) \<and> e' = e"
  by (auto simp: go_now_def)

lemma stmt_Inl_db: "stmt f e = (Inl x, e') \<Longrightarrow> db e' = db e"
  by (auto simp: stmt_def Let_def split: option.splits sum.splits prod.splits)

lemma query_skip_Inr_iff [op_iff]:
  "query_skip f e = (Inr a, e') \<longleftrightarrow>
     fault e (tick e) = None \<and> f (locked e (tick e)) (clock e (tick e)) (db e) = Inr a \<and>
     e' = e\<lparr>tick := Suc (tick e)\<rparr>"
  by (auto simp: query_skip_def query_Inr_iff)

lemma query_NoRows:
  "query f e = (Inl ErrNoRows, e') \<Longrightarrow> f (clock e (tick e)) (db e) = Inl ErrNoRows \<and> e' = e\<lparr>tick := Suc (tick e)\<rparr>"
  by (auto simp: query_def stmt_def failure_def Let_def split: option.splits sum.splits prod.splits if_splits)

lemma query_db: "query f e = (r, e') \<Longrightarrow> db e' = db e"
  by (auto simp: query_def stmt_def Let_def split: option.splits sum.splits prod.splits)

lemma query_skip_db: "query_skip f e = (r, e') \<Longrightarrow> db e' = db e"
  by (auto simp: query_skip_def dest: query_db)

lemma ctx_err_db: "ctx_err e = (r, e') \<Longrightarrow> db e' = db e"
  by (auto simp: ctx_err_def Let_def)

lemma begin_tx_db: "begin_tx e = (r, e') \<Longrightarrow> db e' = db e"
  by (auto simp: begin_tx_def dest: query_db)

lemma commit_tx_db: "commit_tx e = (r, e') \<Longrightarrow> db e' = db e"
  by (auto simp: commit_tx_def dest: query_db)

text \<open>A failed transaction leaves the database as it was; a successful one is one run of its work
  on that database.\<close>

lemma tx_attempt_Inl_db: "tx_attempt work e = (Inl x, e') \<Longrightarrow> db e' = db e"
  by (auto simp: tx_attempt_def split: prod.splits sum.splits dest: begin_tx_db)

lemma tx_attempt_InrE:
  assumes "tx_attempt work e = (Inr a, e')"
  obtains e1 e2 where "db e1 = db e" "work e1 = (Inr a, e2)" "db e' = db e2"
proof -
  from assms obtain e1 e2 u v where
      b: "begin_tx e = (Inr u, e1)" and w: "work e1 = (Inr a, e2)"
    and c: "commit_tx e2 = (Inr v, e')"
    by (auto simp: tx_attempt_def split: prod.splits sum.splits)
  show thesis
    by (rule that [OF begin_tx_db [OF b] w commit_tx_db [OF c]])
qed

lemma tx_attempt_Inr_db: "tx_attempt work e = (Inr a, e') \<Longrightarrow>
   \<exists>e1 e2. db e1 = db e \<and> work e1 = (Inr a, e2) \<and> db e' = db e2"
  by (erule tx_attempt_InrE) blast

lemma tx_body_Inl_db: "tx_body work e = (Inl x, e') \<Longrightarrow> db e' = db e"
  by (auto simp: tx_body_def split: prod.splits sum.splits tx_end.splits dest: begin_tx_db)

lemma tx_body_InrE:
  assumes "tx_body work e = (Inr a, e')"
  obtains (rollback) e1 e2 where "db e1 = db e" "work e1 = (Inr (Rollback a), e2)" "db e' = db e"
  | (commit) e1 e2 where "db e1 = db e" "work e1 = (Inr (Commit a), e2)" "db e' = db e2"
proof -
  from assms obtain u e1 v e2 where b: "begin_tx e = (Inr u, e1)" and w: "work e1 = (Inr v, e2)"
    and r: "(case v of Rollback c \<Rightarrow> a = c \<and> db e' = db e
      | Commit c \<Rightarrow> a = c \<and> (\<exists>z. commit_tx e2 = (Inr z, e')))"
    by (auto simp: tx_body_def split: prod.splits sum.splits tx_end.splits)
  note d1 = begin_tx_db [OF b]
  show thesis
  proof (cases v)
    case (Rollback c)
    with r w show thesis using rollback [OF d1, of e2] by simp
  next
    case (Commit c)
    with r obtain z where z: "commit_tx e2 = (Inr z, e')" and c: "a = c" by auto
    show thesis using commit [OF d1 _ commit_tx_db [OF z]] w Commit c by simp
  qed
qed

section \<open>The retry loop\<close>

text \<open>One round of the loop, by what the context poll and the attempt return.\<close>

lemma retry_from_stopped:
  "attempt \<le> ReplaySafeMaxAttempts \<Longrightarrow> ctx_err e = (Inr (Some x), e1) \<Longrightarrow>
   retry_from once attempt e = (Some (attempt - 1, Inl x), e1)"
  by (simp add: retry_from.simps [of once attempt e])

lemma retry_from_done:
  "attempt \<le> ReplaySafeMaxAttempts \<Longrightarrow> ctx_err e = (Inr None, e1) \<Longrightarrow> once e1 = (Inr a, e2) \<Longrightarrow>
   retry_from once attempt e = (Some (attempt, Inr a), e2)"
  by (simp add: retry_from.simps [of once attempt e])

lemma retry_from_failed:
  "attempt \<le> ReplaySafeMaxAttempts \<Longrightarrow> ctx_err e = (Inr None, e1) \<Longrightarrow> once e1 = (Inl x, e2) \<Longrightarrow>
   \<not> IsRetryableConcurrencyError x \<or> attempt = ReplaySafeMaxAttempts \<Longrightarrow>
   retry_from once attempt e = (Some (attempt, Inl x), e2)"
  by (simp add: retry_from.simps [of once attempt e])

lemma retry_from_again:
  "attempt < ReplaySafeMaxAttempts \<Longrightarrow> ctx_err e = (Inr None, e1) \<Longrightarrow> once e1 = (Inl x, e2) \<Longrightarrow>
   IsRetryableConcurrencyError x \<Longrightarrow> ctx_err e2 = (Inr y, e3) \<Longrightarrow>
   retry_from once attempt e =
     (case y of Some z \<Rightarrow> (Some (attempt, Inl z), e3) | None \<Rightarrow> retry_from once (Suc attempt) e3)"
  by (simp add: retry_from.simps [of once attempt e] retryBackoff_def split: option.splits)

lemma ctx_err_Inr: "\<exists>q e1. ctx_err e = (Inr q, e1) \<and> db e1 = db e"
  by (simp add: ctx_err_def Let_def)

lemma ctx_err_Some: "ctx_err e = (Inr (Some x), e') \<Longrightarrow> x = ErrCtx"
  by (auto simp: ctx_err_def Let_def split: if_splits)

text \<open>An induction rule that follows the rounds: the loop stops at the poll, succeeds, gives up,
  is stopped while it waits, or goes round again.\<close>

lemma retry_from_cases [consumes 1, case_names stopped success failed waiting again]:
  assumes "attempt \<le> ReplaySafeMaxAttempts"
  obtains (stopped) e1 where "db e1 = db e"
      "retry_from once attempt e = (Some (attempt - 1, Inl ErrCtx), e1)"
  | (success) e1 a e2 where "db e1 = db e" "once e1 = (Inr a, e2)"
      "retry_from once attempt e = (Some (attempt, Inr a), e2)"
  | (failed) e1 x e2 where "db e1 = db e" "once e1 = (Inl x, e2)"
      "\<not> IsRetryableConcurrencyError x \<or> attempt = ReplaySafeMaxAttempts"
      "retry_from once attempt e = (Some (attempt, Inl x), e2)"
  | (waiting) e1 x e2 e3 where "db e1 = db e" "once e1 = (Inl x, e2)" "db e3 = db e2"
      "retry_from once attempt e = (Some (attempt, Inl ErrCtx), e3)"
  | (again) e1 x e2 e3 where "attempt < ReplaySafeMaxAttempts" "db e1 = db e"
      "once e1 = (Inl x, e2)" "db e3 = db e2"
      "retry_from once attempt e = retry_from once (Suc attempt) e3"
proof -
  obtain q e1 where q: "ctx_err e = (Inr q, e1)" and d1: "db e1 = db e"
    using ctx_err_Inr by blast
  obtain s e2 where s: "once e1 = (s, e2)" by fastforce
  obtain y e3 where y: "ctx_err e2 = (Inr y, e3)" and d3: "db e3 = db e2"
    using ctx_err_Inr by blast
  show thesis
  proof (cases q)
    case (Some x)
    show thesis
      using stopped [OF d1 retry_from_stopped] q Some assms ctx_err_Some [of e x e1] by simp
  next
    case q_None: None
    show thesis
    proof (cases s)
      case (Inr a)
      show thesis
        by (rule success [OF d1 _ retry_from_done]) (use q q_None s Inr assms in simp_all)
    next
      case (Inl x)
      show thesis
      proof (cases "IsRetryableConcurrencyError x \<and> attempt < ReplaySafeMaxAttempts")
        case False
        show thesis
          by (rule failed [OF d1 _ _ retry_from_failed])
            (use q q_None s Inl assms False in auto)
      next
        case True
        then have "retry_from once attempt e = (case y of Some z \<Rightarrow> (Some (attempt, Inl z), e3)
            | None \<Rightarrow> retry_from once (Suc attempt) e3)"
          using retry_from_again [of attempt e e1 once x e2 y e3] q q_None s Inl y by simp
        with d1 s Inl d3 True y show thesis
          by (cases y) (auto simp: waiting again dest: ctx_err_Some)
      qed
    qed
  qed
qed

lemma retry_from_reaches:
  "attempt \<le> ReplaySafeMaxAttempts \<Longrightarrow>
   \<exists>n r e'. retry_from once attempt e = (Some (n, r), e') \<and> n \<le> ReplaySafeMaxAttempts"
proof (induction "ReplaySafeMaxAttempts - attempt" arbitrary: attempt e)
  case 0
  from 0(2) show ?case
    by (cases rule: retry_from_cases [where e = e and once = once]) (use 0 in simp_all)
next
  case (Suc k)
  from Suc.prems show ?case
  proof (cases rule: retry_from_cases [where e = e and once = once])
    case (again e1 x e2 e3)
    from again(1) Suc(2) have "k = ReplaySafeMaxAttempts - Suc attempt" by simp
    from Suc(1) [OF this, of e3] again(1,5) show ?thesis by simp
  qed (use Suc.prems in simp_all)
qed

lemma retry_from_db:
  assumes fails: "\<And>e x e'. once e = (Inl x, e') \<Longrightarrow> db e' = db e"
    and "attempt \<le> ReplaySafeMaxAttempts" and "retry_from once attempt e = (Some (n, r), e')"
  shows "(case r of Inr a \<Rightarrow> \<exists>e1. db e1 = db e \<and> once e1 = (Inr a, e') | Inl x \<Rightarrow> db e' = db e)"
  using assms(2,3)
proof (induction "ReplaySafeMaxAttempts - attempt" arbitrary: attempt e)
  case 0
  from 0(2) show ?case
    by (cases rule: retry_from_cases [where e = e and once = once])
      (use 0 in \<open>auto dest: fails\<close>)
next
  case (Suc k)
  from Suc.prems(1) show ?case
  proof (cases rule: retry_from_cases [where e = e and once = once])
    case (again e1 x e2 e3)
    from again(1) Suc(2) have k: "k = ReplaySafeMaxAttempts - Suc attempt" by simp
    from again(2-4) have d3: "db e3 = db e" using fails by metis
    from again(5) Suc.prems(2) have "retry_from once (Suc attempt) e3 = (Some (n, r), e')" by simp
    from Suc(1) [OF k _ this] again(1) show ?thesis unfolding d3 by simp
  qed (use Suc.prems in \<open>auto dest: fails\<close>)
qed

lemma retry_from_exhausts:
  "attempt \<le> ReplaySafeMaxAttempts \<Longrightarrow> retry_from once attempt e = (Some (n, Inl x), e') \<Longrightarrow>
   IsRetryableConcurrencyError x \<Longrightarrow> n = ReplaySafeMaxAttempts"
proof (induction "ReplaySafeMaxAttempts - attempt" arbitrary: attempt e)
  case 0
  from 0(2) show ?case
    by (cases rule: retry_from_cases [where e = e and once = once])
      (use 0 in \<open>auto simp: IsRetryableConcurrencyError_def\<close>)
next
  case (Suc k)
  from Suc.prems(1) show ?case
  proof (cases rule: retry_from_cases [where e = e and once = once])
    case (again e1 y e2 e3)
    from again(1) Suc(2) have "k = ReplaySafeMaxAttempts - Suc attempt" by simp
    from Suc(1) [OF this, of e3] again(1,5) Suc.prems show ?thesis by simp
  qed (use Suc.prems in \<open>auto simp: IsRetryableConcurrencyError_def\<close>)
qed

lemma retry_result_Inr:
  "retry_result p = (Inr a, e') \<longleftrightarrow> (\<exists>n. p = (Some (n, Inr a), e'))"
  by (auto simp: retry_result_def split: prod.splits option.splits)

lemma retry_tx_db:
  assumes "retry_from (tx_attempt work) 1 e = (Some (n, r), e')"
  shows "case r of Inr a \<Rightarrow> \<exists>e1. db e1 = db e \<and> tx_attempt work e1 = (Inr a, e') | Inl x \<Rightarrow> db e' = db e"
  by (rule retry_from_db [OF tx_attempt_Inl_db _ assms]) (simp_all add: ReplaySafeMaxAttempts_def)

lemma retry_stmt_db:
  assumes "retry_from (stmt f) 1 e = (Some (n, r), e')"
  shows "case r of Inr a \<Rightarrow> \<exists>e1. db e1 = db e \<and> stmt f e1 = (Inr a, e') | Inl x \<Rightarrow> db e' = db e"
  by (rule retry_from_db [OF stmt_Inl_db _ assms]) (simp_all add: ReplaySafeMaxAttempts_def)

lemma retry_result_cases:
  obtains n r e' where "retry_from once 1 e = (Some (n, r), e')" "n \<le> ReplaySafeMaxAttempts"
    "retry_result (retry_from once 1 e) = (r, e')"
  using retry_from_reaches [of 1 once e] by (auto simp: retry_result_def ReplaySafeMaxAttempts_def)

lemma replay_tx_Inl_db: "replay_tx work e = (Inl x, e') \<Longrightarrow> db e' = db e"
  by (rule retry_result_cases [of "tx_attempt work" e])
    (auto simp: replay_tx_def RetryReplaySafeTx_def simp del: One_nat_def dest!: retry_tx_db)

lemma replay_tx_InrE:
  assumes "replay_tx work e = (Inr a, e')"
  obtains e1 e2 where "db e1 = db e" "work e1 = (Inr a, e2)" "db e' = db e2"
proof -
  from assms obtain n where "retry_from (tx_attempt work) 1 e = (Some (n, Inr a), e')"
    by (auto simp: replay_tx_def RetryReplaySafeTx_def retry_result_Inr)
  from retry_tx_db [OF this] show thesis
    using that by (auto elim!: tx_attempt_InrE)
qed

lemma replay_exec_stmt_Inl_db:
  "replay_exec (stmt f) e = (Inl x, e') \<Longrightarrow> db e' = db e"
  by (rule retry_result_cases [of "stmt f" e])
    (auto simp: replay_exec_def RetryReplaySafeExec_def simp del: One_nat_def dest!: retry_stmt_db)

lemma replay_exec_stmt_InrE:
  assumes "replay_exec (stmt f) e = (Inr a, e')"
  obtains t where "f t (db e) = Inr (a, db e')"
proof -
  from assms obtain n where "retry_from (stmt f) 1 e = (Some (n, Inr a), e')"
    by (auto simp: replay_exec_def RetryReplaySafeExec_def retry_result_Inr)
  from retry_stmt_db [OF this] show thesis
    using that by (auto simp: stmt_Inr_iff)
qed

section \<open>Properties\<close>


text \<open>
  A lock wait timeout or a deadlock (MySQL 1205, 1213) reaches the caller only after the last
  attempt: no earlier attempt gives up on one.
\<close>

theorem RetryReplaySafeTx_exhausts:
  assumes "RetryReplaySafeTx work e = (Some (n, Inl x), e')" and "IsRetryableConcurrencyError x"
  shows "n = ReplaySafeMaxAttempts"
  unfolding RetryReplaySafeTx_def
  by (rule retry_from_exhausts [OF _ _ assms(2)])
    (use assms(1) in \<open>simp_all add: RetryReplaySafeTx_def ReplaySafeMaxAttempts_def\<close>)

theorem RetryReplaySafeTx_exhausts_witness:
  "let work = fail_op (ErrMySQL 1213) :: (unit, unit) op;
       e = \<lparr>db = (), tick = 0, clock = int, fault = \<lambda>_. None, locked = \<lambda>_ _. False\<rparr>
   in fst (RetryReplaySafeTx work e) = Some (3, Inl (ErrMySQL 1213)) \<and> ReplaySafeMaxAttempts = 3"
proof -
  let ?work = "fail_op (ErrMySQL 1213) :: (unit, unit) op"
  let ?e = "\<lparr>db = (), tick = 0, clock = int, fault = \<lambda>_. None, locked = \<lambda>_ _. False\<rparr> :: unit env"
  obtain n x e' where run: "RetryReplaySafeTx ?work ?e = (Some (n, Inl x), e')"
      and x: "x = ErrMySQL 1213"
    by (simp add: RetryReplaySafeTx_def ReplaySafeMaxAttempts_def retry_from.simps ctx_err_def
      tx_attempt_def begin_tx_def query_def stmt_def fail_op_def IsRetryableConcurrencyError_def
      retryBackoff_def Let_def)
  have "n = ReplaySafeMaxAttempts"
    by (rule RetryReplaySafeTx_exhausts [OF run]) (simp add: x IsRetryableConcurrencyError_def)
  with run x show ?thesis
    by (simp add: ReplaySafeMaxAttempts_def)
qed

section \<open>Relations carried through operations\<close>

text \<open>A reflexive and transitive relation between the database before and after: a safety
  property of steps (rows that never change, identifiers that never disappear) or, as
  \<open>\<lambda>d d'. I d \<longrightarrow> I d'\<close>, an invariant.\<close>

locale step_relation =
  fixes R :: "'d \<Rightarrow> 'd \<Rightarrow> bool"
  assumes R_refl: "R d d"
    and R_trans: "R d d' \<Longrightarrow> R d' d'' \<Longrightarrow> R d d''"
begin

definition moves :: "('d, 'a) op \<Rightarrow> bool" where
  "moves m \<longleftrightarrow> (\<forall>e r e'. m e = (r, e') \<longrightarrow> R (db e) (db e'))"

lemma movesI: "(\<And>e r e'. m e = (r, e') \<Longrightarrow> R (db e) (db e')) \<Longrightarrow> moves m"
  by (auto simp: moves_def)

lemma movesD: "moves m \<Longrightarrow> m e = (r, e') \<Longrightarrow> R (db e) (db e')"
  by (auto simp: moves_def)

lemma moves_ret: "moves (ret_op a)"
  by (auto simp: moves_def op_iff R_refl)

lemma moves_fail: "moves (fail_op x)"
  by (auto simp: moves_def op_iff R_refl)

lemma moves_lift: "moves (lift_op r)"
  by (cases r) (auto simp: lift_op_def moves_ret moves_fail)

lemma moves_query: "moves (query f)"
  by (auto simp: moves_def R_refl dest: query_db)

lemma moves_now: "moves db_now"
  by (simp add: db_now_def moves_query)

lemma moves_ctx: "moves ctx_err"
  by (auto simp: moves_def R_refl dest: ctx_err_db)

lemma moves_query_skip: "moves (query_skip f)"
  by (auto simp: moves_def R_refl dest: query_skip_db)

lemma moves_go_now: "moves go_now"
  by (auto simp: moves_def op_iff R_refl)

lemma moves_try: "moves m \<Longrightarrow> moves (try_op m)"
  by (auto simp: moves_def op_iff)

lemma moves_bind:
  assumes "moves m" and "\<And>a. moves (k a)"
  shows "moves (bind_op m k)"
proof (rule movesI)
  fix e r e'
  assume "bind_op m k e = (r, e')"
  then consider x where "m e = (Inl x, e')"
    | a e1 where "m e = (Inr a, e1)" "k a e1 = (r, e')"
    by (auto simp: bind_op_def split: prod.splits sum.splits)
  then show "R (db e) (db e')"
    by cases (use assms in \<open>auto dest: movesD intro: R_trans\<close>)
qed

lemma moves_stmt:
  assumes "\<And>t d a d'. f t d = Inr (a, d') \<Longrightarrow> R d d'"
  shows "moves (stmt f)"
  by (rule movesI)
    (auto simp: stmt_def Let_def R_refl assms split: option.splits sum.splits prod.splits)

lemma moves_for_each: "(\<And>x. moves (f x)) \<Longrightarrow> moves (for_each xs f)"
  by (induction xs) (auto intro: moves_ret moves_bind)

lemma moves_tx:
  assumes "moves m"
  shows "moves (tx_attempt m)"
proof (rule movesI)
  fix e r e'
  assume run: "tx_attempt m e = (r, e')"
  show "R (db e) (db e')"
  proof (cases r)
    case (Inl x)
    with run show ?thesis by (auto dest: tx_attempt_Inl_db simp: R_refl)
  next
    case (Inr a)
    with run show ?thesis
      by (auto elim!: tx_attempt_InrE dest!: movesD [OF assms])
  qed
qed

lemma moves_tx_body:
  assumes "moves m"
  shows "moves (tx_body m)"
proof (rule movesI)
  fix e r e'
  assume run: "tx_body m e = (r, e')"
  show "R (db e) (db e')"
  proof (cases r)
    case (Inl x)
    with run show ?thesis by (auto dest: tx_body_Inl_db simp: R_refl)
  next
    case (Inr a)
    with run have "tx_body m e = (Inr a, e')" by simp
    then show ?thesis
      by (cases rule: tx_body_InrE) (auto dest!: movesD [OF assms] simp: R_refl)
  qed
qed

lemma moves_retry_tx:
  assumes "moves m"
  shows "moves (replay_tx m)"
proof (rule movesI)
  fix e r e'
  assume run: "replay_tx m e = (r, e')"
  show "R (db e) (db e')"
  proof (cases r)
    case (Inl x)
    with run show ?thesis by (auto dest: replay_tx_Inl_db simp: R_refl)
  next
    case (Inr a)
    with run show ?thesis
      by (auto elim!: replay_tx_InrE dest!: movesD [OF assms])
  qed
qed

text \<open>Inside a transaction only the successful runs count: the others are rolled back.\<close>

definition commits :: "('d, 'a) op \<Rightarrow> bool" where
  "commits m \<longleftrightarrow> (\<forall>e a e'. m e = (Inr a, e') \<longrightarrow> R (db e) (db e'))"

lemma commitsI: "(\<And>e a e'. m e = (Inr a, e') \<Longrightarrow> R (db e) (db e')) \<Longrightarrow> commits m"
  by (auto simp: commits_def)

lemma moves_commits: "moves m \<Longrightarrow> commits m"
  by (auto simp: commits_def moves_def)

lemma commits_bind:
  assumes "commits m" and "\<And>a. commits (k a)"
  shows "commits (bind_op m k)"
proof (rule commitsI)
  fix e b e'
  assume "bind_op m k e = (Inr b, e')"
  then obtain a e1 where "m e = (Inr a, e1)" "k a e1 = (Inr b, e')" by (auto simp: op_iff)
  with assms show "R (db e) (db e')"
    unfolding commits_def by (blast intro: R_trans [of _ "db e1"])
qed

lemma moves_retry_commits:
  assumes "commits m"
  shows "moves (replay_tx m)"
proof (rule movesI)
  fix e r e'
  assume run: "replay_tx m e = (r, e')"
  show "R (db e) (db e')"
  proof (cases r)
    case (Inl x)
    with run show ?thesis by (auto dest: replay_tx_Inl_db simp: R_refl)
  next
    case (Inr a)
    with run obtain e1 e2 where "db e1 = db e" "m e1 = (Inr a, e2)" "db e' = db e2"
      by (auto elim!: replay_tx_InrE)
    with assms show ?thesis unfolding commits_def by metis
  qed
qed

lemma moves_retry_stmt:
  assumes "\<And>t d a d'. f t d = Inr (a, d') \<Longrightarrow> R d d'"
  shows "moves (replay_exec (stmt f))"
proof (rule movesI)
  fix e r e'
  assume run: "replay_exec (stmt f) e = (r, e')"
  show "R (db e) (db e')"
  proof (cases r)
    case (Inl x)
    with run show ?thesis by (auto dest: replay_exec_stmt_Inl_db simp: R_refl)
  next
    case (Inr a)
    with run show ?thesis
      by (auto elim!: replay_exec_stmt_InrE dest!: assms)
  qed
qed

lemma moves_if: "(c \<Longrightarrow> moves a) \<Longrightarrow> (\<not> c \<Longrightarrow> moves b) \<Longrightarrow> moves (if c then a else b)"
  by simp

lemma moves_case_sum:
  "(\<And>x. s = Inl x \<Longrightarrow> moves (f x)) \<Longrightarrow> (\<And>y. s = Inr y \<Longrightarrow> moves (g y)) \<Longrightarrow> moves (case_sum f g s)"
  by (cases s) simp_all

lemma moves_case_option:
  "(s = None \<Longrightarrow> moves f) \<Longrightarrow> (\<And>y. s = Some y \<Longrightarrow> moves (g y)) \<Longrightarrow> moves (case_option f g s)"
  by (cases s) simp_all

lemma moves_case_prod: "(\<And>a b. p = (a, b) \<Longrightarrow> moves (f a b)) \<Longrightarrow> moves (case_prod f p)"
  by (cases p) simp_all

lemma moves_let: "(\<And>x. x = v \<Longrightarrow> moves (f x)) \<Longrightarrow> moves (Let v f)"
  by simp

lemmas moves_intros = moves_if moves_case_sum moves_case_option moves_case_prod moves_let
  moves_ret moves_fail moves_lift moves_query moves_query_skip moves_now
  moves_ctx moves_go_now moves_try moves_bind moves_for_each moves_tx moves_tx_body moves_retry_tx

end

end
