(* ===== verification/Audit_Log.thy ===== *)
theory Audit_Log
  imports Run_Parameters Store_Op
begin

text \<open>
  The audit trail: \<^verbatim>\<open>src/internal/audit/audit.go\<close>. Every administrative operation appends one event in
  its own transaction. Actions and resource types are the strings of the source. The metadata of
  an event is the JSON value it marshals to; only the size of its text matters here, and the
  strings in the metadata of the modelled callers (job keys, dates, counts) need no escapes.

  The tables of the database are an extensible record, so an operation of this theory runs on
  every database that extends \<open>audit_db\<close>.
\<close>

section \<open>Events\<close>

definition MaxMetadataBytes :: nat where "MaxMetadataBytes = 65536"

definition known_actions :: "string list" where
  "known_actions = [
    ''mfa.enrolled'', ''mfa.step_up'', ''mfa.recovery_used'', ''mfa.recovery_regenerated'',
     ''mfa.rotated'', ''mfa.admin_reset'', ''mfa.operator_reset'', ''mfa.challenge_exhausted'',
     ''mfa.verification_failed'', ''auth.login_failed'', ''auth.login'', ''auth.logout'',
     ''auth.registration'', ''impersonation.started'', ''impersonation.stopped'',
     ''user.created'', ''user.profile_updated'', ''user.role_changed'', ''user.activated'',
     ''user.deactivated'', ''user.password_reset'', ''role.created'', ''role.updated'',
     ''role.deleted'', ''role.permissions_updated'', ''admin.bootstrap'',
     ''ingestion.run_submitted'', ''ingestion.run_all_submitted'',
     ''ingestion.cancellation_requested'', ''ingestion.abandoned_recovered'',
     ''ingestion.runtime_settings_updated'', ''source.state_changed'',
     ''source.auth_profile_changed'', ''fincloud_auth_profile.created'',
     ''fincloud_auth_profile.updated'', ''fincloud_auth_profile.state_changed'',
     ''fincloud_auth_profile.tested'', ''schedule.created'', ''schedule.updated'',
     ''schedule.state_changed'', ''schedule.bulk_enable'', ''schedule.bulk_disable'',
     ''schedule.bulk_archive'', ''report_datasource.created'', ''report_datasource.updated'',
     ''report_datasource.state_changed'', ''report_datasource.tested'',
     ''report_template.created'', ''report_template.updated'', ''report_template.state_changed'',
     ''report_template.access_changed'', ''report.executed'', ''report_template.query_tested'',
     ''report_template.options_tested'', ''report_export.submitted'',
     ''report_export.downloaded'', ''custom_dataset.upload_stored'',
     ''custom_dataset.provisioned'', ''custom_dataset.activated'', ''custom_dataset.updated'',
     ''custom_dataset.archived'', ''custom_dataset.schema_revised'',
     ''custom_dataset.import_submitted'', ''custom_dataset.import_succeeded'',
     ''custom_dataset.import_failed'']"

definition knownAction :: "string \<Rightarrow> bool" where
  "knownAction action = (action \<in> set known_actions)"

definition resource_types :: "string list" where
  "resource_types = [
     ''user'', ''role'', ''ingestion_run'', ''schedule'', ''report_datasource'', ''report_template'',
     ''report_export'', ''fincloud_auth_profile'', ''custom_dataset'', ''custom_dataset_upload'',
     ''custom_dataset_import'']"

record Identity =
  id_UserID :: rowid
  id_Username :: string

record Event =
  ev_Actor :: "Identity option"
  ev_Effective :: "Identity option"
  ev_Action :: string
  ev_Resource :: string
  ev_ResourceID :: rowid
  ev_Metadata :: "json option"
  ev_CreatedAt :: time

definition go_zero_time :: time where "go_zero_time = -62135596800 * second"

record audit_row =
  au_id :: rowid
  au_actor :: "Identity option"
  au_effective :: "Identity option"
  au_action :: string
  au_resource :: "(string \<times> rowid) option"
  au_metadata :: "json option"
  au_created_at :: time

record audit_db =
  audit_logs :: "audit_row list"

section \<open>Append\<close>

definition validateIdentity :: "Identity option \<Rightarrow> unit result" where
  "validateIdentity identity =
     (case identity of
        None \<Rightarrow> Inr ()
      | Some i \<Rightarrow>
          if id_UserID i = 0 \<or> TrimSpace (id_Username i) = []
          then Inl (ErrMsg ''audit identity must have user ID and username'') else Inr ())"

definition check_event :: "Event \<Rightarrow> unit result" where
  "check_event event =
     (if \<not> knownAction (ev_Action event) then Inl (ErrMsg ''unknown audit action'')
      else (case validateIdentity (ev_Actor event) of
         Inl x \<Rightarrow> Inl x
       | Inr _ \<Rightarrow>
           (case validateIdentity (ev_Effective event) of
              Inl x \<Rightarrow> Inl x
            | Inr _ \<Rightarrow>
                if (ev_Resource event = []) \<noteq> (ev_ResourceID event = 0)
                then Inl (ErrMsg ''audit resource type and ID must be set together'')
                else if ev_Resource event \<noteq> [] \<and> ev_Resource event \<notin> set resource_types
                then Inl (ErrMsg ''unknown audit resource type'')
                else if ev_CreatedAt event = go_zero_time
                then Inl (ErrMsg ''audit creation time must not be zero'')
                else (case ev_Metadata event of
                   None \<Rightarrow> Inr ()
                 | Some m \<Rightarrow>
                     if length (print_json m) > MaxMetadataBytes
                     then Inl (ErrMsg ''audit metadata exceeds limit'') else Inr ()))))"

definition event_row :: "rowid \<Rightarrow> Event \<Rightarrow> audit_row" where
  "event_row i event =
     \<lparr>au_id = i, au_actor = ev_Actor event, au_effective = ev_Effective event,
      au_action = ev_Action event,
      au_resource = (if ev_Resource event \<noteq> [] then Some (ev_Resource event, ev_ResourceID event) else None),
      au_metadata = ev_Metadata event, au_created_at = ev_CreatedAt event\<rparr>"

definition insert_audit :: "Event \<Rightarrow> ('a audit_db_scheme, unit) op" where
  "insert_audit event = stmt (\<lambda>t d.
     Inr ((), d\<lparr>audit_logs := audit_logs d @ [event_row (next_id au_id (audit_logs d)) event]\<rparr>))"

definition Append :: "Event \<Rightarrow> ('a audit_db_scheme, unit) op" where
  "Append event = bind_op (lift_op (check_event event)) (\<lambda>_. insert_audit event)"

section \<open>Lemmas\<close>

lemma Append_InrE:
  assumes "Append event e = (Inr u, e')"
  shows "db e' = (db e)\<lparr>audit_logs := audit_logs (db e) @ [event_row (next_id au_id (audit_logs (db e))) event]\<rparr>"
    "check_event event = Inr ()"
  using assms by (auto simp: Append_def insert_audit_def op_iff)

end
