(* ===== verification/Mapper_Diagnostics.thy ===== *)
theory Mapper_Diagnostics
  imports Run_Parameters "HOL-Library.Multiset" "HOL-Library.Product_Lexorder"
begin

text \<open>
  The bounded summary of detail-mapping failures of a run: \<open>MapperDiagnostics\<close> of
  \<^verbatim>\<open>src/internal/ingestionrun/model.go\<close> and \<open>IsSafeMapperDiagnostic\<close> of
  \<^verbatim>\<open>src/internal/ingestion/detail.go\<close>. Counters are \<open>uint64\<close>, so \<open>64 word\<close>: an increment wraps
  unless the code's guard stops it, and the theorems say that no counter ever wraps.

  The names of the detail fields (\<open>mapperFieldAllowed\<close>) are a table of \<^verbatim>\<open>detail.go\<close>; every theorem
  here holds for every such table \<open>allowed\<close>. \<open>Add\<close> returns the updated summary with its result,
  because the Go method writes through its receiver also when it then reports an error.
\<close>

section \<open>Groups\<close>

definition MaxMapperDiagnosticGroups :: nat where "MaxMapperDiagnosticGroups = 16"

definition MaxUint64 :: "64 word" where "MaxUint64 = - 1"

record MapperDiagnosticGroup =
  dg_Class :: string
  dg_Field :: string
  dg_Category :: string
  dg_Reason :: string
  dg_SafeMessage :: string
  dg_Count :: "64 word"

record MapperDiagnostics =
  ds_TotalCount :: "64 word"
  ds_OverflowCount :: "64 word"
  ds_Groups :: "MapperDiagnosticGroup list"

record MapperMetadata =
  mm_class :: string
  mm_field :: string
  mm_category :: string
  mm_reason :: string
  mm_safeMessage :: string

definition safe_categories :: "string list" where
  "safe_categories = [''string'', ''decimal'', ''integer'', ''date'', ''time'', ''datetime'', ''boolean'',
     ''identifier'', ''structure'']"

definition safe_reasons :: "string list" where
  "safe_reasons = [''missing'', ''required'', ''invalid_json'', ''expected_array'', ''expected_object'',
     ''invalid_value'']"

definition safe_messages :: "string list" where
  "safe_messages = [''detail payload is missing'', ''detail payload is invalid'',
     ''detail identifier is missing'', ''required detail field is missing'',
     ''detail field value is invalid'', ''detail child collection is invalid'',
     ''detail child item is invalid'']"

definition IsSafeMapperDiagnostic ::
    "(string \<Rightarrow> bool) \<Rightarrow> string \<Rightarrow> string \<Rightarrow> string \<Rightarrow> string \<Rightarrow> string \<Rightarrow> bool" where
  "IsSafeMapperDiagnostic allowed class field category reason message =
     (if class \<noteq> ''detail_mapping'' \<or> \<not> allowed field then False
      else if category \<notin> set safe_categories then False
      else if reason \<notin> set safe_reasons then False
      else message \<in> set safe_messages)"

definition group_safe :: "(string \<Rightarrow> bool) \<Rightarrow> MapperDiagnosticGroup \<Rightarrow> bool" where
  "group_safe allowed g =
     IsSafeMapperDiagnostic allowed (dg_Class g) (dg_Field g) (dg_Category g) (dg_Reason g) (dg_SafeMessage g)"

text \<open>The sort key of a group; \<open>sort.Slice\<close> compares the fields one after the other.\<close>

definition group_key :: "MapperDiagnosticGroup \<Rightarrow> string \<times> string \<times> string \<times> string \<times> string" where
  "group_key g = (dg_Class g, dg_Field g, dg_Category g, dg_Reason g, dg_SafeMessage g)"

definition sameMapperDiagnostic :: "MapperDiagnosticGroup \<Rightarrow> MapperDiagnosticGroup \<Rightarrow> bool" where
  "sameMapperDiagnostic left right =
     (dg_Class left = dg_Class right \<and> dg_Field left = dg_Field right \<and>
      dg_Category left = dg_Category right \<and> dg_Reason left = dg_Reason right \<and>
      dg_SafeMessage left = dg_SafeMessage right)"

definition group_le :: "MapperDiagnosticGroup \<Rightarrow> MapperDiagnosticGroup \<Rightarrow> bool" where
  "group_le a b =
     (if dg_Class a \<noteq> dg_Class b then dg_Class a < dg_Class b
      else if dg_Field a \<noteq> dg_Field b then dg_Field a < dg_Field b
      else if dg_Category a \<noteq> dg_Category b then dg_Category a < dg_Category b
      else if dg_Reason a \<noteq> dg_Reason b then dg_Reason a < dg_Reason b
      else dg_SafeMessage a \<le> dg_SafeMessage b)"

fun insert_group :: "MapperDiagnosticGroup \<Rightarrow> MapperDiagnosticGroup list \<Rightarrow> MapperDiagnosticGroup list" where
  "insert_group g [] = [g]"
| "insert_group g (h # hs) = (if group_le g h then g # h # hs else h # insert_group g hs)"

definition sort_groups :: "MapperDiagnosticGroup list \<Rightarrow> MapperDiagnosticGroup list" where
  "sort_groups gs = foldr insert_group gs []"

section \<open>Validation and Add\<close>

fun check_groups :: "(string \<Rightarrow> bool) \<Rightarrow> MapperDiagnosticGroup option \<Rightarrow> 64 word \<Rightarrow>
    MapperDiagnosticGroup list \<Rightarrow> (64 word) result" where
  "check_groups allowed previous acc [] = Inr acc"
| "check_groups allowed previous acc (g # gs) =
     (if \<not> group_safe allowed g \<or> dg_Count g = 0 then Inl (ErrMsg ''invalid mapper diagnostic group'')
      else if (case previous of None \<Rightarrow> False | Some p \<Rightarrow> sameMapperDiagnostic p g)
      then Inl (ErrMsg ''duplicate mapper diagnostic group'')
      else if MaxUint64 - acc < dg_Count g then Inl (ErrMsg ''mapper diagnostic total overflow'')
      else check_groups allowed (Some g) (acc + dg_Count g) gs)"

definition validate_diagnostics :: "(string \<Rightarrow> bool) \<Rightarrow> MapperDiagnostics \<Rightarrow> unit result" where
  "validate_diagnostics allowed d =
     (if length (ds_Groups d) > MaxMapperDiagnosticGroups
      then Inl (ErrMsg ''too many mapper diagnostic groups'')
      else (case check_groups allowed None (ds_OverflowCount d) (ds_Groups d) of
         Inl x \<Rightarrow> Inl x
       | Inr acc \<Rightarrow>
           if acc \<noteq> ds_TotalCount d then Inl (ErrMsg ''mapper diagnostic total mismatch'') else Inr ()))"

definition metadata_group :: "MapperMetadata \<Rightarrow> MapperDiagnosticGroup" where
  "metadata_group m =
     \<lparr>dg_Class = mm_class m, dg_Field = mm_field m, dg_Category = mm_category m,
      dg_Reason = mm_reason m, dg_SafeMessage = mm_safeMessage m, dg_Count = 0\<rparr>"

text \<open>The first group of the same metadata: its position.\<close>

fun find_group :: "MapperDiagnosticGroup \<Rightarrow> nat \<Rightarrow> MapperDiagnosticGroup list \<Rightarrow> nat option" where
  "find_group g i [] = None"
| "find_group g i (h # hs) = (if sameMapperDiagnostic h g then Some i else find_group g (Suc i) hs)"

definition Add :: "(string \<Rightarrow> bool) \<Rightarrow> MapperDiagnostics \<Rightarrow> MapperMetadata \<Rightarrow>
    unit result \<times> MapperDiagnostics" where
  "Add allowed d metadata =
     (let g = metadata_group metadata
      in if \<not> group_safe allowed g then (Inl (ErrMsg ''invalid mapper diagnostic metadata''), d)
         else if ds_TotalCount d = MaxUint64 then (Inl (ErrMsg ''mapper diagnostic count overflow''), d)
         else
           (let d1 = d\<lparr>ds_TotalCount := ds_TotalCount d + 1\<rparr>
            in case find_group g 0 (ds_Groups d) of
                 Some i \<Rightarrow>
                   (let h = ds_Groups d ! i
                    in if dg_Count h = MaxUint64
                       then (Inl (ErrMsg ''mapper diagnostic group count overflow''), d1)
                       else (let d2 = d1\<lparr>ds_Groups :=
                                 sort_groups ((ds_Groups d)[i := h\<lparr>dg_Count := dg_Count h + 1\<rparr>])\<rparr>
                             in (validate_diagnostics allowed d2, d2)))
               | None \<Rightarrow>
                   if length (ds_Groups d) < MaxMapperDiagnosticGroups
                   then (let d2 = d1\<lparr>ds_Groups := sort_groups (ds_Groups d @ [g\<lparr>dg_Count := 1\<rparr>])\<rparr>
                         in (validate_diagnostics allowed d2, d2))
                   else if ds_OverflowCount d = MaxUint64
                   then (Inl (ErrMsg ''mapper diagnostic overflow count overflow''), d1)
                   else (let d2 = d1\<lparr>ds_OverflowCount := ds_OverflowCount d + 1\<rparr>
                         in (validate_diagnostics allowed d2, d2))))"

text \<open>\<open>Marshal\<close> sorts a copy and returns the text of the checked value, here the value itself;
  decoding reads a value back, sorts and checks it.\<close>

definition Marshal_diagnostics :: "(string \<Rightarrow> bool) \<Rightarrow> MapperDiagnostics \<Rightarrow> MapperDiagnostics result" where
  "Marshal_diagnostics allowed d =
     (let d1 = d\<lparr>ds_Groups := sort_groups (ds_Groups d)\<rparr>
      in case validate_diagnostics allowed d1 of Inl x \<Rightarrow> Inl x | Inr _ \<Rightarrow> Inr d1)"

definition decodeMapperDiagnostics ::
    "(string \<Rightarrow> bool) \<Rightarrow> MapperDiagnostics option \<Rightarrow> MapperDiagnostics option result" where
  "decodeMapperDiagnostics allowed data =
     (case data of
        None \<Rightarrow> Inr None
      | Some d \<Rightarrow>
          (let d1 = d\<lparr>ds_Groups := sort_groups (ds_Groups d)\<rparr>
           in case validate_diagnostics allowed d1 of Inl x \<Rightarrow> Inl x | Inr _ \<Rightarrow> Inr (Some d1)))"

section \<open>The invariant\<close>

definition count_sum :: "MapperDiagnosticGroup list \<Rightarrow> nat" where
  "count_sum gs = sum_list (map (\<lambda>g. unat (dg_Count g)) gs)"

definition diag_inv :: "(string \<Rightarrow> bool) \<Rightarrow> MapperDiagnostics \<Rightarrow> bool" where
  "diag_inv allowed d \<longleftrightarrow>
     length (ds_Groups d) \<le> MaxMapperDiagnosticGroups \<and>
     (\<forall>g \<in> set (ds_Groups d). group_safe allowed g \<and> dg_Count g \<noteq> 0) \<and>
     sorted_wrt (<) (map group_key (ds_Groups d)) \<and>
     unat (ds_TotalCount d) = unat (ds_OverflowCount d) + count_sum (ds_Groups d)"

definition empty_diagnostics :: MapperDiagnostics where
  "empty_diagnostics = \<lparr>ds_TotalCount = 0, ds_OverflowCount = 0, ds_Groups = []\<rparr>"

lemma group_le_key: "group_le a b \<longleftrightarrow> group_key a \<le> group_key b"
  by (auto simp: group_le_def group_key_def less_eq_prod_def)

lemma same_key: "sameMapperDiagnostic a b \<longleftrightarrow> group_key a = group_key b"
  by (auto simp: sameMapperDiagnostic_def group_key_def)

lemma insert_group_insort: "insert_group g gs = insort_key group_key g gs"
  by (induction gs) (auto simp: group_le_key)

lemma sort_groups_key: "sort_groups gs = sort_key group_key gs"
  by (simp add: sort_groups_def sort_key_def insert_group_insort [abs_def])

lemma sort_groups_sorted: "sorted_wrt (<) (map group_key gs) \<Longrightarrow> sort_groups gs = gs"
  unfolding sort_groups_key by (rule sort_key_id_if_sorted) (simp add: strict_sorted_iff)

lemma sorted_sort_groups:
  "distinct (map group_key gs) \<Longrightarrow> sorted_wrt (<) (map group_key (sort_groups gs))"
  unfolding sort_groups_key strict_sorted_iff
  by (metis distinct_map mset_sort distinct_map mset_map mset_eq_imp_distinct_iff sorted_sort_key)

lemma count_sum_sort [simp]: "count_sum (sort_groups gs) = count_sum gs"
  by (simp add: count_sum_def sort_groups_key flip: sum_mset_sum_list)

lemma unat_MaxUint64: "unat MaxUint64 = 2 ^ 64 - 1"
  by (simp add: MaxUint64_def unsigned_minus_1_eq_mask mask_eq_exp_minus_1)

lemma unat_bound: "unat (w :: 64 word) < 2 ^ 64"
proof -
  have "unat w < 2 ^ LENGTH(64)" by (rule unsigned_less)
  then show ?thesis by simp
qed

lemma room_iff: "MaxUint64 - a < b \<longleftrightarrow> 2 ^ 64 \<le> unat a + unat (b :: 64 word)"
proof -
  have "a \<le> MaxUint64" by (simp add: MaxUint64_def)
  then have "unat (MaxUint64 - a) = 2 ^ 64 - 1 - unat a"
    by (simp only: unat_sub unat_MaxUint64)
  moreover have "unat a < 2 ^ 64" using unat_bound [of a] by simp
  ultimately show ?thesis unfolding word_less_nat_alt by linarith
qed

lemma not_MaxUint64: "unat (w :: 64 word) < 2 ^ 64 - 1 \<Longrightarrow> w \<noteq> MaxUint64 \<and> unat (w + 1) = unat w + 1"
proof -
  assume less: "unat w < 2 ^ 64 - 1"
  then have "unat w + unat (1 :: 64 word) < 2 ^ LENGTH(64)" by simp
  then have "unat (w + 1) = unat w + 1" by (metis unat_add_lem unat_1)
  with less show ?thesis using unat_MaxUint64 by auto
qed

lemma check_groups_ok:
  assumes "sorted_wrt (<) (map group_key gs)" "\<And>g. g \<in> set gs \<Longrightarrow> group_safe allowed g \<and> dg_Count g \<noteq> 0"
    and "\<And>p g. previous = Some p \<Longrightarrow> g \<in> set gs \<Longrightarrow> group_key p < group_key g"
    and "unat acc + count_sum gs < 2 ^ 64"
  shows "\<exists>w. check_groups allowed previous acc gs = Inr w \<and> unat w = unat acc + count_sum gs"
  using assms
proof (induction gs arbitrary: previous acc)
  case Nil
  then show ?case by (simp add: count_sum_def)
next
  case (Cons g gs)
  have fits: "unat acc + unat (dg_Count g) < 2 ^ 64"
    using Cons.prems(4) by (simp add: count_sum_def)
  then have add: "unat (acc + dg_Count g) = unat acc + unat (dg_Count g)"
    using unat_add_lem [of acc "dg_Count g"] by simp
  have "\<exists>w. check_groups allowed (Some g) (acc + dg_Count g) gs = Inr w \<and>
      unat w = unat (acc + dg_Count g) + count_sum gs"
    by (rule Cons.IH) (use Cons.prems in \<open>auto simp: add count_sum_def\<close>)
  moreover have "\<not> (case previous of None \<Rightarrow> False | Some p \<Rightarrow> sameMapperDiagnostic p g)"
    using Cons.prems(3) by (fastforce simp: same_key split: option.splits)
  ultimately show ?case
    using Cons.prems(2) fits by (auto simp: room_iff add count_sum_def)
qed

lemma validate_inv: "diag_inv allowed d \<Longrightarrow> validate_diagnostics allowed d = Inr ()"
proof -
  assume inv: "diag_inv allowed d"
  have "\<exists>w. check_groups allowed None (ds_OverflowCount d) (ds_Groups d) = Inr w \<and>
      unat w = unat (ds_OverflowCount d) + count_sum (ds_Groups d)"
    by (rule check_groups_ok) (use inv unat_bound [of "ds_TotalCount d"] in \<open>auto simp: diag_inv_def\<close>)
  with inv show ?thesis
    by (auto simp: validate_diagnostics_def diag_inv_def word_unat_eq_iff)
qed

lemma find_group_Some:
  "find_group g i hs = Some k \<Longrightarrow> i \<le> k \<and> k < i + length hs \<and> group_key (hs ! (k - i)) = group_key g"
  by (induction hs arbitrary: i) (fastforce simp: same_key nth_Cons' split: if_splits)+

lemma find_group_None: "find_group g i hs = None \<Longrightarrow> group_key g \<notin> group_key ` set hs"
  by (induction hs arbitrary: i) (auto simp: same_key split: if_splits)

lemma count_le_sum: "g \<in> set gs \<Longrightarrow> unat (dg_Count g) \<le> count_sum gs"
  by (simp add: count_sum_def member_le_sum_list)

lemma count_sum_bump:
  assumes "i < length gs" "unat (dg_Count (gs ! i) + 1) = unat (dg_Count (gs ! i)) + 1"
  shows "count_sum (gs[i := (gs ! i)\<lparr>dg_Count := dg_Count (gs ! i) + 1\<rparr>]) = count_sum gs + 1"
  using assms count_le_sum [of "gs ! i" gs]
  by (simp add: count_sum_def map_update sum_list_update)

lemma metadata_group_fields [simp]:
  "group_key ((metadata_group m)\<lparr>dg_Count := c\<rparr>) = group_key (metadata_group m)"
  "group_safe allowed ((metadata_group m)\<lparr>dg_Count := c\<rparr>) = group_safe allowed (metadata_group m)"
  by (simp_all add: group_key_def group_safe_def)

lemma bump_fields [simp]:
  "group_key (h\<lparr>dg_Count := c\<rparr>) = group_key h" "group_safe allowed (h\<lparr>dg_Count := c\<rparr>) = group_safe allowed h"
  by (simp_all add: group_key_def group_safe_def)

lemma Add_known:
  assumes inv: "diag_inv allowed d" and room: "unat (ds_TotalCount d) < 2 ^ 64 - 1"
    and i: "find_group (metadata_group m) 0 (ds_Groups d) = Some i"
  defines "h \<equiv> ds_Groups d ! i"
  defines "d' \<equiv> d\<lparr>ds_TotalCount := ds_TotalCount d + 1, ds_Groups := (ds_Groups d)[i := h\<lparr>dg_Count := dg_Count h + 1\<rparr>]\<rparr>"
  shows "dg_Count h \<noteq> MaxUint64" "diag_inv allowed d'" "sort_groups (ds_Groups d') = ds_Groups d'"
proof -
  have len: "i < length (ds_Groups d)" using find_group_Some [OF i] by simp
  then have h: "h \<in> set (ds_Groups d)" by (simp add: h_def)
  have "unat (dg_Count h) < 2 ^ 64 - 1"
    using count_le_sum [OF h] inv room by (simp add: diag_inv_def)
  note bump = not_MaxUint64 [OF this]
  show "dg_Count h \<noteq> MaxUint64" using bump by simp
  have "dg_Count h + 1 \<noteq> 0" using bump by (metis Suc_eq_plus1 nat.distinct(1) unat_0)
  moreover have keys: "map group_key ((ds_Groups d)[i := h\<lparr>dg_Count := dg_Count h + 1\<rparr>]) = map group_key (ds_Groups d)"
    using len by (simp add: map_update h_def list_update_same_conv)
  moreover have "count_sum ((ds_Groups d)[i := h\<lparr>dg_Count := dg_Count h + 1\<rparr>]) = count_sum (ds_Groups d) + 1"
    using count_sum_bump [OF len] bump by (simp add: h_def)
  ultimately show "diag_inv allowed d'"
    using inv len h not_MaxUint64 [OF room]
    by (auto simp: diag_inv_def d'_def dest!: set_update_subset_insert [THEN subsetD])
  then show "sort_groups (ds_Groups d') = ds_Groups d'"
    by (intro sort_groups_sorted) (simp add: diag_inv_def)
qed

lemma Add_fresh:
  assumes inv: "diag_inv allowed d" and room: "unat (ds_TotalCount d) < 2 ^ 64 - 1"
    and safe: "group_safe allowed (metadata_group m)"
    and none: "find_group (metadata_group m) 0 (ds_Groups d) = None"
    and few: "length (ds_Groups d) < MaxMapperDiagnosticGroups"
  shows "diag_inv allowed (d\<lparr>ds_TotalCount := ds_TotalCount d + 1,
    ds_Groups := sort_groups (ds_Groups d @ [(metadata_group m)\<lparr>dg_Count := 1\<rparr>])\<rparr>)"
proof -
  let ?gs = "ds_Groups d @ [(metadata_group m)\<lparr>dg_Count := 1\<rparr>]"
  have "distinct (map group_key ?gs)"
    using inv find_group_None [OF none] by (auto simp: diag_inv_def strict_sorted_iff)
  then have "sorted_wrt (<) (map group_key (sort_groups ?gs))" by (rule sorted_sort_groups)
  moreover have "set (sort_groups ?gs) = set ?gs" "length (sort_groups ?gs) = Suc (length (ds_Groups d))"
    by (simp_all add: sort_groups_key)
  moreover have "count_sum ?gs = count_sum (ds_Groups d) + 1" by (simp add: count_sum_def)
  ultimately show ?thesis
    using inv few safe not_MaxUint64 [OF room] by (auto simp: diag_inv_def)
qed

lemma Add_overflow:
  assumes inv: "diag_inv allowed d" and room: "unat (ds_TotalCount d) < 2 ^ 64 - 1"
  shows "ds_OverflowCount d \<noteq> MaxUint64"
    "diag_inv allowed (d\<lparr>ds_TotalCount := ds_TotalCount d + 1, ds_OverflowCount := ds_OverflowCount d + 1\<rparr>)"
proof -
  have "unat (ds_OverflowCount d) < 2 ^ 64 - 1" using inv room by (simp add: diag_inv_def)
  from not_MaxUint64 [OF this] not_MaxUint64 [OF room] inv
  show "ds_OverflowCount d \<noteq> MaxUint64"
    "diag_inv allowed (d\<lparr>ds_TotalCount := ds_TotalCount d + 1, ds_OverflowCount := ds_OverflowCount d + 1\<rparr>)"
    by (simp_all add: diag_inv_def)
qed

section \<open>Properties\<close>





end
