(* ===== verification/Run_Model.thy ===== *)
theory Run_Model
  imports Audit_Log Mapper_Diagnostics "HOL-Library.Product_Lexorder"
begin

text \<open>
  The tables behind \<^verbatim>\<open>src/internal/ingestionrun/repository.go\<close>: the rows of \<open>ingestion_runs\<close>, the runtime
  settings singleton, the source settings and the authentication profiles, with the keys and
  checks of the schema (\<^verbatim>\<open>src/migrations\<close>) that the code relies on. A write that breaks a UNIQUE KEY
  fails with MySQL error 1062, one that breaks a CHECK with 3819, and changes nothing.

  \<open>update_runs\<close>, \<open>insertRun\<close> and the selections below are the SQL statements of the repository; the
  operations built from them are in \<open>Run_Store\<close>.
\<close>

section \<open>Rows\<close>

datatype Kind = KindJob | KindRunAllParent | KindRunAllChild

datatype Status =
    StatusPlanned
  | StatusQueued
  | StatusRunning
  | StatusSucceeded
  | StatusFailed
  | StatusSkipped
  | StatusCancelled
  | StatusAbandoned
  | StatusCompleted
  | StatusCompletedWithSkips

datatype Trigger = TriggerDirect | TriggerScheduler | TriggerRunAll | OtherTrigger string

definition IsTerminal :: "Status \<Rightarrow> bool" where
  "IsTerminal status =
     (case status of
        StatusSucceeded \<Rightarrow> True
      | StatusFailed \<Rightarrow> True
      | StatusSkipped \<Rightarrow> True
      | StatusCancelled \<Rightarrow> True
      | StatusAbandoned \<Rightarrow> True
      | StatusCompleted \<Rightarrow> True
      | StatusCompletedWithSkips \<Rightarrow> True
      | _ \<Rightarrow> False)"

record Progress =
  pg_Total :: "64 word"
  pg_Started :: "64 word"
  pg_Succeeded :: "64 word"
  pg_Failed :: "64 word"
  pg_Rows :: "64 word"
  pg_Step :: string

record run_row =
  r_id :: rowid
  r_kind :: Kind
  r_parent :: "rowid option"
  r_position :: "16 word option"
  r_job :: "string option"
  r_status :: Status
  r_params :: Parameters
  r_trigger :: Trigger
  r_reference :: "string option"
  r_requester :: "rowid option"
  r_skip_reason :: "string option"
  r_cancel_at :: "time option"
  r_cancel_reason :: "string option"
  r_owner :: "string option"
  r_claimed :: "time option"
  r_heartbeat :: "time option"
  r_snapshot :: "CalendarDate option"
  r_total :: "64 word"
  r_begun :: "64 word"
  r_succeeded :: "64 word"
  r_failed :: "64 word"
  r_rows :: "64 word"
  r_step :: "string option"
  r_diagnostics :: "MapperDiagnostics option"
  r_error_class :: "string option"
  r_error_message :: "string option"
  r_error_step :: "string option"
  r_abandoned_owner :: "string option"
  r_abandoned_heartbeat :: "time option"
  r_created :: time
  r_started :: "time option"
  r_finished :: "time option"

record RuntimeSettings =
  rs_MaxRunningJobs :: int
  rs_FixedMemberConcurrency :: int
  rs_DetailConcurrency :: int

record source_row =
  so_id :: string
  so_enabled :: bool
  so_profile :: "rowid option"

record profile_row =
  pf_id :: rowid
  pf_status :: string

record run_db = audit_db +
  runs :: "run_row list"
  settings :: "RuntimeSettings option"
  sources :: "source_row list"
  profiles :: "profile_row list"

section \<open>Keys and checks\<close>

definition executable_kind :: "Kind \<Rightarrow> bool" where
  "executable_kind k = (k = KindJob \<or> k = KindRunAllChild)"

definition active_job_key :: "run_row \<Rightarrow> string option" where
  "active_job_key r =
     (if executable_kind (r_kind r) \<and> (r_status r = StatusQueued \<or> r_status r = StatusRunning)
      then r_job r else None)"

definition parent_position :: "run_row \<Rightarrow> (rowid \<times> 16 word) option" where
  "parent_position r =
     (case (r_parent r, r_position r) of (Some p, Some n) \<Rightarrow> Some (p, n) | _ \<Rightarrow> None)"

definition parent_job :: "run_row \<Rightarrow> (rowid \<times> string) option" where
  "parent_job r = (case (r_parent r, r_job r) of (Some p, Some k) \<Rightarrow> Some (p, k) | _ \<Rightarrow> None)"

definition scheduler_reference :: "run_row \<Rightarrow> string option" where
  "scheduler_reference r =
     (if r_kind r = KindJob \<and> r_trigger r = TriggerScheduler then r_reference r else None)"

definition run_keys_ok :: "run_row list \<Rightarrow> bool" where
  "run_keys_ok rows =
     (unique_key active_job_key rows \<and> unique_key parent_position rows \<and> unique_key parent_job rows \<and>
      unique_key scheduler_reference rows)"

definition run_shape_ok :: "run_row \<Rightarrow> bool" where
  "run_shape_ok r =
     (case r_kind r of
        KindJob \<Rightarrow> r_parent r = None \<and> r_position r = None \<and> r_job r \<noteq> None
      | KindRunAllParent \<Rightarrow> r_parent r = None \<and> r_position r = None \<and> r_job r = None
      | KindRunAllChild \<Rightarrow> r_parent r \<noteq> None \<and> r_position r \<noteq> None \<and> r_job r \<noteq> None)"

definition run_progress_ok :: "run_row \<Rightarrow> bool" where
  "run_progress_ok r =
     (r_begun r \<le> r_total r \<and> unat (r_succeeded r) + unat (r_failed r) \<le> unat (r_begun r))"

section \<open>Statements\<close>

definition write_runs :: "run_row list \<Rightarrow> ('a run_db_scheme) \<Rightarrow> ('a run_db_scheme) result" where
  "write_runs rows d =
     (if \<not> list_all (\<lambda>r. run_shape_ok r \<and> run_progress_ok r) rows then Inl (ErrMySQL 3819)
      else if \<not> run_keys_ok rows then Inl (ErrMySQL 1062)
      else Inr (d\<lparr>runs := rows\<rparr>))"

definition update_runs ::
    "(time \<Rightarrow> run_row \<Rightarrow> bool) \<Rightarrow> (time \<Rightarrow> run_row \<Rightarrow> run_row) \<Rightarrow> ('a run_db_scheme, nat) op" where
  "update_runs P f = stmt (\<lambda>t d.
     case write_runs (sql_update (P t) (f t) (runs d)) d of
       Inl x \<Rightarrow> Inl x
     | Inr d' \<Rightarrow> Inr (sql_changed (P t) (f t) (runs d), d'))"

definition nullable :: "string \<Rightarrow> string option" where
  "nullable value = (if value = [] then None else Some value)"

definition new_run :: "Kind \<Rightarrow> rowid option \<Rightarrow> 16 word option \<Rightarrow> string \<Rightarrow> Status \<Rightarrow> Parameters \<Rightarrow>
    Trigger \<Rightarrow> string \<Rightarrow> rowid option \<Rightarrow> rowid \<Rightarrow> time \<Rightarrow> run_row" where
  "new_run kind parent position jobKey status parameters trigger reference requester i t =
     \<lparr>r_id = i, r_kind = kind, r_parent = parent, r_position = position, r_job = nullable jobKey,
      r_status = status, r_params = parameters, r_trigger = trigger, r_reference = nullable reference,
      r_requester = requester, r_skip_reason = None, r_cancel_at = None, r_cancel_reason = None,
      r_owner = None, r_claimed = None, r_heartbeat = None, r_snapshot = None, r_total = 0,
      r_begun = 0, r_succeeded = 0, r_failed = 0, r_rows = 0, r_step = None, r_diagnostics = None,
      r_error_class = None, r_error_message = None, r_error_step = None, r_abandoned_owner = None,
      r_abandoned_heartbeat = None, r_created = t, r_started = None, r_finished = None\<rparr>"

definition insertRun :: "Kind \<Rightarrow> rowid option \<Rightarrow> 16 word option \<Rightarrow> string \<Rightarrow> Status \<Rightarrow> Parameters \<Rightarrow>
    Trigger \<Rightarrow> string \<Rightarrow> rowid option \<Rightarrow> ('a run_db_scheme, rowid) op" where
  "insertRun kind parent position jobKey status parameters trigger reference requester = stmt (\<lambda>t d.
     let i = next_id r_id (runs d)
     in case write_runs (runs d @ [new_run kind parent position jobKey status parameters trigger
                                     reference requester i t]) d of
          Inl x \<Rightarrow> Inl x
        | Inr d' \<Rightarrow> Inr (i, d'))"

definition get_run_row :: "rowid \<Rightarrow> ('a run_db_scheme, run_row) op" where
  "get_run_row i = query (\<lambda>t d.
     case filter (\<lambda>r. r_id r = i) (runs d) of [] \<Rightarrow> Inl ErrNoRows | r # _ \<Rightarrow> Inr r)"

definition duplicate :: "err \<Rightarrow> bool" where
  "duplicate err = (err = ErrMySQL 1062)"

text \<open>\<open>safeText\<close>: control characters become spaces and the text is cut after \<open>limit\<close> runes.\<close>

definition blank_control :: "rune \<Rightarrow> rune" where
  "blank_control character = (if character < 0x20 \<or> character = 0x7f then 32 else character)"

definition safeText :: "string \<Rightarrow> nat \<Rightarrow> string" where
  "safeText text0 limit =
     (let value = strings_Map blank_control (TrimSpace text0); runes = decode_runes value
      in if length runes > limit then encode_runes (take limit runes) else value)"

section \<open>Reading a run\<close>

record Run =
  run_ID :: rowid
  run_Kind :: Kind
  run_ParentRunID :: "rowid option"
  run_ChildPosition :: "16 word option"
  run_JobKey :: string
  run_Status :: Status
  run_Parameters :: Parameters
  run_Trigger :: Trigger
  run_TriggerReference :: string
  run_RequestedByUserID :: "rowid option"
  run_OwnerID :: string
  run_HeartbeatAt :: "time option"
  run_SnapshotDate :: CalendarDate
  run_CancelRequested :: bool
  run_Progress :: Progress
  run_MapperDiagnostics :: "MapperDiagnostics option"

definition or_empty :: "string option \<Rightarrow> string" where
  "or_empty s = (case s of None \<Rightarrow> [] | Some v \<Rightarrow> v)"

definition run_value :: "(string \<Rightarrow> bool) \<Rightarrow> run_row \<Rightarrow> Run result" where
  "run_value allowed row =
     (case decodeMapperDiagnostics allowed (r_diagnostics row) of
        Inl x \<Rightarrow> Inl x
      | Inr diagnostics \<Rightarrow> Inr
          \<lparr>run_ID = r_id row, run_Kind = r_kind row, run_ParentRunID = r_parent row,
           run_ChildPosition = r_position row, run_JobKey = or_empty (r_job row),
           run_Status = r_status row, run_Parameters = r_params row, run_Trigger = r_trigger row,
           run_TriggerReference = or_empty (r_reference row), run_RequestedByUserID = r_requester row,
           run_OwnerID = or_empty (r_owner row), run_HeartbeatAt = r_heartbeat row,
           run_SnapshotDate = (case r_snapshot row of None \<Rightarrow> zero_date | Some d \<Rightarrow> d),
           run_CancelRequested = (r_cancel_at row \<noteq> None),
           run_Progress = \<lparr>pg_Total = r_total row, pg_Started = r_begun row,
             pg_Succeeded = r_succeeded row, pg_Failed = r_failed row, pg_Rows = r_rows row,
             pg_Step = or_empty (r_step row)\<rparr>,
           run_MapperDiagnostics = diagnostics\<rparr>)"

definition getRun :: "(string \<Rightarrow> bool) \<Rightarrow> rowid \<Rightarrow> ('a run_db_scheme, Run) op" where
  "getRun allowed i = bind_op (get_run_row i) (\<lambda>row. lift_op (run_value allowed row))"

end
