(* ===== verification/Run_Store.thy ===== *)
theory Run_Store
  imports Run_Model
begin

text \<open>
  The operations of \<^verbatim>\<open>src/internal/ingestionrun/repository.go\<close>: runtime settings, submission of jobs and
  of Run All, claiming with admission control, heartbeat, progress, the terminal transitions,
  recovery of stale and abandoned runs, cancellation and the reconciliation of Run All parents.
  Each definition is one function of the source, statement by statement, on the tables of
  \<open>Run_Model\<close>. Parameters stand for what the process supplies: \<open>sha\<close> for SHA-256, \<open>allowed\<close> for the
  table of detail field names, \<open>newOwner\<close> for the outcome of \<open>NewOwnerID\<close> (64 random hex digits).

  The loop of \<open>RecoverOneStale\<close> repeats while it sees a stale run that another process changes
  first; it is a \<open>partial_function\<close>, and a loop that never ends is \<open>ErrDiverge\<close>.
\<close>

section \<open>Runtime settings\<close>

definition MinRuntimeLimit :: int where "MinRuntimeLimit = 1"

definition MaxRuntimeLimit :: int where "MaxRuntimeLimit = 64"

definition ValidRuntimeLimit :: "int \<Rightarrow> bool" where
  "ValidRuntimeLimit value = (value \<ge> MinRuntimeLimit \<and> value \<le> MaxRuntimeLimit)"

definition settings_Validate :: "RuntimeSettings \<Rightarrow> unit result" where
  "settings_Validate s =
     (if \<not> ValidRuntimeLimit (rs_MaxRunningJobs s) \<or> \<not> ValidRuntimeLimit (rs_FixedMemberConcurrency s) \<or>
         \<not> ValidRuntimeLimit (rs_DetailConcurrency s)
      then Inl (ErrMsg ''invalid ingestion runtime settings'') else Inr ())"

definition select_settings :: "('a run_db_scheme, RuntimeSettings) op" where
  "select_settings = query (\<lambda>t d. case settings d of None \<Rightarrow> Inl ErrNoRows | Some s \<Rightarrow> Inr s)"

definition runtimeSettings :: "('a run_db_scheme, RuntimeSettings) op" where
  "runtimeSettings = bind_op select_settings (\<lambda>s.
     bind_op (lift_op (settings_Validate s)) (\<lambda>_. ret_op s))"

record Requester =
  rq_Actor :: Identity
  rq_Effective :: Identity

definition settings_json :: "RuntimeSettings \<Rightarrow> json" where
  "settings_json s = JObj [
     (''max_running_jobs'', JNum (int_string (rs_MaxRunningJobs s))),
     (''fixed_member_concurrency'', JNum (int_string (rs_FixedMemberConcurrency s))),
     (''detail_concurrency'', JNum (int_string (rs_DetailConcurrency s)))]"

definition update_settings :: "RuntimeSettings \<Rightarrow> ('a run_db_scheme, unit) op" where
  "update_settings target = stmt (\<lambda>t d.
     if settings_Validate target \<noteq> Inr () then Inl (ErrMySQL 3819)
     else Inr ((), case settings d of None \<Rightarrow> d | Some _ \<Rightarrow> d\<lparr>settings := Some target\<rparr>))"

definition UpdateRuntimeSettings ::
    "RuntimeSettings \<Rightarrow> RuntimeSettings \<Rightarrow> Requester \<Rightarrow> ('a run_db_scheme, bool) op" where
  "UpdateRuntimeSettings expected target requester =
     bind_op (lift_op (settings_Validate target)) (\<lambda>_.
     tx_attempt (bind_op runtimeSettings (\<lambda>current.
       if current \<noteq> expected then fail_op ErrRuntimeSettingsConflict
       else if current = target then ret_op False
       else bind_op (update_settings target) (\<lambda>_.
            bind_op go_now (\<lambda>now.
            bind_op (Append
              \<lparr>ev_Actor = Some (rq_Actor requester), ev_Effective = Some (rq_Effective requester),
               ev_Action = ''ingestion.runtime_settings_updated'', ev_Resource = [], ev_ResourceID = 0,
               ev_Metadata = Some (JObj [(''from'', settings_json current), (''to'', settings_json target)]),
               ev_CreatedAt = now\<rparr>) (\<lambda>_. ret_op True))))))"

section \<open>Submission\<close>

definition runningJobs :: "('a run_db_scheme, nat) op" where
  "runningJobs = query (\<lambda>t d.
     Inr (sql_count (\<lambda>r. executable_kind (r_kind r) \<and> r_status r = StatusRunning) (runs d)))"

definition find_source :: "string \<Rightarrow> ('a run_db_scheme, source_row) op" where
  "find_source key = query (\<lambda>t d.
     case filter (\<lambda>s. so_id s = key) (sources d) of [] \<Rightarrow> Inl ErrNoRows | s # _ \<Rightarrow> Inr s)"

definition sourceEnabled :: "string \<Rightarrow> ('a run_db_scheme, bool) op" where
  "sourceEnabled key = bind_op (find_source key) (\<lambda>s. ret_op (so_enabled s))"

definition select_profile :: "rowid \<Rightarrow> ('a run_db_scheme, string) op" where
  "select_profile i = query (\<lambda>t d.
     case filter (\<lambda>p. pf_id p = i) (profiles d) of [] \<Rightarrow> Inl ErrNoRows | p # _ \<Rightarrow> Inr (pf_status p))"

definition sourceReady :: "string \<Rightarrow> ('a run_db_scheme, unit) op" where
  "sourceReady key = bind_op (find_source key) (\<lambda>source.
     if \<not> so_enabled source then fail_op ErrSourceDisabled
     else (case so_profile source of
        None \<Rightarrow> fail_op ErrSourceConfigurationRequired
      | Some profile \<Rightarrow> bind_op (try_op (select_profile profile)) (\<lambda>r.
          case r of
            Inl x \<Rightarrow> if x = ErrNoRows then fail_op ErrSourceConfigurationRequired else fail_op x
          | Inr status \<Rightarrow>
              if status \<noteq> ''active'' then fail_op ErrSourceConfigurationRequired else ret_op ())))"

definition submitInTx :: "(string \<Rightarrow> hash) \<Rightarrow> Catalog \<Rightarrow> string \<Rightarrow> Parameters \<Rightarrow> Trigger \<Rightarrow> string \<Rightarrow>
    rowid option \<Rightarrow> bool \<Rightarrow> ('a run_db_scheme, rowid) op" where
  "submitInTx sha catalog jobKey parameters trigger reference requester requireAuth =
     (if trigger = TriggerScheduler \<and> TrimSpace reference = []
      then fail_op (ErrMsg ''scheduler trigger reference is required'')
      else (case Find catalog jobKey of
         None \<Rightarrow> fail_op (ErrMsg ''unknown job'')
       | Some j \<Rightarrow>
           bind_op (lift_op (Validate sha parameters j)) (\<lambda>_.
           bind_op (if requireAuth then sourceReady jobKey
                    else bind_op (sourceEnabled jobKey) (\<lambda>enabled.
                           if \<not> enabled then fail_op ErrSourceDisabled else ret_op ())) (\<lambda>_.
           bind_op (try_op (insertRun KindJob None None jobKey StatusQueued parameters trigger
                              reference requester)) (\<lambda>result.
             case result of
               Inl x \<Rightarrow> if duplicate x then fail_op ErrJobBusy else fail_op x
             | Inr i \<Rightarrow> ret_op i)))))"

definition SubmitInTx :: "(string \<Rightarrow> hash) \<Rightarrow> Catalog \<Rightarrow> string \<Rightarrow> Parameters \<Rightarrow> Trigger \<Rightarrow> string \<Rightarrow>
    rowid option \<Rightarrow> ('a run_db_scheme, rowid) op" where
  "SubmitInTx sha catalog jobKey parameters trigger reference requester =
     submitInTx sha catalog jobKey parameters trigger reference requester (trigger = TriggerScheduler)"

definition appendRunAudit ::
    "Requester \<Rightarrow> string \<Rightarrow> rowid \<Rightarrow> json option \<Rightarrow> ('a run_db_scheme, unit) op" where
  "appendRunAudit requester action runID metadata = bind_op go_now (\<lambda>now. Append
     \<lparr>ev_Actor = Some (rq_Actor requester), ev_Effective = Some (rq_Effective requester),
      ev_Action = action, ev_Resource = ''ingestion_run'', ev_ResourceID = runID,
      ev_Metadata = metadata, ev_CreatedAt = now\<rparr>)"

definition submit :: "(string \<Rightarrow> hash) \<Rightarrow> Catalog \<Rightarrow> string \<Rightarrow> Parameters \<Rightarrow> Trigger \<Rightarrow> string \<Rightarrow>
    rowid option \<Rightarrow> Requester option \<Rightarrow> bool \<Rightarrow> ('a run_db_scheme, rowid) op" where
  "submit sha catalog jobKey parameters trigger reference requestedBy auditRequester requireAuth =
     tx_attempt (
     bind_op (submitInTx sha catalog jobKey parameters trigger reference requestedBy requireAuth) (\<lambda>i.
     bind_op (case auditRequester of
                None \<Rightarrow> ret_op ()
              | Some r \<Rightarrow> appendRunAudit r ''ingestion.run_submitted'' i
                  (Some (JObj (if jobKey = [] then [] else [(''job_key'', JStr jobKey)])))) (\<lambda>_.
     ret_op i)))"

definition Submit :: "(string \<Rightarrow> hash) \<Rightarrow> Catalog \<Rightarrow> string \<Rightarrow> Parameters \<Rightarrow> Trigger \<Rightarrow> string \<Rightarrow>
    rowid option \<Rightarrow> ('a run_db_scheme, rowid) op" where
  "Submit sha catalog jobKey parameters trigger reference requester =
     submit sha catalog jobKey parameters trigger reference requester None False"

definition SubmitManual :: "(string \<Rightarrow> hash) \<Rightarrow> Catalog \<Rightarrow> string \<Rightarrow> Parameters \<Rightarrow> Trigger \<Rightarrow> string \<Rightarrow>
    Requester \<Rightarrow> ('a run_db_scheme, rowid) op" where
  "SubmitManual sha catalog jobKey parameters trigger reference requester =
     submit sha catalog jobKey parameters trigger reference (Some (id_UserID (rq_Actor requester)))
       (Some requester) True"

section \<open>Run All\<close>

definition insert_child :: "(string \<Rightarrow> hash) \<Rightarrow> rowid \<Rightarrow> CalendarDate \<Rightarrow> CalendarDate \<Rightarrow> rowid option \<Rightarrow>
    16 word \<times> JobDefinition \<Rightarrow> ('a run_db_scheme, unit) op" where
  "insert_child sha parentID from to requestedBy = (\<lambda>(position, j).
     bind_op (lift_op (parametersForJob sha j from to)) (\<lambda>parameters.
     bind_op (insertRun KindRunAllChild (Some parentID) (Some position) (jd_Key j) StatusPlanned
                parameters TriggerRunAll (nat_string parentID) requestedBy) (\<lambda>_. ret_op ())))"

definition numbered_jobs :: "Catalog \<Rightarrow> (16 word \<times> JobDefinition) list" where
  "numbered_jobs catalog =
     map (\<lambda>(index, j). (of_nat (index + 1), j)) (List.enumerate 0 (Jobs catalog))"

definition createRunAll :: "(string \<Rightarrow> hash) \<Rightarrow> Catalog \<Rightarrow> string result \<Rightarrow> CalendarDate \<Rightarrow> CalendarDate \<Rightarrow>
    Trigger \<Rightarrow> string \<Rightarrow> rowid option \<Rightarrow> Requester option \<Rightarrow> ('a run_db_scheme, rowid) op" where
  "createRunAll sha catalog newOwner from to trigger reference requestedBy auditRequester =
     bind_op (lift_op (NewRunAllRange sha from to)) (\<lambda>parentParameters.
     tx_attempt (
       bind_op (insertRun KindRunAllParent None None [] StatusRunning parentParameters trigger
                  reference requestedBy) (\<lambda>parentID.
       bind_op (lift_op newOwner) (\<lambda>parentOwner.
       bind_op (update_runs (\<lambda>t r. r_id r = parentID \<and> r_status r = StatusRunning)
                  (\<lambda>t r. r\<lparr>r_owner := Some parentOwner, r_claimed := Some t, r_heartbeat := Some t,
                          r_started := Some t\<rparr>)) (\<lambda>_.
       bind_op (for_each (numbered_jobs catalog) (insert_child sha parentID from to requestedBy)) (\<lambda>_.
       bind_op (case auditRequester of
                  None \<Rightarrow> ret_op ()
                | Some r \<Rightarrow> appendRunAudit r ''ingestion.run_all_submitted'' parentID
                    (Some (JObj [(''from'', JStr (date_String from)), (''to'', JStr (date_String to))]))) (\<lambda>_.
       ret_op parentID)))))))"

definition CreateRunAll :: "(string \<Rightarrow> hash) \<Rightarrow> Catalog \<Rightarrow> string result \<Rightarrow> CalendarDate \<Rightarrow> CalendarDate \<Rightarrow>
    Trigger \<Rightarrow> string \<Rightarrow> rowid option \<Rightarrow> ('a run_db_scheme, rowid) op" where
  "CreateRunAll sha catalog newOwner from to trigger reference requester =
     createRunAll sha catalog newOwner from to trigger reference requester None"

definition CreateRunAllManual :: "(string \<Rightarrow> hash) \<Rightarrow> Catalog \<Rightarrow> string result \<Rightarrow> CalendarDate \<Rightarrow>
    CalendarDate \<Rightarrow> Trigger \<Rightarrow> string \<Rightarrow> Requester \<Rightarrow> ('a run_db_scheme, rowid) op" where
  "CreateRunAllManual sha catalog newOwner from to trigger reference requester =
     createRunAll sha catalog newOwner from to trigger reference (Some (id_UserID (rq_Actor requester)))
       (Some requester)"

section \<open>Claim and heartbeat\<close>

definition claim_row :: "string \<Rightarrow> time \<Rightarrow> run_row \<Rightarrow> run_row" where
  "claim_row ownerID t r = r\<lparr>r_status := StatusRunning, r_owner := Some ownerID, r_claimed := Some t,
     r_heartbeat := Some t, r_started := (case r_started r of None \<Rightarrow> Some t | Some s \<Rightarrow> Some s)\<rparr>"

definition select_queued :: "('a run_db_scheme, rowid) op" where
  "select_queued = query_skip (\<lambda>locks t d.
     case sql_first_by (\<lambda>r. (r_created r, r_id r))
            (filter (\<lambda>r. executable_kind (r_kind r) \<and> r_status r = StatusQueued \<and> \<not> locks (r_id r)) (runs d)) of
       None \<Rightarrow> Inl ErrNoRows
     | Some r \<Rightarrow> Inr (r_id r))"

text \<open>\<open>claim_work\<close> is the body of the transaction of \<open>Claim\<close>.\<close>

definition claim_work :: "(string \<Rightarrow> bool) \<Rightarrow> string \<Rightarrow> ('a run_db_scheme, Run option tx_end) op" where
  "claim_work allowed ownerID =
     bind_op select_settings (\<lambda>s.
     let limit = rs_MaxRunningJobs s
     in if \<not> ValidRuntimeLimit limit then fail_op (ErrMsg ''invalid ingestion max_running_jobs'')
     else bind_op runningJobs (\<lambda>running.
     if int running \<ge> limit then ret_op (Rollback None)
     else bind_op (try_op select_queued) (\<lambda>selected.
     case selected of
       Inl x \<Rightarrow> if x = ErrNoRows then ret_op (Rollback None) else fail_op x
     | Inr i \<Rightarrow>
         bind_op (update_runs (\<lambda>t r. r_id r = i \<and> r_status r = StatusQueued) (claim_row ownerID)) (\<lambda>affected.
         if affected \<noteq> 1 then fail_op ErrTransition
         else bind_op (getRun allowed i) (\<lambda>run. ret_op (Commit (Some run)))))))"

definition Claim :: "(string \<Rightarrow> bool) \<Rightarrow> string \<Rightarrow> ('a run_db_scheme, Run option) op" where
  "Claim allowed ownerID =
     (if length ownerID \<noteq> 64 then fail_op (ErrMsg ''opaque owner identity is required'')
      else tx_body (claim_work allowed ownerID))"

record HeartbeatResult =
  hb_Owned :: bool
  hb_CancelRequested :: bool

definition owned_row :: "rowid \<Rightarrow> string \<Rightarrow> run_row \<Rightarrow> bool" where
  "owned_row runID ownerID r = (r_id r = runID \<and> r_status r = StatusRunning \<and> r_owner r = Some ownerID)"

definition select_cancelled :: "rowid \<Rightarrow> string \<Rightarrow> ('a run_db_scheme, bool) op" where
  "select_cancelled runID ownerID = query (\<lambda>t d.
     case filter (owned_row runID ownerID) (runs d) of
       [] \<Rightarrow> Inl ErrNoRows
     | r # _ \<Rightarrow> Inr (r_cancel_at r \<noteq> None))"

definition Heartbeat :: "rowid \<Rightarrow> string \<Rightarrow> ('a run_db_scheme, HeartbeatResult) op" where
  "Heartbeat runID ownerID =
     bind_op (replay_exec (update_runs
        (\<lambda>t r. owned_row runID ownerID r \<and> executable_kind (r_kind r)) (\<lambda>t r. r\<lparr>r_heartbeat := Some t\<rparr>))) (\<lambda>_.
     bind_op (try_op (select_cancelled runID ownerID)) (\<lambda>r.
     case r of
       Inl x \<Rightarrow> if x = ErrNoRows then ret_op \<lparr>hb_Owned = False, hb_CancelRequested = False\<rparr> else fail_op x
     | Inr cancelled \<Rightarrow> ret_op \<lparr>hb_Owned = True, hb_CancelRequested = cancelled\<rparr>))"

definition select_owned :: "rowid \<Rightarrow> string \<Rightarrow> ('a run_db_scheme, bool) op" where
  "select_owned runID ownerID = query (\<lambda>t d. Inr (list_ex (owned_row runID ownerID) (runs d)))"

definition progress_row :: "Progress \<Rightarrow> MapperDiagnostics option \<Rightarrow> time \<Rightarrow> run_row \<Rightarrow> run_row" where
  "progress_row p encoded t r = r\<lparr>r_total := pg_Total p, r_begun := pg_Started p,
     r_succeeded := pg_Succeeded p, r_failed := pg_Failed p, r_rows := pg_Rows p,
     r_step := nullable (pg_Step p),
     r_diagnostics := (case encoded of None \<Rightarrow> r_diagnostics r | Some d \<Rightarrow> Some d)\<rparr>"

definition UpdateProgress :: "(string \<Rightarrow> bool) \<Rightarrow> rowid \<Rightarrow> string \<Rightarrow> Progress \<Rightarrow>
    MapperDiagnostics option \<Rightarrow> ('a run_db_scheme, unit) op" where
  "UpdateProgress allowed runID ownerID progress diagnostics =
     bind_op (case diagnostics of
                None \<Rightarrow> ret_op None
              | Some d \<Rightarrow> bind_op (lift_op (Marshal_diagnostics allowed d)) (\<lambda>data. ret_op (Some data))) (\<lambda>encoded.
     bind_op (replay_exec (update_runs (\<lambda>t. owned_row runID ownerID) (progress_row progress encoded))) (\<lambda>affected.
     if affected \<noteq> 1 then
       bind_op (select_owned runID ownerID) (\<lambda>owned.
         if \<not> owned then fail_op ErrOwnershipLost else ret_op ())
     else ret_op ()))"

text \<open>The DATE column takes the text of the date and fails on a text that is no date.\<close>

definition FreezeSnapshotDate ::
    "rowid \<Rightarrow> string \<Rightarrow> CalendarDate \<Rightarrow> ('a run_db_scheme, unit) op" where
  "FreezeSnapshotDate runID ownerID date =
     (if IsZero date then fail_op (ErrMsg ''snapshot date is required'')
      else bind_op (case ParseCalendarDate (date_String date) of
                      Inl _ \<Rightarrow> fail_op (ErrMySQL 1292)
                    | Inr stored \<Rightarrow> replay_exec (update_runs
                        (\<lambda>t r. owned_row runID ownerID r \<and> r_snapshot r = None)
                        (\<lambda>t r. r\<lparr>r_snapshot := Some stored\<rparr>))) (\<lambda>affected.
      if affected \<noteq> 1 then fail_op ErrOwnershipLost else ret_op ()))"

section \<open>Terminal transitions\<close>

record SafeError =
  se_Class :: string
  se_Message :: string
  se_Step :: string

definition finish_where :: "rowid \<Rightarrow> string \<Rightarrow> Status \<Rightarrow> run_row \<Rightarrow> bool" where
  "finish_where runID ownerID status r =
     (owned_row runID ownerID r \<and> (status = StatusSucceeded \<longrightarrow> r_cancel_at r = None))"

definition finish_row :: "Status \<Rightarrow> SafeError \<Rightarrow> time \<Rightarrow> run_row \<Rightarrow> run_row" where
  "finish_row status safeError t r = r\<lparr>r_status := status, r_error_class := nullable (se_Class safeError),
     r_error_message := nullable (se_Message safeError), r_error_step := nullable (se_Step safeError),
     r_finished := Some t\<rparr>"

definition Finish :: "rowid \<Rightarrow> string \<Rightarrow> Status \<Rightarrow> SafeError \<Rightarrow> ('a run_db_scheme, unit) op" where
  "Finish runID ownerID status safeError =
     (if status \<noteq> StatusSucceeded \<and> status \<noteq> StatusFailed \<and> status \<noteq> StatusCancelled
      then fail_op (ErrMsg ''invalid executable terminal status'')
      else bind_op (replay_exec (update_runs (\<lambda>t. finish_where runID ownerID status)
                                   (finish_row status safeError))) (\<lambda>affected.
           if affected \<noteq> 1 then fail_op ErrTransition else ret_op ()))"

definition finish :: "rowid \<Rightarrow> string \<Rightarrow> Status \<Rightarrow> SafeError \<Rightarrow> ('a run_db_scheme, unit) op" where
  "finish runID ownerID status safeError =
     bind_op (update_runs (\<lambda>t. finish_where runID ownerID status) (finish_row status safeError)) (\<lambda>affected.
     if affected \<noteq> 1 then fail_op ErrTransition else ret_op ())"

definition FinishSucceededInTx :: "rowid \<Rightarrow> string \<Rightarrow> ('a run_db_scheme, unit) op" where
  "FinishSucceededInTx runID ownerID =
     finish runID ownerID StatusSucceeded \<lparr>se_Class = [], se_Message = [], se_Step = []\<rparr>"

section \<open>Recovery\<close>

record Recovery =
  rc_RunID :: rowid
  rc_ParentRunID :: rowid
  rc_Kind :: Kind
  rc_JobKey :: string
  rc_PreviousOwner :: string
  rc_PreviousHeartbeat :: time
  rc_NewOwner :: string

text \<open>The loops of \<open>ensureRunAllChildren\<close>: the identities of the existing children are checked
  against the catalog, then the missing positions are inserted.\<close>

fun index_children :: "JobDefinition list \<Rightarrow> (16 word \<times> string) list \<Rightarrow>
    (16 word \<Rightarrow> string option) \<times> (string \<Rightarrow> 16 word option) \<Rightarrow>
    ((16 word \<Rightarrow> string option) \<times> (string \<Rightarrow> 16 word option)) result" where
  "index_children jobs [] maps = Inr maps"
| "index_children jobs ((position, jobKey) # children) (byPosition, byJob) =
     (if position = 0 \<or> unat position > length jobs \<or> jd_Key (jobs ! (unat position - 1)) \<noteq> jobKey
      then Inl (ErrMsg ''Run All child identity is not canonical'')
      else index_children jobs children (byPosition(position \<mapsto> jobKey), byJob(jobKey \<mapsto> position)))"

definition ensure_child :: "(string \<Rightarrow> hash) \<Rightarrow> rowid \<Rightarrow> Range \<Rightarrow> rowid option \<Rightarrow>
    (16 word \<Rightarrow> string option) \<Rightarrow> (string \<Rightarrow> 16 word option) \<Rightarrow> 16 word \<times> JobDefinition \<Rightarrow>
    ('a run_db_scheme, unit) op" where
  "ensure_child sha parentID value requester byPosition byJob = (\<lambda>(position, j).
     if (case byPosition position of None \<Rightarrow> False | Some k \<Rightarrow> k \<noteq> jd_Key j)
     then fail_op (ErrMsg ''Run All child position is taken'')
     else if (case byJob (jd_Key j) of None \<Rightarrow> False | Some n \<Rightarrow> n \<noteq> position)
     then fail_op (ErrMsg ''Run All child has another position'')
     else if byPosition position = Some (jd_Key j) then ret_op ()
     else insert_child sha parentID (rg_From value) (rg_To value) requester (position, j))"

definition select_children :: "rowid \<Rightarrow> ('a run_db_scheme, (16 word \<times> string) list) op" where
  "select_children parentID = query (\<lambda>t d.
     Inr (map (\<lambda>r. (case r_position r of None \<Rightarrow> 0 | Some n \<Rightarrow> n, or_empty (r_job r)))
       (filter (\<lambda>r. r_parent r = Some parentID) (runs d))))"

definition ensureRunAllChildren :: "(string \<Rightarrow> hash) \<Rightarrow> (string \<Rightarrow> bool) \<Rightarrow> Catalog \<Rightarrow> rowid \<Rightarrow>
    ('a run_db_scheme, unit) op" where
  "ensureRunAllChildren sha allowed catalog parentID =
     bind_op (getRun allowed parentID) (\<lambda>parent.
     bind_op (lift_op (DecodeRange (run_Parameters parent))) (\<lambda>value.
     bind_op (select_children parentID) (\<lambda>existing.
     bind_op (lift_op (index_children (Jobs catalog) existing (Map.empty, Map.empty))) (\<lambda>(byPosition, byJob).
     for_each (numbered_jobs catalog)
       (ensure_child sha parentID value (run_RequestedByUserID parent) byPosition byJob)))))"

definition stale_row :: "time \<Rightarrow> time \<Rightarrow> run_row \<Rightarrow> bool" where
  "stale_row lease t r = (case r_heartbeat r of None \<Rightarrow> False | Some h \<Rightarrow> h < t - lease)"

definition select_stale :: "time \<Rightarrow> ('a run_db_scheme, run_row) op" where
  "select_stale lease = query (\<lambda>t d.
     case sql_first_by (\<lambda>r. (the (r_heartbeat r), r_id r))
            (filter (\<lambda>r. r_status r = StatusRunning \<and> r_owner r \<noteq> None \<and> stale_row lease t r) (runs d)) of
       None \<Rightarrow> Inl ErrNoRows
     | Some r \<Rightarrow> Inr r)"

definition abandon_row :: "string \<Rightarrow> string option \<Rightarrow> time \<Rightarrow> run_row \<Rightarrow> run_row" where
  "abandon_row message step t r = r\<lparr>r_status := StatusAbandoned, r_error_class := Some ''abandoned'',
     r_error_message := Some message, r_error_step := (case step of None \<Rightarrow> r_error_step r | Some s \<Rightarrow> Some s),
     r_abandoned_owner := r_owner r, r_abandoned_heartbeat := r_heartbeat r, r_finished := Some t\<rparr>"

definition stale_message :: string where
  "stale_message = ''Worker ownership expired; stale execution recovered automatically.''"

definition candidate_recovery :: "run_row \<Rightarrow> string \<Rightarrow> Recovery" where
  "candidate_recovery c newOwner =
     \<lparr>rc_RunID = r_id c, rc_ParentRunID = (case r_parent c of None \<Rightarrow> 0 | Some p \<Rightarrow> p), rc_Kind = r_kind c,
      rc_JobKey = or_empty (r_job c), rc_PreviousOwner = the (r_owner c),
      rc_PreviousHeartbeat = the (r_heartbeat c), rc_NewOwner = newOwner\<rparr>"

definition same_lease :: "run_row \<Rightarrow> run_row \<Rightarrow> bool" where
  "same_lease c r = (r_id r = r_id c \<and> r_status r = StatusRunning \<and> r_owner r = r_owner c \<and>
     r_heartbeat r = r_heartbeat c)"

text \<open>One transaction of the sweep: the recovery, if one was made, and \<open>candidateSeen\<close>.\<close>

definition recover_once :: "(string \<Rightarrow> hash) \<Rightarrow> (string \<Rightarrow> bool) \<Rightarrow> Catalog \<Rightarrow> time \<Rightarrow> string \<Rightarrow>
    ('a run_db_scheme, Recovery option \<times> bool) op" where
  "recover_once sha allowed catalog lease replacementOwner =
     bind_op (try_op (select_stale lease)) (\<lambda>selected.
     case selected of
       Inl x \<Rightarrow> if x = ErrNoRows then ret_op (None, False) else fail_op x
     | Inr c \<Rightarrow>
         if r_kind c = KindRunAllParent then
           bind_op (update_runs
             (\<lambda>t r. same_lease c r \<and> r_kind r = KindRunAllParent \<and> stale_row lease t r)
             (\<lambda>t r. r\<lparr>r_owner := Some replacementOwner, r_claimed := Some t, r_heartbeat := Some t\<rparr>)) (\<lambda>affected.
           if affected \<noteq> 1 then ret_op (None, True)
           else bind_op (ensureRunAllChildren sha allowed catalog (r_id c)) (\<lambda>_.
                ret_op (Some (candidate_recovery c replacementOwner), True)))
         else
           bind_op (update_runs (\<lambda>t r. same_lease c r \<and> stale_row lease t r)
             (abandon_row stale_message (Some ''ownership_lease''))) (\<lambda>affected.
           if affected \<noteq> 1 then ret_op (None, True)
           else ret_op (Some (candidate_recovery c []), True)))"

partial_function (option) recover_loop :: "(string \<Rightarrow> hash) \<Rightarrow> (string \<Rightarrow> bool) \<Rightarrow> Catalog \<Rightarrow> time \<Rightarrow>
    string \<Rightarrow> ('a run_db_scheme) env \<Rightarrow> (Recovery option result \<times> ('a run_db_scheme) env) option" where
  "recover_loop sha allowed catalog lease replacementOwner e =
     (case replay_tx (recover_once sha allowed catalog lease replacementOwner) e of
        (Inl x, e') \<Rightarrow> Some (Inl x, e')
      | (Inr (recovered, candidateSeen), e') \<Rightarrow>
          if recovered \<noteq> None \<or> \<not> candidateSeen then Some (Inr recovered, e')
          else recover_loop sha allowed catalog lease replacementOwner e')"

definition RecoverOneStale :: "(string \<Rightarrow> hash) \<Rightarrow> (string \<Rightarrow> bool) \<Rightarrow> Catalog \<Rightarrow> time \<Rightarrow> string \<Rightarrow>
    ('a run_db_scheme, Recovery option) op" where
  "RecoverOneStale sha allowed catalog lease replacementOwner e =
     (if lease \<le> 0 \<or> length replacementOwner \<noteq> 64
      then (Inl (ErrMsg ''lease and replacement owner are required''), e)
      else (case recover_loop sha allowed catalog lease replacementOwner e of
         None \<Rightarrow> (Inl ErrDiverge, e)
       | Some r \<Rightarrow> r))"

definition RecoverAbandoned ::
    "rowid \<Rightarrow> string \<Rightarrow> time \<Rightarrow> string \<Rightarrow> Requester \<Rightarrow> ('a run_db_scheme, unit) op" where
  "RecoverAbandoned runID expectedOwner expectedHeartbeat reason0 requester =
     (let reason = safeText reason0 500
      in if expectedOwner = [] \<or> expectedHeartbeat = go_zero_time \<or> reason = []
         then fail_op (ErrMsg ''exact owner, heartbeat, and recovery reason are required'')
         else replay_tx (
           bind_op (update_runs
             (\<lambda>t r. owned_row runID expectedOwner r \<and> r_heartbeat r = Some expectedHeartbeat)
             (abandon_row reason None)) (\<lambda>affected.
           if affected \<noteq> 1 then fail_op ErrTransition
           else appendRunAudit requester ''ingestion.abandoned_recovered'' runID None)))"

section \<open>Cancellation\<close>

definition mark_cancel :: "string \<Rightarrow> time \<Rightarrow> run_row \<Rightarrow> run_row" where
  "mark_cancel reason t r = r\<lparr>r_cancel_at := Some t, r_cancel_reason := nullable reason\<rparr>"

definition cancel_row :: "string \<Rightarrow> time \<Rightarrow> run_row \<Rightarrow> run_row" where
  "cancel_row reason t r = (mark_cancel reason t r)\<lparr>r_status := StatusCancelled, r_finished := Some t\<rparr>"

definition RequestCancellation ::
    "rowid \<Rightarrow> string \<Rightarrow> Requester \<Rightarrow> ('a run_db_scheme, bool) op" where
  "RequestCancellation runID reason0 requester =
     (let reason = safeText reason0 255
      in replay_tx (
         bind_op (get_run_row runID) (\<lambda>row.
         if IsTerminal (r_status row) then ret_op False
         else bind_op (
           if r_kind row = KindRunAllParent then
             bind_op (update_runs (\<lambda>t r. r_id r = runID) (mark_cancel reason)) (\<lambda>_.
             bind_op (update_runs (\<lambda>t r. r_parent r = Some runID \<and>
                         (r_status r = StatusPlanned \<or> r_status r = StatusQueued)) (cancel_row reason)) (\<lambda>_.
             update_runs (\<lambda>t r. r_parent r = Some runID \<and> r_status r = StatusRunning) (mark_cancel reason)))
           else if r_status row = StatusPlanned \<or> r_status row = StatusQueued then
             update_runs (\<lambda>t r. r_id r = runID) (cancel_row reason)
           else update_runs (\<lambda>t r. r_id r = runID) (mark_cancel reason)) (\<lambda>_.
         bind_op (appendRunAudit requester ''ingestion.cancellation_requested'' runID None) (\<lambda>_.
         ret_op True)))))"

section \<open>Reconciliation of Run All parents\<close>

definition active_child :: "rowid \<Rightarrow> run_row \<Rightarrow> bool" where
  "active_child parentID r = (r_parent r = Some parentID \<and>
     (r_status r = StatusQueued \<or> r_status r = StatusRunning))"

definition select_parent :: "rowid \<Rightarrow> string \<Rightarrow> ('a run_db_scheme, run_row) op" where
  "select_parent exactID exactOwner = query_skip (\<lambda>locks t d.
     case (if exactID \<noteq> 0
           then (case filter (\<lambda>r. owned_row exactID exactOwner r \<and> r_kind r = KindRunAllParent) (runs d) of
                   [] \<Rightarrow> None | r # _ \<Rightarrow> Some r)
           else sql_first_by r_id (filter (\<lambda>r. r_kind r = KindRunAllParent \<and> r_status r = StatusRunning \<and>
                  \<not> list_ex (active_child (r_id r)) (runs d) \<and> \<not> locks (r_id r)) (runs d))) of
       None \<Rightarrow> Inl ErrNoRows
     | Some r \<Rightarrow> Inr r)"

definition count_active :: "rowid \<Rightarrow> ('a run_db_scheme, nat) op" where
  "count_active parentID = query (\<lambda>t d. Inr (sql_count (active_child parentID) (runs d)))"

definition child_count :: "rowid \<Rightarrow> Status \<Rightarrow> run_row list \<Rightarrow> nat" where
  "child_count parentID status rows = sql_count (\<lambda>r. r_parent r = Some parentID \<and> r_status r = status) rows"

definition aggregateParentStatus :: "rowid \<Rightarrow> ('a run_db_scheme, Status) op" where
  "aggregateParentStatus parentID = query (\<lambda>t d.
     let counts = (\<lambda>status. child_count parentID status (runs d))
     in Inr (if counts StatusFailed + counts StatusCancelled + counts StatusAbandoned > 0 then StatusFailed
             else if counts StatusSkipped > 0 then StatusCompletedWithSkips
             else StatusCompleted))"

definition close_row :: "Status \<Rightarrow> time \<Rightarrow> run_row \<Rightarrow> run_row" where
  "close_row status t r = r\<lparr>r_status := status, r_finished := Some t\<rparr>"

definition skip_row :: "string \<Rightarrow> time \<Rightarrow> run_row \<Rightarrow> run_row" where
  "skip_row reason t r =
     r\<lparr>r_status := StatusSkipped, r_skip_reason := Some reason, r_finished := Some t\<rparr>"

definition select_planned :: "rowid \<Rightarrow> ('a run_db_scheme, run_row) op" where
  "select_planned parentID = query (\<lambda>t d.
     case sql_first_by (\<lambda>r. the (r_position r))
            (filter (\<lambda>r. r_parent r = Some parentID \<and> r_status r = StatusPlanned) (runs d)) of
       None \<Rightarrow> Inl ErrNoRows
     | Some r \<Rightarrow> Inr r)"

definition start_child :: "run_row \<Rightarrow> ('a run_db_scheme, bool) op" where
  "start_child child =
     bind_op (sourceEnabled (or_empty (r_job child))) (\<lambda>enabled.
     if \<not> enabled then
       bind_op (update_runs (\<lambda>t r. r_id r = r_id child) (skip_row ''source_disabled'')) (\<lambda>_. ret_op True)
     else
       bind_op (try_op (update_runs (\<lambda>t r. r_id r = r_id child \<and> r_status r = StatusPlanned)
                          (\<lambda>t r. r\<lparr>r_status := StatusQueued\<rparr>))) (\<lambda>result.
       case result of
         Inl x \<Rightarrow>
           if duplicate x then
             bind_op (update_runs (\<lambda>t r. r_id r = r_id child) (skip_row ''job_busy'')) (\<lambda>_. ret_op True)
           else fail_op x
       | Inr _ \<Rightarrow> ret_op True))"

text \<open>The tail of \<open>reconcileParentTransaction\<close>, once no child is active.\<close>

definition finish_parent :: "rowid \<Rightarrow> string \<Rightarrow> ('a run_db_scheme, bool) op" where
  "finish_parent parentID owner =
     bind_op (aggregateParentStatus parentID) (\<lambda>status.
     bind_op (update_runs (\<lambda>t. owned_row parentID owner) (close_row status)) (\<lambda>_. ret_op True))"

definition advance_parent :: "rowid \<Rightarrow> string \<Rightarrow> bool \<Rightarrow> ('a run_db_scheme, bool) op" where
  "advance_parent parentID owner cancelled =
     (if cancelled then
        bind_op (update_runs (\<lambda>t. owned_row parentID owner) (close_row StatusCancelled)) (\<lambda>_. ret_op True)
      else bind_op (try_op (select_planned parentID)) (\<lambda>planned.
        case planned of
          Inl x \<Rightarrow> if x = ErrNoRows then finish_parent parentID owner else fail_op x
        | Inr child \<Rightarrow> start_child child))"

definition reconcileParentTransaction :: "rowid \<Rightarrow> string \<Rightarrow> ('a run_db_scheme, bool) op" where
  "reconcileParentTransaction exactID exactOwner =
     bind_op (try_op (select_parent exactID exactOwner)) (\<lambda>selected.
     case selected of
       Inl x \<Rightarrow>
         if x = ErrNoRows then (if exactID \<noteq> 0 then fail_op ErrOwnershipLost else ret_op False)
         else fail_op x
     | Inr parent \<Rightarrow>
         let parentID = r_id parent; owner = or_empty (r_owner parent)
         in if owner = [] then fail_op (ErrMsg ''Run All parent has no owner'')
         else bind_op (update_runs (\<lambda>t. owned_row parentID owner) (\<lambda>t r. r\<lparr>r_heartbeat := Some t\<rparr>)) (\<lambda>_.
         bind_op (get_run_row parentID) (\<lambda>current.
         bind_op (count_active parentID) (\<lambda>active.
         if active > 0 then ret_op False
         else advance_parent parentID owner (r_cancel_at current \<noteq> None)))))"

definition reconcileParent :: "rowid \<Rightarrow> string \<Rightarrow> ('a run_db_scheme, bool) op" where
  "reconcileParent exactID exactOwner = replay_tx (reconcileParentTransaction exactID exactOwner)"

definition ReconcileOneParent :: "('a run_db_scheme, bool) op" where
  "ReconcileOneParent = reconcileParent 0 []"

definition ReconcileParent :: "rowid \<Rightarrow> string \<Rightarrow> ('a run_db_scheme, bool) op" where
  "ReconcileParent parentID ownerID =
     (if parentID = 0 \<or> length ownerID \<noteq> 64 then fail_op (ErrMsg ''exact Run All parent ownership is required'')
      else reconcileParent parentID ownerID)"

end
