(* ===== verification/Run_Safety.thy ===== *)
theory Run_Safety
  imports Run_Store
begin

text \<open>
  Safety of the run store. \<open>row_step\<close> is what may happen to one run, \<open>run_inv\<close> the invariant of the
  table: unique identifiers, the keys and checks of the schema, and at most one active child per
  Run All parent. The locale \<open>step_relation\<close> of \<open>Store_Op\<close> is interpreted on the pair of them, so each
  operation is shown safe from its statements; \<open>run_step\<close> is the transition system of all exported
  operations, under any schedule of calls and any pattern of failures.
\<close>

section \<open>What may happen to a run\<close>

definition may_become :: "Status \<Rightarrow> Status \<Rightarrow> bool" where
  "may_become s s' =
     (case s of
        StatusPlanned \<Rightarrow> True
      | StatusQueued \<Rightarrow> s' \<noteq> StatusPlanned \<and> s' \<noteq> StatusSkipped
      | StatusRunning \<Rightarrow> s' \<noteq> StatusPlanned \<and> s' \<noteq> StatusQueued \<and> s' \<noteq> StatusSkipped
      | _ \<Rightarrow> s' = s)"

definition same_identity :: "run_row \<Rightarrow> run_row \<Rightarrow> bool" where
  "same_identity r r' \<longleftrightarrow>
     r_id r' = r_id r \<and> r_kind r' = r_kind r \<and> r_parent r' = r_parent r \<and> r_position r' = r_position r \<and>
     r_job r' = r_job r \<and> r_params r' = r_params r \<and> r_trigger r' = r_trigger r \<and>
     r_reference r' = r_reference r \<and> r_requester r' = r_requester r \<and> r_created r' = r_created r"

definition row_step :: "run_row \<Rightarrow> run_row \<Rightarrow> bool" where
  "row_step r r' \<longleftrightarrow>
     same_identity r r' \<and> may_become (r_status r) (r_status r') \<and>
     (IsTerminal (r_status r) \<longrightarrow> r' = r) \<and>
     (IsTerminal (r_status r') \<longrightarrow> IsTerminal (r_status r) \<or> r_finished r' \<noteq> None) \<and>
     (r_cancel_at r \<noteq> None \<longrightarrow> r_cancel_at r' \<noteq> None) \<and>
     (r_status r' = StatusSucceeded \<longrightarrow> r_status r = StatusSucceeded \<or> r_cancel_at r = None) \<and>
     (r_snapshot r \<noteq> None \<longrightarrow> r_snapshot r' = r_snapshot r)"

definition evolves :: "run_row list \<Rightarrow> run_row list \<Rightarrow> bool" where
  "evolves rows rows' \<longleftrightarrow>
     length rows \<le> length rows' \<and> (\<forall>i < length rows. row_step (rows ! i) (rows' ! i))"

definition serial :: "run_row list \<Rightarrow> bool" where
  "serial rows \<longleftrightarrow> (\<forall>p. sql_count (active_child p) rows \<le> 1)"

definition run_inv :: "'a run_db_scheme \<Rightarrow> bool" where
  "run_inv d \<longleftrightarrow> distinct (map r_id (runs d)) \<and> run_keys_ok (runs d) \<and>
     list_all (\<lambda>r. run_shape_ok r \<and> run_progress_ok r) (runs d) \<and> serial (runs d)"

definition run_safe :: "'a run_db_scheme \<Rightarrow> 'a run_db_scheme \<Rightarrow> bool" where
  "run_safe d d' \<longleftrightarrow> (run_inv d \<longrightarrow> run_inv d' \<and> evolves (runs d) (runs d'))"

lemma may_become_refl [simp]: "may_become s s"
  by (cases s) (simp_all add: may_become_def)

lemma may_become_trans: "may_become s s' \<Longrightarrow> may_become s' s'' \<Longrightarrow> may_become s s''"
  by (cases s; cases s'; cases s'') (simp_all add: may_become_def)

lemma row_step_refl [simp]: "row_step r r"
  by (auto simp: row_step_def same_identity_def)

lemma row_step_trans:
  assumes "row_step r r'" "row_step r' r''"
  shows "row_step r r''"
proof (cases "IsTerminal (r_status r')")
  case True
  then have "r'' = r'" using assms(2) by (simp add: row_step_def)
  then show ?thesis using assms(1) by simp
next
  case False
  then have "\<not> IsTerminal (r_status r)" using assms(1) by (auto simp: row_step_def)
  with False assms show ?thesis
    unfolding row_step_def same_identity_def
    by (intro conjI impI) (auto intro: may_become_trans)
qed

lemma evolves_refl [simp]: "evolves rows rows"
  by (simp add: evolves_def)

lemma evolves_trans: "evolves a b \<Longrightarrow> evolves b c \<Longrightarrow> evolves a c"
  unfolding evolves_def by (meson dual_order.trans less_le_trans row_step_trans)

lemma evolves_update:
  assumes "\<And>r. r \<in> set rows \<Longrightarrow> P r \<Longrightarrow> row_step r (f r)"
  shows "evolves rows (sql_update P f rows)"
  using assms by (auto simp: evolves_def sql_update_def)

lemma evolves_append: "evolves rows (rows @ new)"
  by (simp add: evolves_def nth_append)

lemma evolves_member:
  assumes "evolves rows rows'" "r \<in> set rows"
  obtains r' where "r' \<in> set rows'" "row_step r r'"
  using assms unfolding evolves_def in_set_conv_nth by (metis less_le_trans nth_mem)

interpretation run_rel: step_relation "run_safe :: 'a run_db_scheme \<Rightarrow> 'a run_db_scheme \<Rightarrow> bool"
  by unfold_locales (auto simp: run_safe_def intro: evolves_trans)

section \<open>Statements\<close>

lemma write_runs_Inr:
  "write_runs rows d = Inr d' \<longleftrightarrow> list_all (\<lambda>r. run_shape_ok r \<and> run_progress_ok r) rows \<and>
     run_keys_ok rows \<and> d' = d\<lparr>runs := rows\<rparr>"
  by (auto simp: write_runs_def)

lemma row_step_id: "row_step r r' \<Longrightarrow> r_id r' = r_id r"
  by (simp add: row_step_def same_identity_def)

lemma update_runs_Inr:
  "update_runs P f e = (Inr n, e') \<longleftrightarrow>
     fault e (tick e) = None \<and>
     (let t = clock e (tick e); rows = sql_update (P t) (f t) (runs (db e))
      in list_all (\<lambda>r. run_shape_ok r \<and> run_progress_ok r) rows \<and> run_keys_ok rows \<and>
         n = sql_changed (P t) (f t) (runs (db e)) \<and>
         e' = e\<lparr>tick := Suc (tick e), db := (db e)\<lparr>runs := rows\<rparr>\<rparr>)"
  by (auto simp: update_runs_def op_iff Let_def write_runs_def split: sum.splits if_splits)

lemma run_safe_update:
  assumes keys: "run_keys_ok (sql_update P f (runs d))"
    and shape: "list_all (\<lambda>r. run_shape_ok r \<and> run_progress_ok r) (sql_update P f (runs d))"
    and step: "\<And>r. run_inv d \<Longrightarrow> r \<in> set (runs d) \<Longrightarrow> P r \<Longrightarrow> row_step r (f r)"
    and serial: "run_inv d \<Longrightarrow> serial (sql_update P f (runs d))"
  shows "run_safe d (d\<lparr>runs := sql_update P f (runs d)\<rparr>)"
proof -
  have "map r_id (sql_update P f (runs d)) = map r_id (runs d)" if "run_inv d"
    by (rule map_sql_update) (use step [OF that] row_step_id in blast)
  then show ?thesis
    using keys shape serial evolves_update [of "runs d" P f] step
    by (auto simp: run_safe_def run_inv_def)
qed

lemma serial_update:
  assumes "serial rows" "\<And>r p. r \<in> set rows \<Longrightarrow> P r \<Longrightarrow> active_child p (f r) \<Longrightarrow> active_child p r"
  shows "serial (sql_update P f rows)"
  unfolding serial_def
proof
  fix p
  have "sql_count (active_child p) (sql_update P f rows) \<le> sql_count (active_child p) rows"
    by (rule sql_count_update_le) (use assms(2) in blast)
  with assms(1) show "sql_count (active_child p) (sql_update P f rows) \<le> 1"
    by (auto simp: serial_def intro: order_trans)
qed

lemma moves_update:
  assumes "\<And>t r. P t r \<Longrightarrow> row_step r (f t r)"
    and "\<And>t r p. P t r \<Longrightarrow> active_child p (f t r) \<Longrightarrow> active_child p r"
  shows "run_rel.moves (update_runs P f)"
  unfolding update_runs_def
proof (rule run_rel.moves_stmt)
  fix t d a d'
  assume "(case write_runs (sql_update (P t) (f t) (runs d)) d of Inl x \<Rightarrow> Inl x
      | Inr d' \<Rightarrow> Inr (sql_changed (P t) (f t) (runs d), d')) = Inr (a, d')"
  then have w: "write_runs (sql_update (P t) (f t) (runs d)) d = Inr d'" by (auto split: sum.splits)
  show "run_safe d d'"
    using w unfolding write_runs_Inr
    by (elim conjE, hypsubst)
      (rule run_safe_update; use assms serial_update [of "runs d" "P t" "f t"] in \<open>auto simp: run_inv_def\<close>)
qed

lemma moves_replay_update:
  assumes "\<And>t r. P t r \<Longrightarrow> row_step r (f t r)"
    and "\<And>t r p. P t r \<Longrightarrow> active_child p (f t r) \<Longrightarrow> active_child p r"
  shows "run_rel.moves (replay_exec (update_runs P f))"
  unfolding update_runs_def
proof (rule run_rel.moves_retry_stmt)
  fix t d a d'
  assume "(case write_runs (sql_update (P t) (f t) (runs d)) d of Inl x \<Rightarrow> Inl x
      | Inr d' \<Rightarrow> Inr (sql_changed (P t) (f t) (runs d), d')) = Inr (a, d')"
  then have w: "write_runs (sql_update (P t) (f t) (runs d)) d = Inr d'" by (auto split: sum.splits)
  show "run_safe d d'"
    using w unfolding write_runs_Inr
    by (elim conjE, hypsubst)
      (rule run_safe_update; use assms serial_update [of "runs d" "P t" "f t"] in \<open>auto simp: run_inv_def\<close>)
qed

lemma serial_append:
  "serial rows \<Longrightarrow> (\<And>p. \<not> active_child p r) \<Longrightarrow> serial (rows @ [r])"
  by (simp add: serial_def sql_count_def)

lemma moves_insertRun:
  assumes "parent = None \<or> status = StatusPlanned"
  shows "run_rel.moves (insertRun kind parent position jobKey status parameters trigger reference requester)"
  unfolding insertRun_def
proof (rule run_rel.moves_stmt)
  fix t d a d'
  let ?r = "\<lambda>i. new_run kind parent position jobKey status parameters trigger reference requester i t"
  assume "(let i = next_id r_id (runs d) in case write_runs (runs d @ [?r i]) d of Inl x \<Rightarrow> Inl x
      | Inr d' \<Rightarrow> Inr (i, d')) = Inr (a, d')"
  then obtain i where i: "i = next_id r_id (runs d)" and w: "write_runs (runs d @ [?r i]) d = Inr d'"
    by (auto simp: Let_def split: sum.splits)
  have inactive: "\<not> active_child p (?r i)" for p
    using assms by (auto simp: active_child_def new_run_def)
  have fresh: "r_id (?r i) \<notin> r_id ` set (runs d)"
    using next_id_fresh [of _ "runs d" r_id] by (fastforce simp: i new_run_def)
  show "run_safe d d'"
    using w serial_append [of "runs d" "?r i"] inactive fresh
    by (auto simp: write_runs_Inr run_safe_def run_inv_def evolves_append)
qed

section \<open>Operations\<close>

text \<open>Writes to other tables of the store leave the runs alone.\<close>

lemma run_safe_runs: "runs d' = runs d \<Longrightarrow> run_safe d d'"
  by (simp add: run_safe_def run_inv_def)

lemma moves_Append: "run_rel.moves (Append event :: ('a run_db_scheme, unit) op)"
  unfolding Append_def insert_audit_def
  by (intro run_rel.moves_intros run_rel.moves_stmt) (auto intro: run_safe_runs)

lemma moves_appendRunAudit: "run_rel.moves (appendRunAudit requester action i metadata)"
  unfolding appendRunAudit_def by (intro run_rel.moves_intros moves_Append)

lemma moves_update_settings: "run_rel.moves (update_settings target)"
  unfolding update_settings_def
  by (rule run_rel.moves_stmt) (auto intro!: run_safe_runs split: if_splits option.splits)

lemmas query_defs = select_settings_def runningJobs_def find_source_def select_profile_def
  get_run_row_def select_queued_def select_cancelled_def select_owned_def select_children_def
  select_stale_def select_parent_def count_active_def aggregateParentStatus_def select_planned_def

lemmas row_defs = row_step_def same_identity_def may_become_def IsTerminal_def owned_row_def
  finish_where_def finish_row_def claim_row_def progress_row_def abandon_row_def close_row_def
  same_lease_def active_child_def

lemma moves_runtimeSettings: "run_rel.moves runtimeSettings"
  unfolding runtimeSettings_def query_defs by (intro run_rel.moves_intros)

lemma moves_UpdateRuntimeSettings: "run_rel.moves (UpdateRuntimeSettings expected target requester)"
  unfolding UpdateRuntimeSettings_def
  by (intro run_rel.moves_intros moves_runtimeSettings moves_update_settings moves_Append)

lemma moves_submitInTx:
  "run_rel.moves (submitInTx sha catalog jobKey parameters trigger reference requester requireAuth)"
  unfolding submitInTx_def sourceReady_def sourceEnabled_def query_defs
  by (intro run_rel.moves_intros moves_insertRun) simp_all

lemma moves_submit:
  "run_rel.moves (submit sha catalog jobKey parameters trigger reference requestedBy audit requireAuth)"
  unfolding submit_def by (intro run_rel.moves_intros moves_submitInTx moves_appendRunAudit)

lemma moves_insert_child: "run_rel.moves (insert_child sha parentID from to requestedBy c)"
  unfolding insert_child_def by (intro run_rel.moves_intros moves_insertRun) simp_all

lemma moves_createRunAll:
  "run_rel.moves (createRunAll sha catalog newOwner from to trigger reference requestedBy audit)"
  unfolding createRunAll_def
  by (intro run_rel.moves_intros moves_insertRun moves_insert_child moves_appendRunAudit moves_update)
    (auto simp: row_defs)

lemma moves_Claim: "run_rel.moves (Claim allowed ownerID)"
  unfolding Claim_def claim_work_def getRun_def query_defs
  by (intro run_rel.moves_intros moves_update) (auto simp: row_defs)

lemma moves_Heartbeat: "run_rel.moves (Heartbeat runID ownerID)"
  unfolding Heartbeat_def query_defs
  by (intro run_rel.moves_intros moves_replay_update) (auto simp: row_defs)

lemma moves_UpdateProgress: "run_rel.moves (UpdateProgress allowed runID ownerID progress diagnostics)"
  unfolding UpdateProgress_def query_defs
  by (intro run_rel.moves_intros moves_replay_update) (auto simp: row_defs)

lemma moves_FreezeSnapshotDate: "run_rel.moves (FreezeSnapshotDate runID ownerID date)"
  unfolding FreezeSnapshotDate_def
  by (intro run_rel.moves_intros moves_replay_update) (auto simp: row_defs)

lemma moves_Finish: "run_rel.moves (Finish runID ownerID status safeError)"
  unfolding Finish_def
  by (intro run_rel.moves_intros moves_replay_update) (auto simp: row_defs)

lemma moves_FinishSucceededInTx: "run_rel.moves (FinishSucceededInTx runID ownerID)"
  unfolding FinishSucceededInTx_def finish_def
  by (intro run_rel.moves_intros moves_update) (auto simp: row_defs)

lemma moves_RecoverAbandoned: "run_rel.moves (RecoverAbandoned runID owner heartbeat reason requester)"
  unfolding RecoverAbandoned_def
  by (intro run_rel.moves_intros moves_update moves_appendRunAudit) (auto simp: row_defs)

lemma moves_ensure: "run_rel.moves (ensureRunAllChildren sha allowed catalog parentID)"
  unfolding ensureRunAllChildren_def getRun_def ensure_child_def query_defs
  by (intro run_rel.moves_intros moves_insert_child)

lemma moves_recover_once: "run_rel.moves (recover_once sha allowed catalog lease owner)"
  unfolding recover_once_def
  by (intro run_rel.moves_intros moves_update moves_ensure) (auto simp: row_defs query_defs run_rel.moves_query)

section \<open>Updates of a row read before\<close>

lemma filter_hdD: "filter P xs = y # ys \<Longrightarrow> y \<in> set xs \<and> P y"
  by (metis (no_types, lifting) list.set_intros(1) mem_Collect_eq set_filter)

lemma get_run_row_Inr:
  "get_run_row i e = (Inr row, e1) \<Longrightarrow> db e1 = db e \<and> row \<in> set (runs (db e)) \<and> r_id row = i"
  by (auto simp: get_run_row_def op_iff split: list.splits dest!: filter_hdD)

lemma run_safe_known:
  assumes run: "update_runs (\<lambda>t r. r_id r = r_id row) f e = (Inr n, e')" and row: "row \<in> set (runs (db e))"
    and step: "\<And>t. row_step row (f t row)" and act: "\<And>t p. active_child p (f t row) \<Longrightarrow> active_child p row"
  shows "run_safe (db e) (db e')"
proof -
  let ?t = "clock e (tick e)"
  from run have e': "db e' = (db e)\<lparr>runs := sql_update (\<lambda>r. r_id r = r_id row) (f ?t) (runs (db e))\<rparr>"
    and ok: "run_keys_ok (sql_update (\<lambda>r. r_id r = r_id row) (f ?t) (runs (db e)))"
      "list_all (\<lambda>r. run_shape_ok r \<and> run_progress_ok r) (sql_update (\<lambda>r. r_id r = r_id row) (f ?t) (runs (db e)))"
    by (auto simp: update_runs_Inr Let_def)
  have eq: "r = row" if "run_inv (db e)" "r \<in> set (runs (db e))" "r_id r = r_id row" for r
    using that row distinct_by_id_eq [of r_id "runs (db e)" r row] by (simp add: run_inv_def)
  show ?thesis
    unfolding e'
  proof (rule run_safe_update [OF ok])
    fix r assume "run_inv (db e)" "r \<in> set (runs (db e))" "r_id r = r_id row"
    then have "r = row" by (rule eq)
    then show "row_step r (f ?t r)" by (simp add: step)
  next
    assume inv: "run_inv (db e)"
    show "serial (sql_update (\<lambda>r. r_id r = r_id row) (f ?t) (runs (db e)))"
      by (rule serial_update) (use inv eq [OF inv] act in \<open>auto simp: run_inv_def\<close>)
  qed
qed

lemma run_safe_trans: "run_safe d d' \<Longrightarrow> run_safe d' d'' \<Longrightarrow> run_safe d d''"
  by (rule run_rel.R_trans)

lemma mark_cancel_step: "\<not> IsTerminal (r_status r) \<Longrightarrow> row_step r (mark_cancel reason t r)"
  by (auto simp: row_defs mark_cancel_def split: Status.splits)

lemma cancel_row_step: "\<not> IsTerminal (r_status r) \<Longrightarrow> row_step r (cancel_row reason t r)"
  by (auto simp: row_defs mark_cancel_def cancel_row_def split: Status.splits)

lemma cancel_children_moves:
  "run_rel.moves (update_runs (\<lambda>t r. r_parent r = Some i \<and> (r_status r = StatusPlanned \<or> r_status r = StatusQueued))
     (cancel_row reason))"
proof (rule moves_update)
  fix t and r :: run_row and p
  assume r: "r_parent r = Some i \<and> (r_status r = StatusPlanned \<or> r_status r = StatusQueued)"
  then show "row_step r (cancel_row reason t r)" by (intro cancel_row_step) (auto simp: IsTerminal_def)
  show "active_child p (cancel_row reason t r) \<Longrightarrow> active_child p r"
    by (simp add: active_child_def cancel_row_def mark_cancel_def)
qed

lemma mark_children_moves:
  "run_rel.moves (update_runs (\<lambda>t r. r_parent r = Some i \<and> r_status r = StatusRunning) (mark_cancel reason))"
proof (rule moves_update)
  fix t and r :: run_row and p
  assume r: "r_parent r = Some i \<and> r_status r = StatusRunning"
  then show "row_step r (mark_cancel reason t r)" by (intro mark_cancel_step) (auto simp: IsTerminal_def)
  show "active_child p (mark_cancel reason t r) \<Longrightarrow> active_child p r"
    by (simp add: active_child_def mark_cancel_def)
qed

lemma moves_RequestCancellation: "run_rel.moves (RequestCancellation runID reason requester)"
  unfolding RequestCancellation_def Let_def
proof (rule run_rel.moves_retry_commits, rule run_rel.commitsI)
  fix e a e'
  let ?reason = "safeText reason 255"
  let ?mark = "update_runs (\<lambda>t r. r_id r = runID) (mark_cancel ?reason)"
  let ?rest = "\<lambda>_. bind_op (appendRunAudit requester ''ingestion.cancellation_requested'' runID None) (\<lambda>_. ret_op True)"
  have rest: "run_rel.moves (?rest u)" for u
    by (intro run_rel.moves_intros moves_appendRunAudit)
  let ?body = "\<lambda>row. if r_kind row = KindRunAllParent then
             bind_op ?mark (\<lambda>_.
             bind_op (update_runs (\<lambda>t r. r_parent r = Some runID \<and>
                         (r_status r = StatusPlanned \<or> r_status r = StatusQueued)) (cancel_row ?reason)) (\<lambda>_.
             update_runs (\<lambda>t r. r_parent r = Some runID \<and> r_status r = StatusRunning) (mark_cancel ?reason)))
           else if r_status row = StatusPlanned \<or> r_status row = StatusQueued then
             update_runs (\<lambda>t r. r_id r = runID) (cancel_row ?reason)
           else ?mark"
  assume "bind_op (get_run_row runID) (\<lambda>row. if IsTerminal (r_status row) then ret_op False
      else bind_op (?body row) ?rest) e = (Inr a, e')"
  then obtain row e1 where get: "get_run_row runID e = (Inr row, e1)"
    and k: "(if IsTerminal (r_status row) then ret_op False else bind_op (?body row) ?rest) e1 = (Inr a, e')"
    by (auto simp: op_iff)
  from get_run_row_Inr [OF get] have d1: "db e1 = db e" and row: "row \<in> set (runs (db e1))"
    and i: "runID = r_id row" by auto
  show "run_safe (db e) (db e')"
  proof (cases "IsTerminal (r_status row)")
    case True
    with k d1 show ?thesis by (simp add: op_iff run_rel.R_refl)
  next
    case False
    with k obtain n e2 where b: "?body row e1 = (Inr n, e2)" and r: "?rest n e2 = (Inr a, e')"
      by (auto simp: op_iff)
    have act: "active_child p (mark_cancel ?reason t row) = active_child p row"
        "active_child p (cancel_row ?reason t row) \<Longrightarrow> active_child p row" for p t
      by (auto simp: active_child_def mark_cancel_def cancel_row_def)
    have mark: "run_safe (db e1) (db e3)" if "?mark e1 = (Inr n, e3)" for n e3
      by (rule run_safe_known [OF that [unfolded i] row mark_cancel_step [OF False]]) (simp add: act)
    have cancel: "run_safe (db e1) (db e3)"
      if "update_runs (\<lambda>t r. r_id r = runID) (cancel_row ?reason) e1 = (Inr n, e3)" for n e3
      by (rule run_safe_known [OF that [unfolded i] row cancel_row_step [OF False]]) (rule act(2))
    have "run_safe (db e1) (db e2)"
    proof (cases "r_kind row = KindRunAllParent")
      case True
      with b obtain n' e3 where "?mark e1 = (Inr n', e3)" and m: "bind_op (update_runs (\<lambda>t r. r_parent r = Some runID \<and>
                         (r_status r = StatusPlanned \<or> r_status r = StatusQueued)) (cancel_row ?reason)) (\<lambda>_.
             update_runs (\<lambda>t r. r_parent r = Some runID \<and> r_status r = StatusRunning) (mark_cancel ?reason)) e3 = (Inr n, e2)"
        by (auto simp: op_iff)
      then have "run_safe (db e1) (db e3)" by (intro mark)
      moreover have "run_safe (db e3) (db e2)"
        by (rule run_rel.movesD [OF run_rel.moves_bind [OF cancel_children_moves mark_children_moves] m])
      ultimately show ?thesis by (rule run_safe_trans)
    next
      case False
      then show ?thesis
        using b mark cancel by (auto split: if_splits)
    qed
    moreover have "run_safe (db e2) (db e')" by (rule run_rel.movesD [OF rest r])
    ultimately show ?thesis using d1 run_safe_trans by metis
  qed
qed

section \<open>Starting the next child\<close>

lemma update_runs_Inl_db: "update_runs P f e = (Inl x, e') \<Longrightarrow> db e' = db e"
  unfolding update_runs_def by (rule stmt_Inl_db)

lemma bind_try: "m e = (r, e1) \<Longrightarrow> bind_op (try_op m) k e = k r e1"
  by (simp add: bind_op_def try_op_def)

lemma sql_count_update_add:
  "sql_count Q (sql_update P f rows) \<le> sql_count Q rows + sql_count P rows"
  by (induction rows) (auto simp: sql_count_def)

lemma sql_count_id:
  assumes "distinct (map r_id rows)"
  shows "sql_count (\<lambda>r. r_id r = i \<and> Q r) rows \<le> 1"
  using assms
proof (induction rows)
  case Nil
  then show ?case by (simp add: sql_count_def)
next
  case (Cons a rows)
  show ?case
  proof (cases "r_id a = i \<and> Q a")
    case True
    with Cons.prems have "sql_count (\<lambda>r. r_id r = i \<and> Q r) rows = 0"
      unfolding sql_count_0_iff by (metis distinct.simps(2) imageI list.set_map list.simps(9))
    with True show ?thesis by (simp add: sql_count_def)
  next
    case False
    with Cons show ?thesis by (auto simp: sql_count_def)
  qed
qed

lemma queue_child_safe:
  assumes run: "update_runs (\<lambda>t r. r_id r = r_id child \<and> r_status r = StatusPlanned)
      (\<lambda>t r. r\<lparr>r_status := StatusQueued\<rparr>) e = (Inr n, e')"
    and child: "child \<in> set (runs (db e))" "r_parent child = Some p"
    and idle: "sql_count (active_child p) (runs (db e)) = 0"
  shows "run_safe (db e) (db e')"
proof -
  let ?P = "\<lambda>r. r_id r = r_id child \<and> r_status r = StatusPlanned"
  let ?f = "\<lambda>r. r\<lparr>r_status := StatusQueued\<rparr>"
  from run have e': "db e' = (db e)\<lparr>runs := sql_update ?P ?f (runs (db e))\<rparr>"
    and ok: "run_keys_ok (sql_update ?P ?f (runs (db e)))"
      "list_all (\<lambda>r. run_shape_ok r \<and> run_progress_ok r) (sql_update ?P ?f (runs (db e)))"
    by (auto simp: update_runs_Inr Let_def)
  show ?thesis
    unfolding e'
  proof (rule run_safe_update [OF ok])
    fix r :: run_row assume "r_id r = r_id child \<and> r_status r = StatusPlanned"
    then show "row_step r (r\<lparr>r_status := StatusQueued\<rparr>)" by (simp add: row_defs)
  next
    assume inv: "run_inv (db e)"
    show "serial (sql_update ?P ?f (runs (db e)))"
      unfolding serial_def
    proof
      fix q
      show "sql_count (active_child q) (sql_update ?P ?f (runs (db e))) \<le> 1"
      proof (cases "q = p")
        case True
        have "sql_count (active_child q) (sql_update ?P ?f (runs (db e))) \<le> 0 + sql_count ?P (runs (db e))"
          using sql_count_update_add [of "active_child q" ?P ?f "runs (db e)"] idle True by simp
        also have "\<dots> \<le> 1" using sql_count_id [of "runs (db e)"] inv by (simp add: run_inv_def)
        finally show ?thesis .
      next
        case False
        have "sql_count (active_child q) (sql_update ?P ?f (runs (db e))) \<le> sql_count (active_child q) (runs (db e))"
        proof (rule sql_count_update_le)
          fix r assume r: "r \<in> set (runs (db e))" "?P r" "active_child q (?f r)"
          then have "r = child"
            using child inv distinct_by_id_eq [of r_id "runs (db e)" r child] by (simp add: run_inv_def)
          with r child False show "active_child q r" by (simp add: active_child_def)
        qed
        also have "\<dots> \<le> 1" using inv by (simp add: run_inv_def serial_def)
        finally show ?thesis .
      qed
    qed
  qed
qed

lemma skip_row_step: "r_status r = StatusPlanned \<Longrightarrow> row_step r (skip_row reason t r)"
  by (simp add: row_defs skip_row_def)

lemma start_child_safe:
  assumes run: "start_child child e = (Inr a, e')"
    and child: "child \<in> set (runs (db e))" "r_parent child = Some p" "r_status child = StatusPlanned"
    and idle: "sql_count (active_child p) (runs (db e)) = 0"
  shows "run_safe (db e) (db e')"
proof -
  from run obtain enabled e1 where en: "sourceEnabled (or_empty (r_job child)) e = (Inr enabled, e1)" and
    k: "(if \<not> enabled then
       bind_op (update_runs (\<lambda>t r. r_id r = r_id child) (skip_row ''source_disabled'')) (\<lambda>_. ret_op True)
     else
       bind_op (try_op (update_runs (\<lambda>t r. r_id r = r_id child \<and> r_status r = StatusPlanned)
                          (\<lambda>t r. r\<lparr>r_status := StatusQueued\<rparr>))) (\<lambda>result.
       case result of
         Inl x \<Rightarrow>
           if duplicate x then
             bind_op (update_runs (\<lambda>t r. r_id r = r_id child) (skip_row ''job_busy'')) (\<lambda>_. ret_op True)
           else fail_op x
       | Inr _ \<Rightarrow> ret_op True)) e1 = (Inr a, e')"
    unfolding start_child_def bind_op_Inr_iff [of "sourceEnabled _"] by blast
  have e1: "db e1 = db e"
    using en by (auto simp: sourceEnabled_def find_source_def op_iff)
  have act: "active_child q (skip_row reason t child) \<Longrightarrow> active_child q child" for q reason t
    by (simp add: active_child_def skip_row_def)
  have skip: "run_safe (db e2) (db e3)"
    if "update_runs (\<lambda>t r. r_id r = r_id child) (skip_row reason) e2 = (Inr n, e3)" "db e2 = db e" for reason n e2 e3
    by (rule run_safe_known [OF that(1)]) (use that(2) child skip_row_step act in auto)
  show ?thesis
  proof (cases enabled)
    case False
    with k obtain n where "update_runs (\<lambda>t r. r_id r = r_id child) (skip_row ''source_disabled'') e1 = (Inr n, e')"
      by (auto simp: op_iff)
    from skip [OF this e1] show ?thesis by (simp add: e1)
  next
    case True
    obtain result e2 where q: "update_runs (\<lambda>t r. r_id r = r_id child \<and> r_status r = StatusPlanned)
        (\<lambda>t r. r\<lparr>r_status := StatusQueued\<rparr>) e1 = (result, e2)" by fastforce
    show ?thesis
    proof (cases result)
      case (Inr n)
      with True k q have "e' = e2" by (simp add: bind_try op_iff)
      moreover from q Inr have "run_safe (db e1) (db e2)"
        using queue_child_safe [of child e1 n e2 p] child idle e1 by simp
      ultimately show ?thesis by (simp add: e1)
    next
      case (Inl x)
      with q have "db e2 = db e1" by (intro update_runs_Inl_db) simp
      with e1 have d2: "db e2 = db e" by simp
      from Inl True k q obtain n where
        "update_runs (\<lambda>t r. r_id r = r_id child) (skip_row ''job_busy'') e2 = (Inr n, e')"
        by (auto simp: bind_try op_iff split: if_splits)
      from skip [OF this d2] show ?thesis by (simp add: d2)
    qed
  qed
qed

lemma select_planned_Inr:
  "select_planned p e = (Inr child, e') \<Longrightarrow>
   db e' = db e \<and> child \<in> set (runs (db e)) \<and> r_parent child = Some p \<and> r_status child = StatusPlanned"
  by (auto simp: select_planned_def op_iff split: option.splits dest!: sql_first_by_in)

lemma moves_close:
  assumes "status \<in> {StatusCancelled, StatusFailed, StatusCompleted, StatusCompletedWithSkips}"
  shows "run_rel.moves (bind_op (update_runs (\<lambda>t. owned_row p owner) (close_row status)) (\<lambda>_. ret_op True))"
  by (intro run_rel.moves_intros moves_update) (use assms in \<open>auto simp: row_defs\<close>)

lemma aggregate_Inr:
  "aggregateParentStatus p e = (Inr status, e') \<Longrightarrow>
   status \<in> {StatusCancelled, StatusFailed, StatusCompleted, StatusCompletedWithSkips} \<and> db e' = db e"
  by (auto simp: aggregateParentStatus_def op_iff Let_def split: if_splits)

lemma finish_parent_safe:
  assumes "finish_parent p owner e = (Inr a, e')"
  shows "run_safe (db e) (db e')"
proof -
  from assms obtain status e1 where "aggregateParentStatus p e = (Inr status, e1)" and
    k: "bind_op (update_runs (\<lambda>t. owned_row p owner) (close_row status)) (\<lambda>_. ret_op True) e1 = (Inr a, e')"
    unfolding finish_parent_def bind_op_Inr_iff [of "aggregateParentStatus _"] by blast
  then have "status \<in> {StatusCancelled, StatusFailed, StatusCompleted, StatusCompletedWithSkips}" "db e1 = db e"
    using aggregate_Inr by blast+
  with run_rel.movesD [OF moves_close k] show ?thesis by simp
qed

lemma advance_parent_safe:
  assumes run: "advance_parent p owner cancelled e = (Inr a, e')"
    and idle: "sql_count (active_child p) (runs (db e)) = 0"
  shows "run_safe (db e) (db e')"
proof (cases cancelled)
  case True
  with run run_rel.movesD [OF moves_close [of StatusCancelled]] show ?thesis by (simp add: advance_parent_def)
next
  case False
  obtain planned e1 where pl: "select_planned p e = (planned, e1)" by fastforce
  have d1: "db e1 = db e" using pl unfolding select_planned_def by (rule query_db)
  show ?thesis
  proof (cases planned)
    case (Inr child)
    with run False have "start_child child e1 = (Inr a, e')"
      unfolding advance_parent_def by (simp add: bind_try [of "select_planned p" e planned e1, OF pl])
    moreover have "child \<in> set (runs (db e1))" "r_parent child = Some p" "r_status child = StatusPlanned"
      using select_planned_Inr [of p e child e1] pl Inr d1 by auto
    ultimately show ?thesis
      using start_child_safe [of child e1 a e' p] idle d1 by simp
  next
    case (Inl x)
    with run False have "finish_parent p owner e1 = (Inr a, e')"
      unfolding advance_parent_def by (simp add: bind_try [of "select_planned p" e planned e1, OF pl] fail_op_def split: if_splits)
    from finish_parent_safe [OF this] show ?thesis by (simp add: d1)
  qed
qed

lemma reconcile_Inr_cases:
  assumes "reconcileParentTransaction exactID exactOwner e = (Inr a, e')"
  obtains (none) "db e' = db e"
  | (parent) parent e1 n e2 current e3 active e4 where
      "select_parent exactID exactOwner e = (Inr parent, e1)" "db e1 = db e"
      "update_runs (\<lambda>t. owned_row (r_id parent) (or_empty (r_owner parent))) (\<lambda>t r. r\<lparr>r_heartbeat := Some t\<rparr>) e1 = (Inr n, e2)"
      "get_run_row (r_id parent) e2 = (Inr current, e3)" "count_active (r_id parent) e3 = (Inr active, e4)"
      "(if active > 0 then ret_op False
        else advance_parent (r_id parent) (or_empty (r_owner parent)) (r_cancel_at current \<noteq> None)) e4 = (Inr a, e')"
proof -
  obtain selected e1 where s: "select_parent exactID exactOwner e = (selected, e1)" by fastforce
  have d1: "db e1 = db e" using s unfolding select_parent_def by (rule query_skip_db)
  show thesis
  proof (cases selected)
    case (Inl x)
    with assms have "e' = e1"
      unfolding reconcileParentTransaction_def bind_try [of "select_parent exactID exactOwner" e selected e1, OF s]
      by (auto simp: ret_op_def fail_op_def split: if_splits)
    with d1 none show thesis by simp
  next
    case (Inr parent)
    with assms have "bind_op (update_runs (\<lambda>t. owned_row (r_id parent) (or_empty (r_owner parent)))
         (\<lambda>t r. r\<lparr>r_heartbeat := Some t\<rparr>)) (\<lambda>_.
         bind_op (get_run_row (r_id parent)) (\<lambda>current.
         bind_op (count_active (r_id parent)) (\<lambda>active.
         if active > 0 then ret_op False
         else advance_parent (r_id parent) (or_empty (r_owner parent)) (r_cancel_at current \<noteq> None)))) e1 = (Inr a, e')"
      unfolding reconcileParentTransaction_def bind_try [of "select_parent exactID exactOwner" e selected e1, OF s]
      by (simp add: Let_def fail_op_def split: if_splits)
    then show thesis using parent s Inr d1 unfolding bind_op_Inr_iff by blast
  qed
qed

lemma commits_reconcile: "run_rel.commits (reconcileParentTransaction exactID exactOwner)"
proof (rule run_rel.commitsI)
  fix e a e'
  assume "reconcileParentTransaction exactID exactOwner e = (Inr a, e')"
  then show "run_safe (db e) (db e')"
  proof (cases rule: reconcile_Inr_cases)
    case none
    then show ?thesis by (simp add: run_rel.R_refl)
  next
    case (parent p e1 n e2 current e3 active e4)
    have hb: "run_rel.moves (update_runs (\<lambda>t. owned_row i owner) (\<lambda>t r. r\<lparr>r_heartbeat := Some t\<rparr>))" for i owner
      by (rule moves_update) (auto simp: row_defs)
    have s2: "run_safe (db e) (db e2)" using run_rel.movesD [OF hb parent(3)] parent(2) by simp
    have d4: "db e4 = db e2" and active: "active = sql_count (active_child (r_id p)) (runs (db e2))"
      using get_run_row_Inr [OF parent(4)] parent(5) by (auto simp: count_active_def op_iff)
    have "run_safe (db e4) (db e')"
      using parent(6) advance_parent_safe [of "r_id p" _ _ e4 a e'] active d4
      by (auto simp: op_iff run_rel.R_refl split: if_splits)
    with s2 d4 show ?thesis using run_safe_trans by metis
  qed
qed

lemma moves_reconcileParent: "run_rel.moves (reconcileParent exactID exactOwner)"
  unfolding reconcileParent_def by (rule run_rel.moves_retry_commits [OF commits_reconcile])

text \<open>The loop of the sweep stays in every relation that its transaction stays in.\<close>

lemma recover_loop_moves:
  fixes R :: "'a run_db_scheme \<Rightarrow> 'a run_db_scheme \<Rightarrow> bool"
  assumes rel: "step_relation R" and once: "\<And>sha allowed catalog lease owner. step_relation.moves R (recover_once sha allowed catalog lease owner)"
    and "recover_loop sha allowed catalog lease owner e = Some y"
  shows "R (db e) (db (snd y))"
proof (rule recover_loop.raw_induct [where P = "\<lambda>sha allowed catalog lease owner e y. R (db e) (db (snd y))", OF _ assms(3)])
  fix loop sha allowed catalog lease owner e and y :: "Recovery option result \<times> 'a run_db_scheme env"
  assume IH: "\<And>s a c l o' e y. loop s a c l o' e = Some y \<Longrightarrow> R (db e) (db (snd y))"
    and run: "(case replay_tx (recover_once sha allowed catalog lease owner) e of
        (Inl x, e') \<Rightarrow> Some (Inl x, e')
      | (Inr (recovered, candidateSeen), e') \<Rightarrow>
          if recovered \<noteq> None \<or> \<not> candidateSeen then Some (Inr recovered, e')
          else loop sha allowed catalog lease owner e') = Some y"
  obtain r e' where e': "replay_tx (recover_once sha allowed catalog lease owner) e = (r, e')" by fastforce
  have "R (db e) (db e')"
    by (rule step_relation.movesD [OF rel step_relation.moves_retry_tx [OF rel once] e'])
  moreover have "R (db e') (db (snd y))"
    using run e' IH by (auto simp: step_relation.R_refl [OF rel] split: sum.splits prod.splits if_splits)
  ultimately show "R (db e) (db (snd y))" by (rule step_relation.R_trans [OF rel])
qed

lemma RecoverOneStale_moves:
  assumes "step_relation R" "\<And>sha allowed catalog lease owner. step_relation.moves R (recover_once sha allowed catalog lease owner)"
  shows "step_relation.moves R (RecoverOneStale sha allowed catalog lease owner)"
  by (rule step_relation.movesI [OF assms(1)])
    (auto simp: RecoverOneStale_def step_relation.R_refl [OF assms(1)] split: if_splits option.splits
      dest: recover_loop_moves [OF assms])

lemma moves_RecoverOneStale: "run_rel.moves (RecoverOneStale sha allowed catalog lease owner)"
  by (rule RecoverOneStale_moves [OF run_rel.step_relation_axioms moves_recover_once])

end
