(* ===== verification/Table_Keys.thy ===== *)
theory Table_Keys
  imports Dwh_Prelude
begin

text \<open>
  Tables with keys: updates of rows addressed by condition or identifier, and UNIQUE KEYs under
  insertion and update. The components use these lemmas for their own row types.
\<close>

lemma sql_update_cong: "(\<And>r. r \<in> set rows \<Longrightarrow> P r = Q r) \<Longrightarrow> sql_update P f rows = sql_update Q f rows"
  by (simp add: sql_update_def)

lemma list_all_update:
  assumes "list_all Q rows" "\<And>r. r \<in> set rows \<Longrightarrow> Q r \<Longrightarrow> P r \<Longrightarrow> Q (f r)"
  shows "list_all Q (sql_update P f rows)"
  using assms by (auto simp: list_all_iff set_sql_update)

lemma filter_sql_update_other:
  "(\<And>r. r \<in> set rows \<Longrightarrow> P r \<Longrightarrow> \<not> Q r \<and> \<not> Q (f r)) \<Longrightarrow> filter Q (sql_update P f rows) = filter Q rows"
  by (induction rows) auto

lemma sql_count_1_eq:
  assumes "sql_count P rows \<le> 1" "r \<in> set rows" "s \<in> set rows" "P r" "P s"
  shows "r = s"
proof -
  have "r \<in> set (filter P rows)" "s \<in> set (filter P rows)" using assms by auto
  then show ?thesis using assms(1) by (cases "filter P rows" rule: list.exhaust) (auto simp: sql_count_def)
qed

lemma unique_key_Cons:
  "unique_key k (a # rows) \<longleftrightarrow> unique_key k rows \<and> (\<forall>r \<in> set rows. k a \<noteq> None \<longrightarrow> k r \<noteq> k a)"
  by (force simp: unique_key_def image_iff)

lemma unique_key_eq:
  assumes "unique_key k rows" "r \<in> set rows" "s \<in> set rows" "k r = Some x" "k s = Some x"
  shows "r = s"
  using assms
proof (induction rows)
  case Nil
  then show ?case by simp
next
  case (Cons a rows)
  have "k q \<noteq> Some x" if "k a = Some x" "q \<in> set rows" for q
    using Cons.prems(1) that by (force simp: unique_key_def)
  moreover have "unique_key k rows" using Cons.prems(1) by (auto simp: unique_key_def split: if_splits)
  ultimately show ?case using Cons by auto
qed

lemma unique_key_update:
  assumes "unique_key k rows" "\<And>r. r \<in> set rows \<Longrightarrow> P r \<Longrightarrow> k (f r) = k r \<or> k (f r) = None"
  shows "unique_key k (sql_update P f rows)"
  using assms
proof (induction rows)
  case Nil
  then show ?case by (simp add: unique_key_def)
next
  case (Cons a rows)
  have tail: "unique_key k (sql_update P f rows)" using Cons by (simp add: unique_key_Cons)
  have sub: "k (if P q then f q else q) \<noteq> None \<Longrightarrow> k (if P q then f q else q) = k q" if "q \<in> set (a # rows)" for q
    using Cons.prems(2) [OF that] by auto
  have "k (if P q then f q else q) \<noteq> k (if P a then f a else a)"
    if "q \<in> set rows" "k (if P a then f a else a) \<noteq> None" for q
    using sub [of a] sub [of q] that Cons.prems(1) unfolding unique_key_Cons by (metis list.set_intros)
  with tail show ?case unfolding sql_update_Cons unique_key_Cons set_sql_update by blast
qed

lemma unique_key_snoc:
  "unique_key k (rows @ [a]) \<Longrightarrow> r \<in> set rows \<Longrightarrow> k a \<noteq> None \<Longrightarrow> k r \<noteq> k a"
  by (induction rows) (auto simp: unique_key_Cons)

lemma sql_update_one:
  assumes "distinct (map ident rows)" "r \<in> set rows" "\<And>q. q \<in> set rows \<Longrightarrow> P q \<longleftrightarrow> ident q = ident r"
  obtains xs ys where "rows = xs @ r # ys" "sql_update P f rows = xs @ f r # ys"
proof -
  obtain xs ys where rows: "rows = xs @ r # ys" using assms(2) by (meson split_list)
  have "\<not> P q" if "q \<in> set xs \<union> set ys" for q
  proof -
    have "ident q \<noteq> ident r" using assms(1) that by (auto simp: rows image_iff)
    with assms(3) [of q] that show ?thesis by (auto simp: rows)
  qed
  then have "sql_update P f xs = xs" "sql_update P f ys = ys" by (auto intro: sql_update_none)
  moreover have "P r" using assms(2) assms(3) [of r] by simp
  ultimately have "sql_update P f rows = xs @ f r # ys" by (simp add: rows sql_update_def)
  with rows show thesis by (rule that)
qed

lemma sql_count_one:
  assumes "distinct (map ident rows)" "r \<in> set rows" "\<And>q. q \<in> set rows \<Longrightarrow> P q \<longleftrightarrow> ident q = ident r"
    "\<not> Q r" "Q (f r)"
  shows "sql_count Q (sql_update P f rows) = Suc (sql_count Q rows)"
proof -
  obtain xs ys where "rows = xs @ r # ys" "sql_update P f rows = xs @ f r # ys"
    by (rule sql_update_one [OF assms(1-3)])
  with assms(4,5) show ?thesis by (simp add: sql_count_def)
qed

lemma sql_changed_one:
  assumes "distinct (map ident rows)" "r \<in> set rows" "\<And>q. q \<in> set rows \<Longrightarrow> P q \<longleftrightarrow> ident q = ident r" "f r \<noteq> r"
  shows "sql_changed P f rows = 1"
proof -
  have "filter (\<lambda>q. P q \<and> f q \<noteq> q) rows = filter (\<lambda>q. q = r) rows"
    by (rule filter_cong [OF refl]) (use assms distinct_by_id_eq [of ident rows] in blast)
  also have "\<dots> = [r]"
    using filter_by_id_single [OF assms(1,2)] distinct_by_id_eq [of ident rows] assms
    by (metis (mono_tags, lifting) filter_cong)
  finally show ?thesis by (simp add: sql_changed_def)
qed

end
