(* ===== verification/Store_Progress.thy ===== *)
theory Store_Progress
  imports Store_Op Table_Keys
begin

text \<open>
  Progress of operations. \<open>steady m\<close>: \<open>m\<close> does not change how the server will behave, it only moves
  on in time. Every operation built from statements is steady; so the clock seen by a later
  statement is the one of the start, and a server that makes no errors goes on making none
  (\<open>healthy\<close>).
\<close>

section \<open>Case analysis of outcomes\<close>

lemma case_sum_op:
  "(case s of Inl x \<Rightarrow> f x | Inr y \<Rightarrow> g y) e = r \<longleftrightarrow>
     (\<exists>x. s = Inl x \<and> f x e = r) \<or> (\<exists>y. s = Inr y \<and> g y e = r)"
  by (cases s) auto

lemma case_option_op:
  "(case s of None \<Rightarrow> f | Some y \<Rightarrow> g y) e = r \<longleftrightarrow> (s = None \<and> f e = r) \<or> (\<exists>y. s = Some y \<and> g y e = r)"
  by (cases s) auto

section \<open>Operations that change nothing\<close>

text \<open>The relation that keeps one database as it is: an operation all of whose statements miss the
  rows they address does not change it.\<close>

interpretation still: step_relation "\<lambda>d d'. d = base \<longrightarrow> d' = base" for base :: "'d"
  by unfold_locales auto

section \<open>Steady operations\<close>

definition same_server :: "'d env \<Rightarrow> 'd env \<Rightarrow> bool" where
  "same_server e e' \<longleftrightarrow> clock e' = clock e \<and> fault e' = fault e \<and> locked e' = locked e \<and> tick e \<le> tick e'"

definition steady :: "('d, 'a) op \<Rightarrow> bool" where
  "steady m \<longleftrightarrow> (\<forall>e r e'. m e = (r, e') \<longrightarrow> same_server e e')"

definition healthy :: "'d env \<Rightarrow> bool" where
  "healthy e \<longleftrightarrow> (\<forall>n. fault e n = None)"

lemma same_server_refl [simp]: "same_server e e"
  by (simp add: same_server_def)

lemma same_server_trans [trans]: "same_server e e1 \<Longrightarrow> same_server e1 e2 \<Longrightarrow> same_server e e2"
  by (auto simp: same_server_def)

lemma same_server_db [simp]: "same_server e (e'\<lparr>db := d\<rparr>) = same_server e e'"
  by (simp add: same_server_def)

lemma healthy_server: "same_server e e' \<Longrightarrow> healthy e' = healthy e"
  by (simp add: same_server_def healthy_def)

lemma steadyI: "(\<And>e r e'. m e = (r, e') \<Longrightarrow> same_server e e') \<Longrightarrow> steady m"
  by (auto simp: steady_def)

lemma steadyD: "steady m \<Longrightarrow> m e = (r, e') \<Longrightarrow> same_server e e'"
  by (auto simp: steady_def)

lemma steady_ret: "steady (ret_op a)"
  by (auto simp: steady_def op_iff)

lemma steady_fail: "steady (fail_op x)"
  by (auto simp: steady_def op_iff)

lemma steady_lift: "steady (lift_op r)"
  by (cases r) (auto simp: lift_op_def steady_ret steady_fail)

lemma steady_stmt: "steady (stmt f)"
  by (rule steadyI)
    (auto simp: stmt_def Let_def same_server_def split: option.splits sum.splits prod.splits)

lemma steady_query: "steady (query f)"
  by (simp add: query_def steady_stmt)

lemma steady_query_skip: "steady (query_skip f)"
  by (rule steadyI) (auto simp: query_skip_def dest: steadyD [OF steady_query])

lemma steady_now: "steady db_now"
  by (simp add: db_now_def steady_query)

lemma steady_go_now: "steady go_now"
  by (auto simp: steady_def op_iff)

lemma steady_ctx: "steady ctx_err"
  by (auto simp: steady_def ctx_err_def Let_def same_server_def)

lemma steady_try: "steady m \<Longrightarrow> steady (try_op m)"
  by (auto simp: steady_def op_iff)

lemma steady_bind:
  assumes "steady m" and "\<And>a. steady (k a)"
  shows "steady (bind_op m k)"
proof (rule steadyI)
  fix e r e'
  assume "bind_op m k e = (r, e')"
  then consider x where "m e = (Inl x, e')"
    | a e1 where "m e = (Inr a, e1)" "k a e1 = (r, e')"
    by (auto simp: bind_op_def split: prod.splits sum.splits)
  then show "same_server e e'"
    by cases (use assms in \<open>auto dest: steadyD intro: same_server_trans\<close>)
qed

lemma steady_for_each: "(\<And>x. steady (f x)) \<Longrightarrow> steady (for_each xs f)"
  by (induction xs) (auto intro: steady_ret steady_bind)

lemma steady_tx:
  assumes "steady m"
  shows "steady (tx_attempt m)"
proof (rule steadyI)
  fix e r e'
  assume run: "tx_attempt m e = (r, e')"
  obtain s e1 where b: "begin_tx e = (s, e1)" by fastforce
  obtain q e2 where w: "m e1 = (q, e2)" by fastforce
  obtain c e3 where c: "commit_tx e2 = (c, e3)" by fastforce
  have "same_server e e1" "same_server e1 e2" "same_server e2 e3"
    using b w c steadyD [OF assms] steadyD [OF steady_query] unfolding begin_tx_def commit_tx_def by blast+
  then have "same_server e e1" "same_server e e2" "same_server e e3" by (blast intro: same_server_trans)+
  with run b w c show "same_server e e'"
    by (auto simp: tx_attempt_def split: sum.splits)
qed

lemma steady_if: "steady a \<Longrightarrow> steady b \<Longrightarrow> steady (if c then a else b)"
  by simp

lemma steady_case_sum: "(\<And>x. steady (f x)) \<Longrightarrow> (\<And>y. steady (g y)) \<Longrightarrow> steady (case_sum f g s)"
  by (cases s) simp_all

lemma steady_case_option: "steady f \<Longrightarrow> (\<And>y. steady (g y)) \<Longrightarrow> steady (case_option f g s)"
  by (cases s) simp_all

lemma steady_case_prod: "(\<And>a b. steady (f a b)) \<Longrightarrow> steady (case_prod f p)"
  by (cases p) simp_all

lemma steady_let: "(\<And>x. steady (f x)) \<Longrightarrow> steady (Let v f)"
  by simp

lemmas steady_intros = steady_if steady_case_sum steady_case_option steady_case_prod steady_let
  steady_ret steady_fail steady_lift steady_stmt steady_query steady_query_skip steady_now
  steady_ctx steady_go_now steady_try steady_bind steady_for_each steady_tx

section \<open>Replayed transactions\<close>

lemma ctx_err_step: "\<exists>q e1. ctx_err e = (Inr q, e1) \<and> db e1 = db e \<and> same_server e e1 \<and> (healthy e \<longrightarrow> q = None)"
  by (simp add: ctx_err_def Let_def same_server_def healthy_def)

text \<open>The round that succeeds sees the database of the start and a later moment of the same server.\<close>

lemma retry_round:
  assumes "attempt \<le> ReplaySafeMaxAttempts" "retry_from once attempt e = (Some (n, Inr a), e')"
    and steady: "steady once" and fails: "\<And>e x e'. once e = (Inl x, e') \<Longrightarrow> db e' = db e"
  obtains (success) e1 where "db e1 = db e" "same_server e e1" "once e1 = (Inr a, e')"
  | (again) e3 where "attempt < ReplaySafeMaxAttempts" "db e3 = db e" "same_server e e3"
      "retry_from once (Suc attempt) e3 = (Some (n, Inr a), e')"
proof -
  obtain q e1 where q: "ctx_err e = (Inr q, e1)" and d1: "db e1 = db e" and s1: "same_server e e1"
    using ctx_err_step by blast
  obtain s e2 where s: "once e1 = (s, e2)" by fastforce
  obtain y e3 where y: "ctx_err e2 = (Inr y, e3)" and d3: "db e3 = db e2" and s3: "same_server e2 e3"
    using ctx_err_step by blast
  have qN: "q = None" using assms(1,2) retry_from_stopped [of attempt e _ e1 once] q by (cases q) auto
  show thesis
  proof (cases s)
    case (Inr b)
    with retry_from_done [OF assms(1), of e e1 once b e2] assms(2) q qN s
    show thesis using success [OF d1 s1] by simp
  next
    case (Inl x)
    have x: "IsRetryableConcurrencyError x" "attempt < ReplaySafeMaxAttempts"
      using retry_from_failed [OF assms(1), of e e1 once x e2] assms(1,2) q qN s Inl by (cases "attempt = ReplaySafeMaxAttempts"; auto)+
    from retry_from_again [of attempt e e1 once x e2 y e3] x y assms(2) q qN s Inl
    have "y = None \<and> retry_from once (Suc attempt) e3 = (Some (n, Inr a), e')"
      by (simp split: option.splits)
    moreover have "same_server e e3"
      using same_server_trans [OF same_server_trans [OF s1 steadyD [OF steady s]] s3] .
    moreover have "db e3 = db e" using d1 d3 fails [of e1 x e2] s Inl by simp
    ultimately show thesis using again x(2) by blast
  qed
qed

lemma retry_from_success:
  assumes "steady once" and "\<And>e x e'. once e = (Inl x, e') \<Longrightarrow> db e' = db e"
    and "attempt \<le> ReplaySafeMaxAttempts" and "retry_from once attempt e = (Some (n, Inr a), e')"
  shows "\<exists>e1. db e1 = db e \<and> same_server e e1 \<and> once e1 = (Inr a, e')"
  using assms(3,4)
proof (induction "ReplaySafeMaxAttempts - attempt" arbitrary: attempt e)
  case 0
  show ?case by (rule retry_round [OF 0(2,3) assms(1,2)]) (use 0(1) in auto)
next
  case (Suc k)
  show ?case
  proof (rule retry_round [OF Suc.prems assms(1,2)])
    fix e3
    assume e3: "attempt < ReplaySafeMaxAttempts" "db e3 = db e" "same_server e e3"
      "retry_from once (Suc attempt) e3 = (Some (n, Inr a), e')"
    have "k = ReplaySafeMaxAttempts - Suc attempt" using Suc.hyps(2) by simp
    from Suc.hyps(1) [OF this _ e3(4)] e3 show ?thesis by (metis Suc_leI same_server_trans)
  qed auto
qed

lemma replay_tx_success:
  assumes "replay_tx work e = (Inr a, e')" and "steady work"
  obtains e1 e2 where "db e1 = db e" "same_server e e1" "work e1 = (Inr a, e2)" "db e' = db e2" "same_server e e'"
proof -
  from assms(1) obtain n where "retry_from (tx_attempt work) 1 e = (Some (n, Inr a), e')"
    by (auto simp: replay_tx_def RetryReplaySafeTx_def retry_result_Inr)
  then have "\<exists>e0. db e0 = db e \<and> same_server e e0 \<and> tx_attempt work e0 = (Inr a, e')"
    by (intro retry_from_success [OF steady_tx [OF assms(2)], where attempt = 1])
      (auto simp: ReplaySafeMaxAttempts_def dest: tx_attempt_Inl_db)
  then obtain e0 where e0: "db e0 = db e" "same_server e e0" "tx_attempt work e0 = (Inr a, e')" by blast
  then obtain u e1 e2 v where b: "begin_tx e0 = (Inr u, e1)" and w: "work e1 = (Inr a, e2)"
    and c: "commit_tx e2 = (Inr v, e')"
    by (auto simp: tx_attempt_def split: prod.splits sum.splits)
  have "same_server e0 e1" using b unfolding begin_tx_def by (rule steadyD [OF steady_query])
  then have "same_server e e1" using e0(2) by (rule same_server_trans [rotated])
  moreover have "same_server e0 e'" by (rule steadyD [OF steady_tx [OF assms(2)] e0(3)])
  ultimately show thesis
    using that [of e1 e2] begin_tx_db [OF b] w commit_tx_db [OF c] e0 same_server_trans by metis
qed

lemma tx_body_success:
  assumes "tx_body work e = (Inr a, e')"
  obtains (rollback) e1 e2 where "db e1 = db e" "same_server e e1" "work e1 = (Inr (Rollback a), e2)" "db e' = db e"
  | (commit) e1 e2 where "db e1 = db e" "same_server e e1" "work e1 = (Inr (Commit a), e2)" "db e' = db e2"
proof -
  from assms obtain u e1 v e2 where b: "begin_tx e = (Inr u, e1)" and w: "work e1 = (Inr v, e2)"
    and r: "(case v of Rollback c \<Rightarrow> a = c \<and> db e' = db e
      | Commit c \<Rightarrow> a = c \<and> (\<exists>z. commit_tx e2 = (Inr z, e')))"
    by (auto simp: tx_body_def split: prod.splits sum.splits tx_end.splits)
  note d1 = begin_tx_db [OF b]
  have s1: "same_server e e1" using b unfolding begin_tx_def by (rule steadyD [OF steady_query])
  show thesis
  proof (cases v)
    case (Rollback c)
    with r w show thesis using rollback [OF d1 s1, of e2] by simp
  next
    case (Commit c)
    with r obtain z where z: "commit_tx e2 = (Inr z, e')" and c: "a = c" by auto
    show thesis using commit [OF d1 s1 _ commit_tx_db [OF z]] w Commit c by simp
  qed
qed

text \<open>On a healthy server a transaction or a statement takes effect at the first attempt.\<close>

lemma healthy_tx:
  assumes "healthy e"
    and "\<And>e1. db e1 = db e \<Longrightarrow> same_server e e1 \<Longrightarrow> \<exists>e2. work e1 = (Inr a, e2) \<and> same_server e1 e2 \<and> P (db e2)"
  shows "\<exists>e'. tx_attempt work e = (Inr a, e') \<and> P (db e')"
proof -
  let ?e1 = "e\<lparr>tick := Suc (tick e)\<rparr>"
  have b: "begin_tx e = (Inr (), ?e1)"
    using assms(1) by (simp add: begin_tx_def op_iff healthy_def)
  have s: "same_server e ?e1" by (simp add: same_server_def)
  from assms(2) [OF _ this] obtain e2 where e2: "work ?e1 = (Inr a, e2)" "same_server ?e1 e2" "P (db e2)" by auto
  have "healthy e2" using healthy_server assms(1) s e2(2) by blast
  then have "commit_tx e2 = (Inr (), e2\<lparr>tick := Suc (tick e2)\<rparr>)"
    by (simp add: commit_tx_def op_iff healthy_def)
  with b e2 show ?thesis by (simp add: tx_attempt_def)
qed

lemma healthy_first_attempt:
  assumes "healthy e" and "once (e\<lparr>tick := Suc (tick e)\<rparr>) = (Inr a, e')"
  shows "retry_result (retry_from once 1 e) = (Inr a, e')"
proof -
  have "ctx_err e = (Inr None, e\<lparr>tick := Suc (tick e)\<rparr>)"
    using assms(1) by (simp add: ctx_err_def healthy_def Let_def)
  from retry_from_done [of 1 e _ once a e', OF _ this assms(2)] have "retry_from once 1 e = (Some (1, Inr a), e')"
    by (simp add: ReplaySafeMaxAttempts_def)
  then show ?thesis by (simp add: retry_result_def)
qed

lemma healthy_replay_exec:
  "healthy e \<Longrightarrow> statement (e\<lparr>tick := Suc (tick e)\<rparr>) = (Inr a, e') \<Longrightarrow> replay_exec statement e = (Inr a, e')"
  unfolding replay_exec_def RetryReplaySafeExec_def by (rule healthy_first_attempt)

end
