(* ===== verification/Run_Lifecycle.thy ===== *)
theory Run_Lifecycle
  imports Run_Safety Store_Progress
begin

text \<open>
  The life of runs under any history of calls. \<open>run_step\<close> is one call of an exported operation of the
  run store, by any process, with any arguments and any behaviour of the server; its reflexive
  transitive closure is every history. The theorems state what holds along all of them.
\<close>

section \<open>Histories\<close>

inductive run_step :: "(string \<Rightarrow> hash) \<Rightarrow> (string \<Rightarrow> bool) \<Rightarrow> Catalog \<Rightarrow>
    'a run_db_scheme \<Rightarrow> 'a run_db_scheme \<Rightarrow> bool"
  for sha allowed catalog where
  settings: "UpdateRuntimeSettings expected target requester e = (r1, e') \<Longrightarrow>
     run_step sha allowed catalog (db e) (db e')"
| submitted: "Submit sha catalog jobKey parameters trigger reference requester1 e = (r2, e') \<Longrightarrow>
     run_step sha allowed catalog (db e) (db e')"
| submitted_manual: "SubmitManual sha catalog jobKey parameters trigger reference requester e = (r2, e') \<Longrightarrow>
     run_step sha allowed catalog (db e) (db e')"
| submitted_in_tx: "tx_attempt (SubmitInTx sha catalog jobKey parameters trigger reference requester1) e = (r2, e') \<Longrightarrow>
     run_step sha allowed catalog (db e) (db e')"
| run_all: "CreateRunAll sha catalog newOwner from to trigger reference requester1 e = (r2, e') \<Longrightarrow>
     run_step sha allowed catalog (db e) (db e')"
| run_all_manual: "CreateRunAllManual sha catalog newOwner from to trigger reference requester e = (r2, e') \<Longrightarrow>
     run_step sha allowed catalog (db e) (db e')"
| claimed: "Claim allowed ownerID e = (r3, e') \<Longrightarrow> run_step sha allowed catalog (db e) (db e')"
| heartbeat: "Heartbeat runID ownerID e = (r4, e') \<Longrightarrow> run_step sha allowed catalog (db e) (db e')"
| progressed: "UpdateProgress allowed runID ownerID progress diagnostics e = (r5, e') \<Longrightarrow>
     run_step sha allowed catalog (db e) (db e')"
| frozen: "FreezeSnapshotDate runID ownerID date e = (r5, e') \<Longrightarrow> run_step sha allowed catalog (db e) (db e')"
| finished: "Finish runID ownerID status safeError e = (r5, e') \<Longrightarrow> run_step sha allowed catalog (db e) (db e')"
| published: "tx_attempt (FinishSucceededInTx runID ownerID) e = (r5, e') \<Longrightarrow>
     run_step sha allowed catalog (db e) (db e')"
| recovered: "RecoverOneStale sha allowed catalog lease ownerID e = (r6, e') \<Longrightarrow>
     run_step sha allowed catalog (db e) (db e')"
| abandoned: "RecoverAbandoned runID ownerID heartbeat reason requester e = (r5, e') \<Longrightarrow>
     run_step sha allowed catalog (db e) (db e')"
| cancelled: "RequestCancellation runID reason requester e = (r7, e') \<Longrightarrow>
     run_step sha allowed catalog (db e) (db e')"
| reconciled_one: "ReconcileOneParent e = (r7, e') \<Longrightarrow> run_step sha allowed catalog (db e) (db e')"
| reconciled: "ReconcileParent runID ownerID e = (r7, e') \<Longrightarrow> run_step sha allowed catalog (db e) (db e')"

lemma moves_exported:
  "run_rel.moves (Submit sha catalog jobKey parameters trigger reference requester1)"
  "run_rel.moves (SubmitManual sha catalog jobKey parameters trigger reference requester)"
  "run_rel.moves (SubmitInTx sha catalog jobKey parameters trigger reference requester1)"
  "run_rel.moves (CreateRunAll sha catalog newOwner from to trigger reference requester1)"
  "run_rel.moves (CreateRunAllManual sha catalog newOwner from to trigger reference requester)"
  "run_rel.moves ReconcileOneParent"
  "run_rel.moves (ReconcileParent runID ownerID)"
  unfolding Submit_def SubmitManual_def SubmitInTx_def CreateRunAll_def CreateRunAllManual_def
    ReconcileOneParent_def ReconcileParent_def
  by (intro run_rel.moves_intros moves_submit moves_submitInTx moves_createRunAll moves_reconcileParent)+

lemmas moves_all = moves_UpdateRuntimeSettings moves_exported
  run_rel.moves_tx [OF moves_exported(3)] moves_Claim moves_Heartbeat moves_UpdateProgress
  moves_FreezeSnapshotDate moves_Finish run_rel.moves_tx [OF moves_FinishSucceededInTx]
  moves_RecoverOneStale moves_RecoverAbandoned moves_RequestCancellation

lemma run_step_safe: "run_step sha allowed catalog d d' \<Longrightarrow> run_safe d d'"
  by (induction rule: run_step.induct) (erule moves_all [THEN run_rel.movesD])+

lemma run_history_safe: "(run_step sha allowed catalog)\<^sup>*\<^sup>* d d' \<Longrightarrow> run_safe d d'"
  by (induction rule: rtranclp_induct) (auto intro: run_rel.R_refl run_rel.R_trans run_step_safe)

lemma history_row:
  assumes "run_inv d" "(run_step sha allowed catalog)\<^sup>*\<^sup>* d d'" "r \<in> set (runs d)"
  obtains r' where "r' \<in> set (runs d')" "row_step r r'" "run_inv d'"
proof -
  have "run_inv d'" "evolves (runs d) (runs d')"
    using run_history_safe [OF assms(2)] assms(1) by (simp_all add: run_safe_def)
  with assms(3) that show thesis by (blast elim: evolves_member)
qed

lemma same_id_row: "run_inv d \<Longrightarrow> r \<in> set (runs d) \<Longrightarrow> s \<in> set (runs d) \<Longrightarrow> r_id r = r_id s \<Longrightarrow> r = s"
  using distinct_by_id_eq [of r_id "runs d" r s] by (simp add: run_inv_def)

lemma run_inv_empty: "runs d = [] \<Longrightarrow> run_inv d"
  by (simp add: run_inv_def run_keys_ok_def unique_key_def serial_def sql_count_def)

section \<open>Fenced operations\<close>

lemma update_fenced:
  assumes "\<forall>t. \<forall>r \<in> set (runs base). \<not> P t r"
  shows "still.moves base (replay_exec (update_runs P f))"
    and "replay_exec (update_runs P f) e = (Inr n, e') \<Longrightarrow> db e = base \<Longrightarrow> n = 0 \<and> db e' = base"
proof -
  have none: "sql_update (P t) (f t) (runs base) = runs base" for t
    by (rule sql_update_none) (use assms in blast)
  then have changed: "sql_changed (P t) (f t) (runs base) = 0" for t by (simp add: sql_changed_0_iff)
  show "still.moves base (replay_exec (update_runs P f))"
    unfolding update_runs_def
    by (rule still.moves_retry_stmt) (auto simp: none write_runs_def split: if_splits sum.splits)
  show "n = 0 \<and> db e' = base" if "replay_exec (update_runs P f) e = (Inr n, e')" "db e = base"
    using that(1) unfolding update_runs_def
    by (rule replay_exec_stmt_InrE) (use that(2) in \<open>auto simp: none changed write_runs_def split: sum.splits if_splits\<close>)
qed

definition owns :: "rowid \<Rightarrow> string \<Rightarrow> 'a run_db_scheme \<Rightarrow> bool" where
  "owns runID ownerID d \<longleftrightarrow>
     list_ex (\<lambda>r. r_id r = runID \<and> r_status r = StatusRunning \<and> r_owner r = Some ownerID) (runs d)"

lemma fenced_rows:
  assumes "\<not> owns runID ownerID d"
  shows "r \<in> set (runs d) \<Longrightarrow> \<not> owned_row runID ownerID r"
    and "r \<in> set (runs d) \<Longrightarrow> \<not> finish_where runID ownerID status r"
    and "filter (owned_row runID ownerID) (runs d) = []"
  using assms by (auto simp: owns_def list_ex_iff finish_where_def owned_row_def filter_empty_conv)

lemma Finish_fenced:
  assumes "\<not> owns runID ownerID (db e)" "Finish runID ownerID status safeError e = (q, e')"
  shows "db e' = db e \<and> q \<noteq> Inr ()"
proof -
  have "\<forall>t :: time. \<forall>r \<in> set (runs (db e)). \<not> finish_where runID ownerID status r"
    using fenced_rows(2) assms(1) by blast
  note fenced = update_fenced [where base = "db e" and P = "\<lambda>t. finish_where runID ownerID status", OF this]
  have "still.moves (db e) (Finish runID ownerID status safeError)"
    unfolding Finish_def by (intro still.moves_intros fenced(1))
  from still.movesD [OF this assms(2)] have "db e' = db e" by simp
  moreover have "q \<noteq> Inr ()"
  proof
    assume "q = Inr ()"
    with assms(2) have "replay_exec (update_runs (\<lambda>t. finish_where runID ownerID status)
        (finish_row status safeError)) e = (Inr 1, e')"
      by (auto simp: Finish_def op_iff split: if_splits)
    from fenced(2) [OF this refl] show False by simp
  qed
  ultimately show ?thesis by simp
qed

lemma FreezeSnapshotDate_fenced:
  assumes "\<not> owns runID ownerID (db e)" "FreezeSnapshotDate runID ownerID date e = (q, e')"
  shows "db e' = db e \<and> q \<noteq> Inr ()"
proof -
  have "\<forall>t :: time. \<forall>r \<in> set (runs (db e)). \<not> (owned_row runID ownerID r \<and> r_snapshot r = None)"
    using fenced_rows(1) assms(1) by blast
  note fenced = update_fenced [where base = "db e" and P = "\<lambda>t r. owned_row runID ownerID r \<and> r_snapshot r = None", OF this]
  have "still.moves (db e) (FreezeSnapshotDate runID ownerID date)"
    unfolding FreezeSnapshotDate_def by (intro still.moves_intros fenced(1))
  from still.movesD [OF this assms(2)] show ?thesis
    using assms(2)
    by (auto simp: FreezeSnapshotDate_def op_iff split: if_splits sum.splits dest: fenced(2) [OF _ refl])
qed

lemma UpdateProgress_fenced:
  assumes "\<not> owns runID ownerID (db e)" "UpdateProgress allowed runID ownerID progress diagnostics e = (q, e')"
  shows "db e' = db e \<and> q \<noteq> Inr ()"
proof -
  have "\<forall>t :: time. \<forall>r \<in> set (runs (db e)). \<not> owned_row runID ownerID r"
    using fenced_rows(1) assms(1) by blast
  note fenced = update_fenced [where base = "db e" and P = "\<lambda>t. owned_row runID ownerID", OF this]
  have "still.moves (db e) (UpdateProgress allowed runID ownerID progress diagnostics)"
    unfolding UpdateProgress_def select_owned_def by (intro still.moves_intros fenced(1))
  from still.movesD [OF this assms(2)] have d': "db e' = db e" by simp
  have "False" if "q = Inr ()"
  proof -
    from assms(2) that obtain encoded e1 n e2 where
      "db e1 = db e" "replay_exec (update_runs (\<lambda>t. owned_row runID ownerID) (progress_row progress encoded)) e1 = (Inr n, e2)"
      and k: "(if n \<noteq> 1 then bind_op (select_owned runID ownerID) (\<lambda>owned.
         if \<not> owned then fail_op ErrOwnershipLost else ret_op ()) else ret_op ()) e2 = (Inr (), e')"
      by (auto simp: UpdateProgress_def op_iff split: option.splits)
    with fenced(2) have "n = 0" "db e2 = db e" by blast+
    with k assms(1) show False by (auto simp: op_iff select_owned_def owns_def owned_row_def [abs_def] split: if_splits)
  qed
  with d' show ?thesis by blast
qed

lemma Heartbeat_fenced:
  assumes "\<not> owns runID ownerID (db e)" "Heartbeat runID ownerID e = (q, e')"
  shows "db e' = db e \<and> (\<forall>h. q = Inr h \<longrightarrow> \<not> hb_Owned h)"
proof -
  have "\<forall>t :: time. \<forall>r \<in> set (runs (db e)). \<not> (owned_row runID ownerID r \<and> executable_kind (r_kind r))"
    using fenced_rows(1) assms(1) by blast
  note fenced = update_fenced [where base = "db e" and P = "\<lambda>t r. owned_row runID ownerID r \<and> executable_kind (r_kind r)", OF this]
  have "still.moves (db e) (Heartbeat runID ownerID)"
    unfolding Heartbeat_def select_cancelled_def by (intro still.moves_intros fenced(1))
  from still.movesD [OF this assms(2)] have d': "db e' = db e" by simp
  have "\<not> hb_Owned h" if "q = Inr h" for h
  proof -
    from assms(2) that obtain n e1 s e2 where
      "replay_exec (update_runs (\<lambda>t r. owned_row runID ownerID r \<and> executable_kind (r_kind r))
         (\<lambda>t r. r\<lparr>r_heartbeat := Some t\<rparr>)) e = (Inr n, e1)" "select_cancelled runID ownerID e1 = (s, e2)"
      and k: "(case s of Inl x \<Rightarrow> if x = ErrNoRows then ret_op \<lparr>hb_Owned = False, hb_CancelRequested = False\<rparr> else fail_op x
         | Inr cancelled \<Rightarrow> ret_op \<lparr>hb_Owned = True, hb_CancelRequested = cancelled\<rparr>) e2 = (Inr h, e')"
      by (auto simp: Heartbeat_def op_iff)
    then have "\<exists>x. s = Inl x"
      using fenced(2) fenced_rows(3) [OF assms(1)] by (cases s) (auto simp: select_cancelled_def op_iff)
    with k show ?thesis by (auto simp: op_iff split: if_splits)
  qed
  with d' show ?thesis by blast
qed

section \<open>A sample store\<close>

text \<open>A small store for the witnesses: a running job of the process \<open>sample_owner\<close>, a Run All parent
  with a finished and a planned child, and a queued job.\<close>

definition sample_owner :: string where "sample_owner = replicate 64 CHR ''a''"

definition sample_params :: Parameters where
  "sample_params = encode (\<lambda>_. []) LiveSnapshotV1 PUnit"

definition sample_run :: "Kind \<Rightarrow> rowid option \<Rightarrow> 16 word option \<Rightarrow> string \<Rightarrow> Status \<Rightarrow> rowid \<Rightarrow> run_row" where
  "sample_run kind parent position jobKey status i =
     (new_run kind parent position jobKey status sample_params TriggerDirect [] None i (int i))
       \<lparr>r_owner := (if status = StatusRunning then Some sample_owner else None),
        r_heartbeat := (if status = StatusRunning then Some (int i) else None)\<rparr>"

definition sample_runs :: "run_row list" where
  "sample_runs =
     [sample_run KindJob None None ''a'' StatusRunning 1,
      sample_run KindRunAllParent None None [] StatusRunning 2,
      sample_run KindRunAllChild (Some 2) (Some 1) ''b'' StatusSucceeded 3,
      sample_run KindRunAllChild (Some 2) (Some 2) ''c'' StatusPlanned 4,
      sample_run KindJob None None ''d'' StatusQueued 5]"

definition sample_store :: "run_row list \<Rightarrow> run_db" where
  "sample_store rows =
     \<lparr>audit_logs = [], runs = rows,
      settings = Some \<lparr>rs_MaxRunningJobs = 2, rs_FixedMemberConcurrency = 1, rs_DetailConcurrency = 1\<rparr>,
      sources = [\<lparr>so_id = ''c'', so_enabled = True, so_profile = None\<rparr>], profiles = []\<rparr>"

definition sample_env :: "run_row list \<Rightarrow> run_db env" where
  "sample_env rows = \<lparr>db = sample_store rows, tick = 0, clock = (\<lambda>n. 100 + int n), fault = \<lambda>_. None, locked = \<lambda>_ _. False\<rparr>"

lemmas sample_defs = sample_runs_def sample_run_def sample_store_def new_run_def nullable_def

lemma sample_rows: "run_keys_ok sample_runs" "list_all (\<lambda>r. run_shape_ok r \<and> run_progress_ok r) sample_runs"
  "distinct (map r_id sample_runs)"
  by code_simp+

lemma sample_inv: "run_inv (sample_store sample_runs)"
  using sample_rows
  by (simp add: run_inv_def sample_store_def serial_def)
    (simp add: sample_defs active_child_def sql_count_def)

section \<open>Properties\<close>

text \<open>
  C2. In every state that the operations reach from an empty table the invariant holds, a job has
  at most one queued or running execution, and a Run All parent at most one active child: the
  children of a Run All are executed one after the other.
\<close>

theorem run_history_serial:
  assumes "runs d0 = []" "(run_step sha allowed catalog)\<^sup>*\<^sup>* d0 d"
    "r \<in> set (runs d)" "s \<in> set (runs d)"
  shows "run_inv d \<and> (active_job_key r \<noteq> None \<and> active_job_key s = active_job_key r \<longrightarrow> s = r) \<and>
     (active_child p r \<and> active_child p s \<longrightarrow> s = r)"
proof -
  have inv: "run_inv d"
    using run_history_safe [OF assms(2)] run_inv_empty [OF assms(1)] by (simp add: run_safe_def)
  then have "unique_key active_job_key (runs d)" "sql_count (active_child p) (runs d) \<le> 1"
    by (simp_all add: run_inv_def run_keys_ok_def serial_def)
  with inv assms(3,4) show ?thesis
    using sql_count_1_eq [of "active_child p" "runs d" s r] by (auto dest: unique_key_eq)
qed

theorem run_history_serial_witness:
  "let e = snd (CreateRunAll (\<lambda>_. []) \<lparr>cat_jobs = [], cat_byKey = Map.empty\<rparr> (Inr sample_owner)
         (mk_date 2024 2 28) (mk_date 2024 2 29) TriggerDirect [] None (sample_env []))
   in map r_status (runs (db e)) = [StatusRunning] \<and> run_inv (db e)"
proof -
  let ?c = "\<lparr>cat_jobs = [], cat_byKey = Map.empty\<rparr> :: Catalog"
  define e where "e = snd (CreateRunAll (\<lambda>_. []) ?c (Inr sample_owner)
    (mk_date 2024 2 28) (mk_date 2024 2 29) TriggerDirect [] None (sample_env []))"
  have st: "map r_status (runs (db e)) = [StatusRunning]" unfolding e_def by code_simp
  have "run_step (\<lambda>_. []) (\<lambda>_. True) ?c (db (sample_env [])) (db e)"
    unfolding e_def by (rule run_step.run_all) (rule prod.collapse [symmetric])
  then have "(run_step (\<lambda>_. []) (\<lambda>_. True) ?c)\<^sup>*\<^sup>* (db (sample_env [])) (db e)" by blast
  from run_history_serial [OF _ this, of "hd (runs (db e))" "hd (runs (db e))" 1] st
  show ?thesis unfolding e_def Let_def by (cases "runs (db e)") (auto simp: e_def sample_env_def sample_store_def)
qed

text \<open>
  C14. Along every history a run keeps its identity (job, parameters, parent, position, trigger,
  requester), its status only moves forward, a terminal run never changes again, a run that
  becomes terminal has its finish time, and a frozen snapshot date stays.
\<close>

theorem run_history_rows:
  assumes "run_inv d" "(run_step sha allowed catalog)\<^sup>*\<^sup>* d d'" "r \<in> set (runs d)"
  shows "\<exists>r'. filter (\<lambda>q. r_id q = r_id r) (runs d') = [r'] \<and> same_identity r r' \<and>
     may_become (r_status r) (r_status r') \<and> (IsTerminal (r_status r) \<longrightarrow> r' = r) \<and>
     (IsTerminal (r_status r') \<and> r_finished r' = None \<longrightarrow> r' = r) \<and>
     (r_snapshot r \<noteq> None \<longrightarrow> r_snapshot r' = r_snapshot r)"
proof -
  obtain r' where r': "r' \<in> set (runs d')" "row_step r r'" "run_inv d'"
    by (rule history_row [OF assms])
  have "filter (\<lambda>q. r_id q = r_id r) (runs d') = [r']"
    using filter_by_id_single [of r_id "runs d'" r'] r' by (simp add: run_inv_def row_step_id)
  with r'(2) show ?thesis by (auto simp: row_step_def)
qed

theorem run_history_rows_witness:
  "let e = snd (Finish 1 sample_owner StatusFailed \<lparr>se_Class = ''x'', se_Message = ''y'', se_Step = ''z''\<rparr>
         (sample_env sample_runs)); row = hd (runs (db e))
   in r_status row = StatusFailed \<and> r_finished row \<noteq> None \<and> same_identity (hd sample_runs) row"
proof -
  define e where "e = snd (Finish 1 sample_owner StatusFailed \<lparr>se_Class = ''x'', se_Message = ''y'', se_Step = ''z''\<rparr>
         (sample_env sample_runs))"
  have st: "map r_status (filter (\<lambda>q. r_id q = 1) (runs (db e))) = [StatusFailed]"
    "hd (filter (\<lambda>q. r_id q = 1) (runs (db e))) = hd (runs (db e))"
    "r_finished (hd (runs (db e))) \<noteq> None" "r_id (hd sample_runs) = 1" "hd sample_runs \<in> set sample_runs"
    unfolding e_def by code_simp+
  have "run_step (\<lambda>_. []) (\<lambda>_. True) \<lparr>cat_jobs = [], cat_byKey = Map.empty\<rparr> (db (sample_env sample_runs)) (db e)"
    unfolding e_def by (rule run_step.finished) (rule prod.collapse [symmetric])
  then have "(run_step (\<lambda>_. []) (\<lambda>_. True) \<lparr>cat_jobs = [], cat_byKey = Map.empty\<rparr>)\<^sup>*\<^sup>*
      (db (sample_env sample_runs)) (db e)" by blast
  from run_history_rows [OF _ this, of "hd sample_runs"] sample_inv st
  show ?thesis unfolding e_def [symmetric] Let_def
    by (auto simp: sample_env_def sample_store_def)
qed

text \<open>
  C3. A run whose cancellation was requested before it succeeded never succeeds afterwards.
\<close>

theorem cancelled_never_succeeds:
  assumes "run_inv d" "(run_step sha allowed catalog)\<^sup>*\<^sup>* d d'"
    "r \<in> set (runs d)" "r_cancel_at r \<noteq> None" "r_status r \<noteq> StatusSucceeded"
    "r' \<in> set (runs d')" "r_id r' = r_id r"
  shows "r_status r' \<noteq> StatusSucceeded \<and> r_cancel_at r' \<noteq> None"
proof -
  obtain s where s: "s \<in> set (runs d')" "row_step r s" "run_inv d'"
    by (rule history_row [OF assms(1-3)])
  then have "s = r'" using same_id_row [of d' s r'] assms(6,7) row_step_id by metis
  with s(2) assms(4,5) show ?thesis by (auto simp: row_step_def)
qed

theorem cancelled_never_succeeds_witness:
  "let rows = sample_runs[0 := (hd sample_runs)\<lparr>r_cancel_at := Some 7\<rparr>];
       e = snd (Finish 1 sample_owner StatusSucceeded \<lparr>se_Class = [], se_Message = [], se_Step = []\<rparr> (sample_env rows))
   in r_status (hd (runs (db e))) = StatusRunning \<and> r_status (hd (runs (db e))) \<noteq> StatusSucceeded"
proof -
  define rows where "rows = sample_runs[0 := (hd sample_runs)\<lparr>r_cancel_at := Some 7\<rparr>]"
  define e where "e = snd (Finish 1 sample_owner StatusSucceeded
    \<lparr>se_Class = [], se_Message = [], se_Step = []\<rparr> (sample_env rows))"
  have "run_keys_ok rows" "list_all (\<lambda>r. run_shape_ok r \<and> run_progress_ok r) rows" "distinct (map r_id rows)"
    unfolding rows_def by code_simp+
  then have inv: "run_inv (sample_store rows)"
    by (simp add: run_inv_def sample_store_def serial_def)
      (simp add: rows_def sample_defs active_child_def sql_count_def)
  have st: "r_status (hd (runs (db e))) = StatusRunning" "hd rows \<in> set rows" "r_cancel_at (hd rows) \<noteq> None"
    "r_status (hd rows) \<noteq> StatusSucceeded" "hd (runs (db e)) \<in> set (runs (db e))" "r_id (hd (runs (db e))) = r_id (hd rows)"
    unfolding e_def rows_def by code_simp+
  have "run_step (\<lambda>_. []) (\<lambda>_. True) \<lparr>cat_jobs = [], cat_byKey = Map.empty\<rparr> (db (sample_env rows)) (db e)"
    unfolding e_def by (rule run_step.finished) (rule prod.collapse [symmetric])
  then have "(run_step (\<lambda>_. []) (\<lambda>_. True) \<lparr>cat_jobs = [], cat_byKey = Map.empty\<rparr>)\<^sup>*\<^sup>* (db (sample_env rows)) (db e)" by blast
  from cancelled_never_succeeds [OF _ this, of "hd rows" "hd (runs (db e))"] inv st
  show ?thesis unfolding rows_def [symmetric] Let_def e_def [symmetric]
    by (simp add: sample_env_def sample_store_def)
qed



end
