(* ===== verification/Run_Outcomes.thy ===== *)
theory Run_Outcomes
  imports Run_Lifecycle
begin

text \<open>
  What the operations of the run store achieve: admission control of \<open>Claim\<close>, the terminal
  transition of \<open>Finish\<close>, mutual exclusion of \<open>Submit\<close>, the verdict of a Run All and the
  termination of the recovery sweep.
\<close>

section \<open>Claim\<close>

definition running_count :: "'a run_db_scheme \<Rightarrow> nat" where
  "running_count d = sql_count (\<lambda>r. executable_kind (r_kind r) \<and> r_status r = StatusRunning) (runs d)"

definition claimable :: "(rowid \<Rightarrow> bool) \<Rightarrow> run_row \<Rightarrow> bool" where
  "claimable locks r \<longleftrightarrow> executable_kind (r_kind r) \<and> r_status r = StatusQueued \<and> \<not> locks (r_id r)"

lemma select_queued_Inr:
  assumes "select_queued e = (Inr i, e')"
  obtains r where "r \<in> set (runs (db e))" "r_id r = i" "claimable (locked e (tick e)) r"
    "\<And>q. q \<in> set (runs (db e)) \<Longrightarrow> claimable (locked e (tick e)) q \<Longrightarrow> (r_created r, r_id r) \<le> (r_created q, r_id q)"
    "db e' = db e"
proof -
  from assms obtain r where f: "sql_first_by (\<lambda>r. (r_created r, r_id r))
      (filter (claimable (locked e (tick e))) (runs (db e))) = Some r" "r_id r = i" "db e' = db e"
    by (auto simp: select_queued_def op_iff claimable_def [abs_def] conj_assoc split: option.splits)
  show thesis
    by (rule that [of r]) (use f sql_first_by_in [OF f(1)] sql_first_by_least [OF f(1)] in auto)
qed

lemma Claim_InrE:
  assumes "Claim allowed ownerID e = (Inr result, e')"
  obtains (idle) "result = None" "db e' = db e"
  | (admitted) s i n e1 e2 e3 run where "result = Some run" "length ownerID = 64" "settings (db e) = Some s"
      "ValidRuntimeLimit (rs_MaxRunningJobs s)" "int (running_count (db e)) < rs_MaxRunningJobs s"
      "locked e1 = locked e" "db e1 = db e" "select_queued e1 = (Inr i, e2)"
      "update_runs (\<lambda>t r. r_id r = i \<and> r_status r = StatusQueued) (claim_row ownerID) e2 = (Inr 1, e3)"
      "getRun allowed i e3 = (Inr run, n)" "db e' = db n"
proof -
  have len: "length ownerID = 64" using assms by (auto simp: Claim_def fail_op_def split: if_splits)
  with assms have "tx_body (claim_work allowed ownerID) e = (Inr result, e')" by (simp add: Claim_def)
  then show thesis
  proof (cases rule: tx_body_success)
    case (rollback e1 e2)
    from rollback(3) have "result = None"
      by (auto simp: claim_work_def op_iff case_sum_op Let_def split: if_splits)
    with rollback(4) show thesis by (rule idle [rotated])
  next
    case (commit e1 e2)
    from commit(3) obtain s e3 running e4 i e5 e6 run where
        s: "select_settings e1 = (Inr s, e3)" "ValidRuntimeLimit (rs_MaxRunningJobs s)"
      and c: "runningJobs e3 = (Inr running, e4)" "int running < rs_MaxRunningJobs s"
      and u: "select_queued e4 = (Inr i, e5)"
        "update_runs (\<lambda>t r. r_id r = i \<and> r_status r = StatusQueued) (claim_row ownerID) e5 = (Inr 1, e6)"
        "getRun allowed i e6 = (Inr run, e2)" "result = Some run"
      by (auto simp: claim_work_def op_iff case_sum_op Let_def split: if_splits)
    have srv: "same_server e3 e4" "same_server e1 e3"
      using s c unfolding select_settings_def runningJobs_def by (blast dest: steadyD [OF steady_query])+
    show thesis
      by (rule admitted [OF u(4) len _ s(2) _ _ _ u(1,2,3) commit(4)])
        (use s c commit(1,2) srv in \<open>auto simp: select_settings_def runningJobs_def op_iff running_count_def
          same_server_def split: option.splits\<close>)
  qed
qed

text \<open>
  C11. \<open>Claim\<close> admits by capacity and age. It changes nothing unless it returns a run; then that run
  was queued, executable, unlocked and the oldest such run, it is now running under the caller's
  owner with its claim time as heartbeat, no other row changed, and the number of running
  executions is at most \<open>max_running_jobs\<close>.
\<close>

theorem Claim_admits:
  assumes "run_inv (db e)" "Claim allowed ownerID e = (Inr result, e')"
  shows "case result of
      None \<Rightarrow> db e' = db e
    | Some run \<Rightarrow> \<exists>s r t n. settings (db e) = Some s \<and> r \<in> set (runs (db e)) \<and> claimable (locked e n) r \<and>
        (\<forall>q \<in> set (runs (db e)). claimable (locked e n) q \<longrightarrow> (r_created r, r_id r) \<le> (r_created q, r_id q)) \<and>
        db e' = (db e)\<lparr>runs := sql_update (\<lambda>q. r_id q = r_id r) (claim_row ownerID t) (runs (db e))\<rparr> \<and>
        running_count (db e') = Suc (running_count (db e)) \<and> int (running_count (db e')) \<le> rs_MaxRunningJobs s \<and>
        run_ID run = r_id r \<and> run_OwnerID run = ownerID \<and> run_Status run = StatusRunning"
  using assms(2)
proof (cases rule: Claim_InrE)
  case idle
  then show ?thesis by simp
next
  case (admitted s i n e1 e2 e3 run)
  from admitted(8) obtain r where r: "r \<in> set (runs (db e))" "r_id r = i" "claimable (locked e (tick e1)) r"
    "\<And>q. q \<in> set (runs (db e)) \<Longrightarrow> claimable (locked e (tick e1)) q \<Longrightarrow> (r_created r, r_id r) \<le> (r_created q, r_id q)"
    and d2: "db e2 = db e"
    by (rule select_queued_Inr) (use admitted(6,7) in auto)
  let ?P = "\<lambda>q. r_id q = r_id r"
  let ?f = "claim_row ownerID (clock e2 (tick e2))"
  have sel: "(r_id q = i \<and> r_status q = StatusQueued) = ?P q" if "q \<in> set (runs (db e))" for q
    using same_id_row [OF assms(1) that r(1)] r(2,3) by (auto simp: claimable_def)
  have d3: "db e3 = (db e)\<lparr>runs := sql_update ?P ?f (runs (db e))\<rparr>"
    using admitted(9) sql_update_cong [of "runs (db e)", OF sel] by (auto simp: update_runs_Inr Let_def d2)
  have d': "db e' = db e3" "run_value allowed (?f r) = Inr run"
  proof -
    have "distinct (map r_id (runs (db e3)))"
      using assms(1) map_sql_update [of "runs (db e)" ?P r_id ?f] by (simp add: d3 run_inv_def claim_row_def)
    moreover have "?f r \<in> set (runs (db e3))" "r_id (?f r) = i"
      using r(1,2) by (auto simp: d3 set_sql_update claim_row_def)
    ultimately have "filter (\<lambda>q. r_id q = i) (runs (db e3)) = [?f r]"
      using filter_by_id_single [of r_id "runs (db e3)" "?f r"] by simp
    with admitted(10,11) show "db e' = db e3" "run_value allowed (?f r) = Inr run"
      by (auto simp: getRun_def get_run_row_def op_iff)
  qed
  have count: "running_count (db e') = Suc (running_count (db e))"
    unfolding d'(1) d3 running_count_def
    using assms(1) r(1,3)
    by (simp, intro sql_count_one [where ident = r_id]) (auto simp: run_inv_def claimable_def claim_row_def)
  show ?thesis
    unfolding admitted(1) option.simps
    by (rule exI [of _ s], rule exI [of _ r], rule exI [of _ "clock e2 (tick e2)"], rule exI [of _ "tick e1"])
      (use admitted(3,5) r d' d3 count in
        \<open>auto simp: run_value_def claim_row_def or_empty_def split: sum.splits\<close>)
qed

theorem Claim_admits_witness:
  "let e = sample_env (sample_runs[0 := (hd sample_runs)\<lparr>r_status := StatusFailed\<rparr>]); q = Claim (\<lambda>_. True) sample_owner e
   in map_sum id (map_option run_ID) (fst q) = Inr (Some 5) \<and> running_count (db (snd q)) = Suc (running_count (db e))"
proof -
  define rows where "rows = sample_runs[0 := (hd sample_runs)\<lparr>r_status := StatusFailed\<rparr>]"
  define q where "q = Claim (\<lambda>_. True) sample_owner (sample_env rows)"
  have "run_keys_ok rows" "list_all (\<lambda>r. run_shape_ok r \<and> run_progress_ok r) rows" "distinct (map r_id rows)"
    unfolding rows_def by code_simp+
  then have inv: "run_inv (db (sample_env rows))"
    by (simp add: run_inv_def sample_env_def sample_store_def serial_def)
      (simp add: rows_def sample_defs active_child_def sql_count_def)
  have ok: "map_sum id (map_option run_ID) (fst q) = Inr (Some 5)"
    unfolding q_def rows_def by code_simp
  then obtain run where run: "Claim (\<lambda>_. True) sample_owner (sample_env rows) = (Inr (Some run), snd q)"
    unfolding q_def by (cases "Claim (\<lambda>_. True) sample_owner (sample_env rows)") (auto simp: map_sum_def split: sum.splits)
  have "running_count (db (snd q)) = Suc (running_count (db (sample_env rows)))"
    using Claim_admits [OF inv run] by auto
  with ok show ?thesis unfolding rows_def [symmetric] q_def [symmetric] Let_def by simp
qed

section \<open>Terminal transitions\<close>

lemma run_keys_update:
  assumes "run_keys_ok rows" "\<And>r. r \<in> set rows \<Longrightarrow> P r \<Longrightarrow> same_identity r (f r)"
    "\<And>r. r \<in> set rows \<Longrightarrow> P r \<Longrightarrow> active_job_key (f r) = active_job_key r \<or> active_job_key (f r) = None"
  shows "run_keys_ok (sql_update P f rows)"
  using assms unfolding run_keys_ok_def
  by (intro conjI unique_key_update)
    (auto simp: same_identity_def parent_position_def parent_job_def scheduler_reference_def)

lemma update_runs_total:
  assumes "healthy e" "run_inv (db e)"
    "\<And>t r. P t r \<Longrightarrow> same_identity r (f t r) \<and> (active_job_key (f t r) = active_job_key r \<or> active_job_key (f t r) = None)"
    "\<And>t r. P t r \<Longrightarrow> run_progress_ok r \<Longrightarrow> run_progress_ok (f t r)"
  shows "\<exists>t e'. update_runs P f e = (Inr (sql_changed (P t) (f t) (runs (db e))), e') \<and>
     db e' = (db e)\<lparr>runs := sql_update (P t) (f t) (runs (db e))\<rparr>"
proof -
  let ?t = "clock e (tick e)"
  have "run_keys_ok (sql_update (P ?t) (f ?t) (runs (db e)))"
    by (rule run_keys_update) (use assms in \<open>auto simp: run_inv_def\<close>)
  moreover have "list_all (\<lambda>r. run_shape_ok r \<and> run_progress_ok r) (sql_update (P ?t) (f ?t) (runs (db e)))"
    by (rule list_all_update) (use assms in \<open>auto simp: run_inv_def run_shape_ok_def same_identity_def split: Kind.splits\<close>)
  ultimately show ?thesis
    using assms(1) by (intro exI [of _ ?t]) (simp add: update_runs_Inr healthy_def Let_def)
qed



section \<open>Submission\<close>

lemma insertRun_job_free:
  assumes "insertRun KindJob None None jobKey StatusQueued parameters trigger reference requester e = (Inr i, e')"
    "r \<in> set (runs (db e))"
  shows "active_job_key r \<noteq> Some jobKey"
proof -
  let ?a = "new_run KindJob None None jobKey StatusQueued parameters trigger reference requester
    (next_id r_id (runs (db e))) (clock e (tick e))"
  from assms(1) have keys: "run_keys_ok (runs (db e) @ [?a])"
    and shape: "run_shape_ok ?a"
    by (auto simp: insertRun_def op_iff Let_def write_runs_def list_all_append split: sum.splits if_splits)
  from shape have "jobKey \<noteq> []" by (auto simp: run_shape_ok_def new_run_def nullable_def)
  then have "active_job_key ?a = Some jobKey"
    by (simp add: active_job_key_def new_run_def executable_kind_def nullable_def)
  with keys assms(2) unique_key_snoc [of active_job_key "runs (db e)" ?a r] show ?thesis
    by (simp add: run_keys_ok_def)
qed

lemma insertRun_busy:
  assumes "healthy e" "run_inv (db e)" "r \<in> set (runs (db e))" "active_job_key r = Some jobKey" "jobKey \<noteq> []"
  shows "insertRun KindJob None None jobKey StatusQueued parameters trigger reference requester e =
    (Inl (ErrMySQL 1062), e\<lparr>tick := Suc (tick e)\<rparr>)"
proof -
  let ?a = "new_run KindJob None None jobKey StatusQueued parameters trigger reference requester
    (next_id r_id (runs (db e))) (clock e (tick e))"
  have a: "run_shape_ok ?a" "run_progress_ok ?a" "active_job_key ?a = Some jobKey"
    using assms(5) by (simp_all add: run_shape_ok_def run_progress_ok_def active_job_key_def new_run_def
      nullable_def executable_kind_def)
  have "\<not> run_keys_ok (runs (db e) @ [?a])"
    using unique_key_snoc [of active_job_key "runs (db e)" ?a r] assms(3,4) a(3) by (auto simp: run_keys_ok_def)
  with a assms(1,2) show ?thesis
    by (auto simp: insertRun_def stmt_def healthy_def Let_def write_runs_def run_inv_def list_all_append)
qed

lemma submitInTx_Inr:
  assumes "submitInTx sha catalog jobKey parameters trigger reference requester requireAuth e = (Inr i, e')"
  obtains e1 j where "db e1 = db e" "Find catalog jobKey = Some j" "Validate sha parameters j = Inr ()"
    "insertRun KindJob None None jobKey StatusQueued parameters trigger reference requester e1 = (Inr i, e')"
proof -
  let ?check = "if requireAuth then sourceReady jobKey
    else bind_op (sourceEnabled jobKey) (\<lambda>enabled. if \<not> enabled then fail_op ErrSourceDisabled else ret_op ())"
  have still: "still.moves (db e) ?check"
    unfolding sourceReady_def sourceEnabled_def find_source_def select_profile_def by (intro still.moves_intros)
  from assms obtain j e1 u where j: "Find catalog jobKey = Some j" "Validate sha parameters j = Inr ()"
    and c: "?check e = (Inr u, e1)"
    and k: "bind_op (try_op (insertRun KindJob None None jobKey StatusQueued parameters trigger
                              reference requester)) (\<lambda>result.
             case result of
               Inl x \<Rightarrow> if duplicate x then fail_op ErrJobBusy else fail_op x
             | Inr i \<Rightarrow> ret_op i) e1 = (Inr i, e')"
    unfolding submitInTx_def
    by (cases "trigger = TriggerScheduler \<and> TrimSpace reference = []"; cases "Find catalog jobKey")
      (auto simp: fail_op_def bind_op_Inr_iff [of ?check] bind_op_Inr_iff [of "lift_op _"] lift_op_Inr_iff simp del: if_split)
  show thesis
    by (rule that [OF _ j])
      (use still.movesD [OF still c] k in \<open>auto simp: op_iff case_sum_op split: if_splits\<close>)
qed

lemma submitInTx_busy_fails:
  assumes "submitInTx sha catalog jobKey parameters trigger reference requester requireAuth e = (Inr i, e')"
    "r \<in> set (runs (db e))"
  shows "active_job_key r \<noteq> Some jobKey"
proof -
  from assms(1) obtain e1 j where "db e1 = db e" and
    "insertRun KindJob None None jobKey StatusQueued parameters trigger reference requester e1 = (Inr i, e')"
    by (rule submitInTx_Inr)
  with insertRun_job_free [of jobKey parameters trigger reference requester e1 i e' r] assms(2) show ?thesis by simp
qed

text \<open>
  C31. A job that is queued or running cannot be submitted again: the submission fails and leaves
  the store as it was; where nothing else is wrong with it, the caller gets \<open>ErrJobBusy\<close>.
\<close>

theorem Submit_busy:
  assumes "r \<in> set (runs (db e))" "active_job_key r = Some jobKey"
  shows "(\<exists>x e'. Submit sha catalog jobKey parameters trigger reference requester e = (Inl x, e') \<and> db e' = db e) \<and>
     (healthy e \<and> run_inv (db e) \<and> jobKey \<noteq> [] \<and> Find catalog jobKey = Some j \<and> Validate sha parameters j = Inr () \<and>
        (trigger = TriggerScheduler \<longrightarrow> TrimSpace reference \<noteq> []) \<and>
        filter (\<lambda>s. so_id s = jobKey) (sources (db e)) = [s] \<and> so_enabled s \<longrightarrow>
      fst (Submit sha catalog jobKey parameters trigger reference requester e) = Inl ErrJobBusy)"
proof -
  obtain q e' where run: "Submit sha catalog jobKey parameters trigger reference requester e = (q, e')" by fastforce
  have "\<exists>x. q = Inl x"
  proof (rule ccontr)
    assume "\<nexists>x. q = Inl x"
    then obtain i where "q = Inr i" by (cases q) auto
    with run obtain e1 e2 where "db e1 = db e"
      "submitInTx sha catalog jobKey parameters trigger reference requester False e1 = (Inr i, e2)"
      by (auto simp: Submit_def submit_def op_iff elim!: tx_attempt_InrE)
    with submitInTx_busy_fails [of sha catalog jobKey parameters trigger reference requester False e1 i e2 r] assms
    show False by simp
  qed
  then have fails: "\<exists>x e'. Submit sha catalog jobKey parameters trigger reference requester e = (Inl x, e') \<and> db e' = db e"
    using run tx_attempt_Inl_db unfolding Submit_def submit_def by fast
  moreover have "fst (Submit sha catalog jobKey parameters trigger reference requester e) = Inl ErrJobBusy"
    if "healthy e" "run_inv (db e)" "jobKey \<noteq> []" "Find catalog jobKey = Some j" "Validate sha parameters j = Inr ()"
      "trigger = TriggerScheduler \<longrightarrow> TrimSpace reference \<noteq> []"
      "filter (\<lambda>s. so_id s = jobKey) (sources (db e)) = [s]" "so_enabled s"
  proof -
    let ?e1 = "e\<lparr>tick := Suc (tick e)\<rparr>" and ?e2 = "e\<lparr>tick := Suc (Suc (tick e))\<rparr>"
    have b: "begin_tx e = (Inr (), ?e1)" using that(1) by (simp add: begin_tx_def op_iff healthy_def)
    have src: "sourceEnabled jobKey ?e1 = (Inr True, ?e2)"
      using that(1,7,8) by (simp add: sourceEnabled_def find_source_def op_iff healthy_def)
    have ins: "insertRun KindJob None None jobKey StatusQueued parameters trigger reference requester ?e2 =
        (Inl (ErrMySQL 1062), ?e2\<lparr>tick := Suc (tick ?e2)\<rparr>)"
      by (rule insertRun_busy) (use that assms in \<open>auto simp: healthy_def\<close>)
    have "submitInTx sha catalog jobKey parameters trigger reference requester False ?e1 =
        (Inl ErrJobBusy, ?e2\<lparr>tick := Suc (tick ?e2)\<rparr>)"
      using that(4-6) src ins by (auto simp: submitInTx_def bind_op_def lift_op_def ret_op_def try_op_def fail_op_def duplicate_def)
    with b show ?thesis by (simp add: Submit_def submit_def tx_attempt_def bind_op_def)
  qed
  ultimately show ?thesis by blast
qed

theorem Submit_busy_witness:
  "let j = \<lparr>jd_Key = ''c'', jd_Name = ''c'', jd_Category = CategoryMaster, jd_DateStrategy = NoDate,
         jd_Active = True, jd_Fixed = None, jd_Maintenance = None, jd_Master = None\<rparr>;
       e = sample_env [sample_run KindJob None None ''c'' StatusQueued 5]
   in fst (Submit (\<lambda>_. []) \<lparr>cat_jobs = [j], cat_byKey = [''c'' \<mapsto> j]\<rparr> ''c'' sample_params TriggerDirect [] None e) =
        Inl ErrJobBusy"
proof -
  let ?j = "\<lparr>jd_Key = ''c'', jd_Name = ''c'', jd_Category = CategoryMaster, jd_DateStrategy = NoDate,
     jd_Active = True, jd_Fixed = None, jd_Maintenance = None, jd_Master = None\<rparr>"
  let ?c = "\<lparr>cat_jobs = [?j], cat_byKey = [''c'' \<mapsto> ?j]\<rparr>"
  let ?r = "sample_run KindJob None None ''c'' StatusQueued 5"
  let ?s = "\<lparr>so_id = ''c'', so_enabled = True, so_profile = None\<rparr>"
  have "run_keys_ok [?r]" "list_all (\<lambda>r. run_shape_ok r \<and> run_progress_ok r) [?r]" "distinct (map r_id [?r])"
    by code_simp+
  then have "run_inv (db (sample_env [?r]))"
    by (simp add: run_inv_def sample_env_def sample_store_def serial_def)
      (simp add: sample_defs active_child_def sql_count_def)
  moreover have "?r \<in> set (runs (db (sample_env [?r])))" "active_job_key ?r = Some ''c''" by code_simp+
  moreover have "Validate (\<lambda>_. []) sample_params ?j = Inr ()" by code_simp
  ultimately show ?thesis
    using Submit_busy [of ?r "sample_env [?r]" "''c''" "\<lambda>_. []" ?c sample_params TriggerDirect "[]" None ?j ?s]
    by (simp add: healthy_def sample_env_def sample_store_def Find_def)
qed

end
