(* ===== verification/Run_All.thy ===== *)
theory Run_All
  imports Run_Outcomes
begin

text \<open>
  The end of a Run All and the recovery of lost runs: a parent is closed only when no child is
  active, with the verdict of its children, and the recovery sweep returns after one transaction.
\<close>

section \<open>The verdict\<close>

text \<open>The specification of \<open>aggregateParentStatus\<close>, over the final statuses of the children.\<close>

definition run_all_verdict :: "rowid \<Rightarrow> run_row list \<Rightarrow> Status" where
  "run_all_verdict p rows =
     (let statuses = map r_status (filter (\<lambda>r. r_parent r = Some p) rows)
      in if list_ex (\<lambda>s. s \<in> {StatusFailed, StatusCancelled, StatusAbandoned}) statuses then StatusFailed
         else if StatusSkipped \<in> set statuses then StatusCompletedWithSkips else StatusCompleted)"

lemma child_count_pos:
  "child_count p s rows > 0 \<longleftrightarrow> s \<in> set (map r_status (filter (\<lambda>r. r_parent r = Some p) rows))"
  by (auto simp: child_count_def sql_count_def filter_empty_conv)

lemma verdict_counts:
  "run_all_verdict p rows =
     (if child_count p StatusFailed rows + child_count p StatusCancelled rows + child_count p StatusAbandoned rows > 0
      then StatusFailed
      else if child_count p StatusSkipped rows > 0 then StatusCompletedWithSkips else StatusCompleted)"
  unfolding add_gr_0 child_count_pos run_all_verdict_def Let_def list_ex_iff by (intro if_cong refl) blast

lemma aggregate_verdict:
  "aggregateParentStatus p e = (Inr status, e') \<Longrightarrow> status = run_all_verdict p (runs (db e)) \<and> db e' = db e"
  by (auto simp: aggregateParentStatus_def op_iff Let_def verdict_counts)

lemma start_child_rows:
  assumes "start_child child e = (Inr a, e')"
  shows "\<exists>P f. db e' = (db e)\<lparr>runs := sql_update P f (runs (db e))\<rparr> \<and> (\<forall>r. P r \<longrightarrow> r_id r = r_id child)"
proof -
  have upd: "\<exists>P f. db e2 = (db e1)\<lparr>runs := sql_update P f (runs (db e1))\<rparr> \<and> (\<forall>r. P r \<longrightarrow> r_id r = r_id child)"
    if "update_runs Q g e1 = (Inr n, e2)" "\<And>t r. Q t r \<Longrightarrow> r_id r = r_id child" for Q g n e1 e2
    using that by (auto simp: update_runs_Inr Let_def)
  have inl: "update_runs Q g e1 = (Inl x, e2) \<Longrightarrow> db e2 = db e1" for Q g x e1 e2
    by (rule update_runs_Inl_db)
  have "still.moves (db e) (sourceEnabled (or_empty (r_job child)))"
    unfolding sourceEnabled_def find_source_def by (intro still.moves_intros)
  then have src: "sourceEnabled (or_empty (r_job child)) e = (q, e1) \<Longrightarrow> db e1 = db e" for q e1
    by (auto dest: still.movesD)
  from assms obtain enabled e1 where en: "db e1 = db e" and
    k: "(if \<not> enabled then
       bind_op (update_runs (\<lambda>t r. r_id r = r_id child) (skip_row ''source_disabled'')) (\<lambda>_. ret_op True)
     else
       bind_op (try_op (update_runs (\<lambda>t r. r_id r = r_id child \<and> r_status r = StatusPlanned)
                          (\<lambda>t r. r\<lparr>r_status := StatusQueued\<rparr>))) (\<lambda>result.
       case result of
         Inl x \<Rightarrow>
           if duplicate x then
             bind_op (update_runs (\<lambda>t r. r_id r = r_id child) (skip_row ''job_busy'')) (\<lambda>_. ret_op True)
           else fail_op x
       | Inr _ \<Rightarrow> ret_op True)) e1 = (Inr a, e')"
    unfolding start_child_def bind_op_Inr_iff [of "sourceEnabled _"] using src by blast
  from k obtain Q g n e2 where d2: "db e2 = db e1" and u: "update_runs Q g e2 = (Inr n, e')"
    "\<And>t r. Q t r \<Longrightarrow> r_id r = r_id child"
    by (auto simp: op_iff case_sum_op split: if_splits dest: inl)
  with upd [OF u] show ?thesis by (simp add: d2 en)
qed

lemma select_planned_none:
  "select_planned p e = (Inl ErrNoRows, e') \<Longrightarrow> r \<in> set (runs (db e)) \<Longrightarrow> r_parent r = Some p \<Longrightarrow>
   r_status r \<noteq> StatusPlanned"
  by (auto simp: select_planned_def filter_empty_conv split: option.splits dest!: query_NoRows)

lemma close_rows:
  "bind_op (update_runs (\<lambda>t. owned_row p owner) (close_row status)) (\<lambda>_. ret_op True) e = (Inr a, e') \<Longrightarrow>
   \<exists>t. db e' = (db e)\<lparr>runs := sql_update (owned_row p owner) (close_row status t) (runs (db e))\<rparr>"
  by (auto simp: op_iff update_runs_Inr Let_def)

lemma advance_parent_rows:
  assumes run: "advance_parent p owner cancelled e = (Inr a, e')"
  obtains (child) P f c where "c \<in> set (runs (db e))" "r_parent c = Some p"
      "db e' = (db e)\<lparr>runs := sql_update P f (runs (db e))\<rparr>" "\<And>r. P r \<Longrightarrow> r_id r = r_id c"
  | (closed) status t where
      "db e' = (db e)\<lparr>runs := sql_update (owned_row p owner) (close_row status t) (runs (db e))\<rparr>"
      "(cancelled \<and> status = StatusCancelled) \<or>
       (\<forall>c \<in> set (runs (db e)). r_parent c = Some p \<longrightarrow> r_status c \<noteq> StatusPlanned) \<and> status = run_all_verdict p (runs (db e))"
proof (cases cancelled)
  case True
  with run have "bind_op (update_runs (\<lambda>t. owned_row p owner) (close_row StatusCancelled)) (\<lambda>_. ret_op True) e = (Inr a, e')"
    by (simp add: advance_parent_def)
  from close_rows [OF this] show thesis using True closed by blast
next
  case False
  obtain planned e1 where pl: "select_planned p e = (planned, e1)" by fastforce
  have d1: "db e1 = db e" using pl unfolding select_planned_def by (rule query_db)
  show thesis
  proof (cases planned)
    case (Inr c)
    with run False have "start_child c e1 = (Inr a, e')"
      unfolding advance_parent_def by (simp add: bind_try [of "select_planned p" e planned e1, OF pl])
    from start_child_rows [OF this] obtain P f where
      "db e' = (db e)\<lparr>runs := sql_update P f (runs (db e))\<rparr>" "\<forall>r. P r \<longrightarrow> r_id r = r_id c" by (auto simp: d1)
    moreover have "c \<in> set (runs (db e))" "r_parent c = Some p"
      using select_planned_Inr [of p e c e1] pl Inr by auto
    ultimately show thesis using child by blast
  next
    case (Inl x)
    with run False have x: "x = ErrNoRows" and f: "finish_parent p owner e1 = (Inr a, e')"
      unfolding advance_parent_def
      by (simp_all add: bind_try [of "select_planned p" e planned e1, OF pl] fail_op_def split: if_splits)
    from f obtain status e2 where ag: "aggregateParentStatus p e1 = (Inr status, e2)"
      and k: "bind_op (update_runs (\<lambda>t. owned_row p owner) (close_row status)) (\<lambda>_. ret_op True) e2 = (Inr a, e')"
      unfolding finish_parent_def bind_op_Inr_iff [of "aggregateParentStatus _"] by blast
    from aggregate_verdict [OF ag] have st: "status = run_all_verdict p (runs (db e))" "db e2 = db e" by (auto simp: d1)
    have "\<forall>c \<in> set (runs (db e)). r_parent c = Some p \<longrightarrow> r_status c \<noteq> StatusPlanned"
      using select_planned_none [of p e e1] pl Inl x by blast
    with close_rows [OF k] st closed show thesis by auto
  qed
qed

lemma verdict_other:
  "(\<And>r. r \<in> set rows \<Longrightarrow> P r \<Longrightarrow> r_parent r \<noteq> Some p \<and> r_parent (f r) \<noteq> Some p) \<Longrightarrow>
   run_all_verdict p (sql_update P f rows) = run_all_verdict p rows"
  by (simp add: run_all_verdict_def filter_sql_update_other)

text \<open>What \<open>closed_well\<close> asks of a parent that was just closed: no child is queued or running, and
  either the parent was cancelled, or no child is left and its status is their verdict.\<close>

definition closed_well :: "run_row \<Rightarrow> Status \<Rightarrow> run_row list \<Rightarrow> bool" where
  "closed_well parent status rows \<longleftrightarrow>
     (\<forall>c \<in> set rows. \<not> active_child (r_id parent) c) \<and>
     (r_cancel_at parent \<noteq> None \<and> status = StatusCancelled \<or>
      (\<forall>c \<in> set rows. r_parent c = Some (r_id parent) \<longrightarrow> r_status c \<noteq> StatusPlanned) \<and>
      status = run_all_verdict (r_id parent) rows)"

lemma parent_shape: "run_inv d \<Longrightarrow> r \<in> set (runs d) \<Longrightarrow> r_kind r = KindRunAllParent \<Longrightarrow> r_parent r = None"
  by (auto simp: run_inv_def list_all_iff run_shape_ok_def dest!: bspec)

text \<open>The step from the state in which the parent was locked and found without active children.\<close>

lemma advance_closes:
  assumes inv: "run_inv d" and idle: "sql_count (active_child q) (runs d) = 0"
    and adv: "advance_parent q owner cancelled e = (Inr a, e')" "db e = d"
    and p: "p \<in> set (runs d)" "r_kind p = KindRunAllParent" "\<not> IsTerminal (r_status p)"
    and p': "p' \<in> set (runs (db e'))" "r_id p' = r_id p" "IsTerminal (r_status p')"
    and cancelled: "q = r_id p \<Longrightarrow> cancelled = (r_cancel_at p \<noteq> None)"
  shows "closed_well p (r_status p') (runs (db e'))"
proof -
  have inv': "run_inv (db e')"
    using advance_parent_safe [OF adv(1)] idle inv adv(2) by (simp add: run_safe_def)
  have gone: "p \<notin> set (runs (db e'))" using same_id_row [OF inv' p'(1)] p(3) p'(2,3) by auto
  from adv(1) show ?thesis
  proof (cases rule: advance_parent_rows)
    case (child P f c)
    have "r_id c \<noteq> r_id p" using child(1,2) adv(2) p same_id_row [OF inv, of c p] parent_shape [OF inv p(1,2)] by auto
    with child(4) have "\<not> P p" by metis
    then have "p \<in> set (runs (db e'))" using p(1) adv(2) by (auto simp: child(3) set_sql_update)
    with gone show ?thesis by blast
  next
    case (closed status t)
    have rows': "runs (db e') = sql_update (owned_row q owner) (close_row status t) (runs d)"
      by (simp add: closed(1) adv(2))
    have owned: "owned_row q owner p" using gone p(1) by (force simp: rows' set_sql_update)
    then have q: "q = r_id p" by (simp add: owned_row_def)
    have sel: "r = p" if "r \<in> set (runs d)" "owned_row q owner r" for r
      using same_id_row [OF inv that(1) p(1)] that(2) q by (simp add: owned_row_def)
    have "close_row status t p \<in> set (runs (db e'))" using owned p(1) by (force simp: rows' set_sql_update)
    then have "p' = close_row status t p"
      by (rule same_id_row [OF inv' p'(1)]) (simp add: p'(2) close_row_def)
    then have st: "r_status p' = status" by (simp add: close_row_def)
    have other: "r_parent r \<noteq> Some (r_id p) \<and> r_parent (close_row status t r) \<noteq> Some (r_id p)"
      if "r \<in> set (runs d)" "owned_row q owner r" for r
      using sel [OF that] parent_shape [OF inv p(1,2)] by (simp add: close_row_def)
    have kids: "c \<in> set (runs d)" if "c \<in> set (runs (db e'))" "r_parent c = Some (r_id p)" for c
      using that other by (auto simp: rows' set_sql_update)
    have "\<not> active_child (r_id p) c" if "c \<in> set (runs (db e'))" for c
      using kids [OF that] idle by (auto simp: sql_count_0_iff q active_child_def)
    moreover have "run_all_verdict (r_id p) (runs (db e')) = run_all_verdict (r_id p) (runs d)"
      unfolding rows' by (rule verdict_other [OF other])
    ultimately show ?thesis
      using closed(2) kids cancelled [OF q] unfolding closed_well_def st by (auto simp: adv(2) q)
  qed
qed

lemma reconcile_closes:
  assumes inv: "run_inv (db e)" and run: "reconcileParentTransaction exactID exactOwner e = (Inr a, e')"
    and p: "p \<in> set (runs (db e))" "r_kind p = KindRunAllParent" "\<not> IsTerminal (r_status p)"
    and p': "p' \<in> set (runs (db e'))" "r_id p' = r_id p" "IsTerminal (r_status p')"
  shows "closed_well p (r_status p') (runs (db e'))"
  using run
proof (cases rule: reconcile_Inr_cases)
  case none
  then show ?thesis using same_id_row [OF inv, of p' p] p p' by auto
next
  case (parent q e1 n e2 current e3 active e4)
  let ?own = "owned_row (r_id q) (or_empty (r_owner q))"
  from parent(3) obtain t where rows2: "runs (db e2) = sql_update ?own (\<lambda>r. r\<lparr>r_heartbeat := Some t\<rparr>) (runs (db e))"
    using parent(2) by (auto simp: update_runs_Inr Let_def)
  have hb: "run_rel.moves (update_runs (\<lambda>t. owned_row i owner) (\<lambda>t r. r\<lparr>r_heartbeat := Some t\<rparr>))" for i owner
    by (rule moves_update) (auto simp: row_defs)
  have inv2: "run_inv (db e2)"
    using run_rel.movesD [OF hb parent(3)] inv parent(2) by (simp add: run_safe_def)
  define p2 where "p2 = (if ?own p then p\<lparr>r_heartbeat := Some t\<rparr> else p)"
  have p2: "p2 \<in> set (runs (db e2))" "r_id p2 = r_id p" "r_kind p2 = KindRunAllParent"
      "\<not> IsTerminal (r_status p2)" "r_cancel_at p2 = r_cancel_at p"
    using p by (auto simp: p2_def rows2 set_sql_update)
  have d4: "db e4 = db e2" and active: "active = sql_count (active_child (r_id q)) (runs (db e2))"
    using get_run_row_Inr [OF parent(4)] parent(5) by (auto simp: count_active_def op_iff)
  show ?thesis
  proof (cases "active > 0")
    case True
    then have "db e' = db e2" using parent(6) d4 by (simp add: op_iff)
    then show ?thesis using same_id_row [OF inv2, of p' p2] p' p2 by auto
  next
    case False
    with parent(6) have adv: "advance_parent (r_id q) (or_empty (r_owner q)) (r_cancel_at current \<noteq> None) e4 = (Inr a, e')"
      by simp
    have cur: "(r_cancel_at current \<noteq> None) = (r_cancel_at p2 \<noteq> None)" if "r_id q = r_id p2"
      using get_run_row_Inr [OF parent(4)] same_id_row [OF inv2 _ p2(1), of current] that by simp
    have "closed_well p2 (r_status p') (runs (db e'))"
      by (rule advance_closes [OF inv2 _ adv d4 p2(1,3,4) p'(1) _ p'(3) cur]) (use False active p'(2) p2(2) in auto)
    then show ?thesis using p2(2,5) by (simp add: closed_well_def)
  qed
qed

text \<open>
  C17. A Run All parent is closed only by the state of its children: whenever a reconciliation
  makes a parent terminal, none of its children is queued or running, and unless the parent was
  cancelled no child is left to run and the parent's status is the verdict of the children:
  failed if one failed, was cancelled or abandoned, otherwise completed, with skips if one was
  skipped.
\<close>

theorem reconcile_verdict:
  assumes "run_inv (db e)" "reconcileParent exactID exactOwner e = (q, e')"
    "p \<in> set (runs (db e))" "r_kind p = KindRunAllParent" "\<not> IsTerminal (r_status p)"
    "p' \<in> set (runs (db e'))" "r_id p' = r_id p" "IsTerminal (r_status p')"
  shows "closed_well p (r_status p') (runs (db e'))"
proof (cases q)
  case (Inl x)
  then have "db e' = db e" using assms(2) unfolding reconcileParent_def by (auto dest: replay_tx_Inl_db)
  then show ?thesis using same_id_row [OF assms(1), of p' p] assms by auto
next
  case (Inr a)
  with assms(2) have "replay_tx (reconcileParentTransaction exactID exactOwner) e = (Inr a, e')"
    by (simp add: reconcileParent_def)
  then obtain e1 e2 where e1: "db e1 = db e"
    and run: "reconcileParentTransaction exactID exactOwner e1 = (Inr a, e2)" and d': "db e' = db e2"
    by (rule replay_tx_InrE)
  show ?thesis
    unfolding d'
    by (rule reconcile_closes [OF _ run]) (use assms e1 d' in auto)
qed

theorem reconcile_verdict_witness:
  "let rows = [sample_run KindRunAllParent None None [] StatusRunning 2,
         sample_run KindRunAllChild (Some 2) (Some 1) ''b'' StatusSucceeded 3,
         sample_run KindRunAllChild (Some 2) (Some 2) ''c'' StatusSkipped 4];
       e = snd (reconcileParent 2 sample_owner (sample_env rows))
   in r_status (hd (runs (db e))) = StatusCompletedWithSkips \<and>
      closed_well (hd rows) StatusCompletedWithSkips (runs (db e))"
proof -
  define rows where "rows = [sample_run KindRunAllParent None None [] StatusRunning 2,
         sample_run KindRunAllChild (Some 2) (Some 1) ''b'' StatusSucceeded 3,
         sample_run KindRunAllChild (Some 2) (Some 2) ''c'' StatusSkipped 4]"
  define e where "e = snd (reconcileParent 2 sample_owner (sample_env rows))"
  have "run_keys_ok rows" "list_all (\<lambda>r. run_shape_ok r \<and> run_progress_ok r) rows" "distinct (map r_id rows)"
    unfolding rows_def by code_simp+
  then have inv: "run_inv (db (sample_env rows))"
    by (simp add: run_inv_def sample_env_def sample_store_def serial_def)
      (simp add: rows_def sample_defs active_child_def sql_count_def)
  have st: "hd rows \<in> set (runs (db (sample_env rows)))" "r_kind (hd rows) = KindRunAllParent"
    "\<not> IsTerminal (r_status (hd rows))" "hd (runs (db e)) \<in> set (runs (db e))"
    "r_id (hd (runs (db e))) = r_id (hd rows)" "r_status (hd (runs (db e))) = StatusCompletedWithSkips"
    unfolding e_def rows_def by code_simp+
  have run: "reconcileParent 2 sample_owner (sample_env rows) = (fst (reconcileParent 2 sample_owner (sample_env rows)), e)"
    by (simp add: e_def)
  have "closed_well (hd rows) (r_status (hd (runs (db e)))) (runs (db e))"
    by (rule reconcile_verdict [OF inv run st(1-5)]) (simp add: st IsTerminal_def)
  with st show ?thesis unfolding rows_def [symmetric] e_def [symmetric] Let_def by simp
qed

section \<open>Recovery of stale runs\<close>

lemma steady_recover_once: "steady (recover_once sha allowed catalog lease owner)"
  unfolding recover_once_def ensureRunAllChildren_def getRun_def ensure_child_def insert_child_def insertRun_def
    update_runs_def query_defs
  by (intro steady_intros)

lemma select_stale_Inr:
  "select_stale lease e = (Inr c, e') \<Longrightarrow>
   c \<in> set (runs (db e)) \<and> r_status c = StatusRunning \<and> r_owner c \<noteq> None \<and> stale_row lease (clock e (tick e)) c \<and>
   e' = e\<lparr>tick := Suc (tick e)\<rparr>"
  by (auto simp: select_stale_def op_iff split: option.splits dest!: sql_first_by_in)

text \<open>The candidate is still stale when it is updated, since the clock does not run backwards, so the
  update finds it.\<close>

lemma recover_once_settles:
  assumes inv: "run_inv (db e)" and "mono (clock e)" "lease > 0"
    and run: "recover_once sha allowed catalog lease owner e = (Inr (recovered, seen), e')"
  shows "recovered \<noteq> None \<or> \<not> seen"
proof -
  obtain sel e1 where s: "select_stale lease e = (sel, e1)" by fastforce
  show ?thesis
  proof (cases sel)
    case (Inl x)
    with run s show ?thesis by (auto simp: recover_once_def bind_try fail_op_def ret_op_def split: if_splits)
  next
    case (Inr c)
    with s have c: "c \<in> set (runs (db e))" "r_status c = StatusRunning" "r_owner c \<noteq> None"
      "stale_row lease (clock e (tick e)) c" and e1: "e1 = e\<lparr>tick := Suc (tick e)\<rparr>"
      using select_stale_Inr [of lease e c e1] by auto
    let ?t = "clock e (Suc (tick e))"
    have later: "clock e (tick e) \<le> ?t" using assms(2) by (rule monoD) simp
    then have st: "stale_row lease ?t c" using c(4) by (auto simp: stale_row_def split: option.splits)
    have sel: "(same_lease c r \<and> Q r) = (r_id r = r_id c)" if "r \<in> set (runs (db e))" "Q c" for r Q
      using same_id_row [OF inv that(1) c(1)] c that(2) by (auto simp: same_lease_def)
    have changed: "sql_changed (\<lambda>r. same_lease c r \<and> Q r) f (runs (db e)) = 1" if "Q c" "f c \<noteq> c" for Q f
      using sql_changed_one [of r_id "runs (db e)" c "\<lambda>r. same_lease c r \<and> Q r" f] inv c(1) sel that
      by (simp add: run_inv_def)
    have fresh: "r_heartbeat c \<noteq> Some ?t" using st assms(3) by (auto simp: stale_row_def)
    show ?thesis
    proof (cases "r_kind c = KindRunAllParent")
      case True
      let ?Q = "\<lambda>r. r_kind r = KindRunAllParent \<and> stale_row lease ?t r"
      let ?f = "\<lambda>r. r\<lparr>r_owner := Some owner, r_claimed := Some ?t, r_heartbeat := Some ?t\<rparr>"
      have "?f c \<noteq> c" using fresh by (auto dest: arg_cong [where f = r_heartbeat])
      with True st have "sql_changed (\<lambda>r. same_lease c r \<and> ?Q r) ?f (runs (db e)) = 1" by (intro changed) auto
      with True run s Inr show ?thesis
        by (auto simp: recover_once_def bind_try op_iff update_runs_Inr e1 split: if_splits)
    next
      case False
      have "abandon_row stale_message (Some ''ownership_lease'') ?t c \<noteq> c"
        using c(2) by (auto simp: abandon_row_def dest: arg_cong [where f = r_status])
      with st have "sql_changed (\<lambda>r. same_lease c r \<and> stale_row lease ?t r) (abandon_row stale_message (Some ''ownership_lease'') ?t)
          (runs (db e)) = 1" by (intro changed)
      with False run s Inr show ?thesis
        by (auto simp: recover_once_def bind_try op_iff update_runs_Inr e1 split: if_splits)
    qed
  qed
qed



end
