(* ===== verification/Scheduler_Model.thy ===== *)
theory Scheduler_Model
  imports Run_Store
begin

text \<open>
  Schedule definitions (\<^verbatim>\<open>src/internal/scheduler/model.go\<close>) and the tables of the scheduler with the
  keys and checks of \<^verbatim>\<open>src/migrations/20260814025546_create_ingestion_scheduler.sql\<close>.

  The cron library and the time zone database are the parameter \<open>cron_lib\<close>: what \<open>time.LoadLocation\<close>
  and \<open>Parser.Parse\<close> answer to a text (\<open>Some\<close> is the text of their error), and \<open>Next\<close> of the schedule
  a text denotes in the location a name denotes. A zero \<open>time.Time\<close> is \<open>None\<close>.
\<close>

section \<open>Definitions\<close>

definition DefaultTimezone :: string where "DefaultTimezone = ''Asia/Jakarta''"

definition MaxBulkSelection :: nat where "MaxBulkSelection = 25"

definition PolicyPreviousCalendarDay :: string where
  "PolicyPreviousCalendarDay = ''previous_calendar_day_jakarta''"

definition PolicyLiveSnapshot :: string where "PolicyLiveSnapshot = ''live_snapshot''"

definition PolicyDetailLiveSnapshot :: string where "PolicyDetailLiveSnapshot = ''detail_live_snapshot''"

definition policyVersionV1 :: "16 word" where "policyVersionV1 = 1"

record Policy =
  po_Kind :: string
  po_Version :: "16 word"
  po_Payload :: raw_json
  po_Checksum :: hash

record Definition =
  df_Name :: string
  df_JobKey :: string
  df_CronExpression :: string
  df_Timezone :: string
  df_Policy :: Policy

record cron_lib =
  cl_location_error :: "string \<Rightarrow> string option"
  cl_parse_error :: "string \<Rightarrow> string option"
  cl_next :: "string \<Rightarrow> string \<Rightarrow> time \<Rightarrow> time option"

record cronDefinition =
  cr_schedule :: string
  cr_location :: string

definition zero_checksum :: hash where "zero_checksum = replicate 32 CHR 0x00"

definition policy_envelope :: "string \<Rightarrow> 16 word \<Rightarrow> json" where
  "policy_envelope kind version =
     JObj [(''kind'', JStr kind), (''version'', JNum (nat_string (unat version))), (''payload'', JObj [])]"

definition canonicalPolicy :: "(string \<Rightarrow> hash) \<Rightarrow> string \<Rightarrow> 16 word \<Rightarrow> raw_json \<Rightarrow> Policy result" where
  "canonicalPolicy sha kind version payload =
     (if (kind \<noteq> PolicyPreviousCalendarDay \<and> kind \<noteq> PolicyLiveSnapshot \<and> kind \<noteq> PolicyDetailLiveSnapshot) \<or>
         version \<noteq> policyVersionV1
      then Inl (ErrInvalidDefinition (UnsupportedPolicy kind version))
      else let canonical = Inr \<lparr>po_Kind = kind, po_Version = version, po_Payload = Json (JObj []),
                 po_Checksum = sha (print_json (policy_envelope kind version))\<rparr>
        in case payload of
          RawEmpty \<Rightarrow> Inl (ErrInvalidDefinition PolicyPayload)
        | NotJson \<Rightarrow> Inl (ErrInvalidDefinition PolicyPayload)
        | JsonTrailing j \<Rightarrow>
            (case unmarshal_unit j of
               Inl _ \<Rightarrow> Inl (ErrInvalidDefinition PolicyPayload)
             | Inr _ \<Rightarrow> Inl (ErrInvalidDefinition PolicyTrailing))
        | Json j \<Rightarrow>
            (case unmarshal_unit j of
               Inl _ \<Rightarrow> Inl (ErrInvalidDefinition PolicyPayload)
             | Inr _ \<Rightarrow> canonical))"

definition validatePolicy :: "(string \<Rightarrow> hash) \<Rightarrow> Policy \<Rightarrow> Policy result" where
  "validatePolicy sha policy =
     (case canonicalPolicy sha (po_Kind policy) (po_Version policy) (po_Payload policy) of
        Inl x \<Rightarrow> Inl x
      | Inr canonical \<Rightarrow>
          if po_Checksum policy \<noteq> zero_checksum \<and> po_Checksum policy \<noteq> po_Checksum canonical
          then Inl (ErrInvalidDefinition PolicyChecksumMismatch) else Inr canonical)"

text \<open>The two constructors panic on an error of \<open>canonicalPolicy\<close>; \<open>None\<close> is the panic.\<close>

definition must_policy :: "Policy result \<Rightarrow> Policy option" where
  "must_policy r = (case r of Inl _ \<Rightarrow> None | Inr p \<Rightarrow> Some p)"

definition PreviousCalendarDayPolicy :: "(string \<Rightarrow> hash) \<Rightarrow> Policy option" where
  "PreviousCalendarDayPolicy sha =
     must_policy (canonicalPolicy sha PolicyPreviousCalendarDay policyVersionV1 (Json (JObj [])))"

definition LiveSnapshotPolicy :: "(string \<Rightarrow> hash) \<Rightarrow> Policy option" where
  "LiveSnapshotPolicy sha = must_policy (canonicalPolicy sha PolicyLiveSnapshot policyVersionV1 (Json (JObj [])))"

definition cron_Next :: "cron_lib \<Rightarrow> cronDefinition \<Rightarrow> time \<Rightarrow> time option" where
  "cron_Next lib d after = cl_next lib (cr_schedule d) (cr_location d) after"

definition IsOccurrence :: "cron_lib \<Rightarrow> cronDefinition \<Rightarrow> time \<Rightarrow> bool" where
  "IsOccurrence lib d value = (value mod second = 0 \<and> cron_Next lib d (value - minute) = Some value)"

definition parseCron :: "cron_lib \<Rightarrow> string \<Rightarrow> string \<Rightarrow> time \<Rightarrow> cronDefinition result" where
  "parseCron lib expression0 timezone0 reference =
     (let expression = TrimSpace expression0; timezone = TrimSpace timezone0
      in if expression = [] \<or> length expression > 128 \<or> HasPrefix expression ''@'' \<or>
            Contains expression ''CRON_TZ='' \<or> Contains expression ''TZ=''
         then Inl (ErrInvalidDefinition StrictCronRequired)
         else if timezone = [] \<or> length timezone > 64 \<or> timezone = ''Local'' \<or>
            HasPrefix timezone ''+'' \<or> HasPrefix timezone ''-''
         then Inl (ErrInvalidDefinition TimezoneRequired)
         else case cl_location_error lib timezone of
           Some err \<Rightarrow> Inl (ErrInvalidDefinition (LoadTimezone err))
         | None \<Rightarrow>
             (case cl_parse_error lib expression of
                Some err \<Rightarrow> Inl (ErrInvalidDefinition (ParseCron err))
              | None \<Rightarrow>
                  let definition = \<lparr>cr_schedule = expression, cr_location = timezone\<rparr>
                  in if cron_Next lib definition reference = None
                     then Inl (ErrInvalidDefinition NoFutureOccurrence) else Inr definition))"

definition validateDefinition :: "(string \<Rightarrow> hash) \<Rightarrow> cron_lib \<Rightarrow> Catalog \<Rightarrow> Definition \<Rightarrow> time \<Rightarrow>
    (Definition \<times> cronDefinition) result" where
  "validateDefinition sha lib catalog definition0 reference =
     (let definition = definition0\<lparr>df_Name := TrimSpace (df_Name definition0),
            df_JobKey := TrimSpace (df_JobKey definition0),
            df_CronExpression := TrimSpace (df_CronExpression definition0),
            df_Timezone := TrimSpace (df_Timezone definition0)\<rparr>
      in if df_Name definition = [] \<or> length (decode_runes (df_Name definition)) > 128
         then Inl (ErrInvalidDefinition NameRequired)
         else case Find catalog (df_JobKey definition) of
           None \<Rightarrow> Inl (ErrInvalidDefinition (UnknownJob (df_JobKey definition)))
         | Some j \<Rightarrow>
             (case validatePolicy sha (df_Policy definition) of
                Inl x \<Rightarrow> Inl x
              | Inr policy \<Rightarrow>
                  let wantPolicy = (if jd_DateStrategy j = NoDate then PolicyLiveSnapshot
                                    else PolicyPreviousCalendarDay);
                      semanticKind = (if po_Kind policy = PolicyDetailLiveSnapshot then PolicyLiveSnapshot
                                      else po_Kind policy)
                  in if semanticKind \<noteq> wantPolicy
                     then Inl (ErrInvalidDefinition (RequiresPolicy (jd_Key j) wantPolicy))
                     else (case parseCron lib (df_CronExpression definition) (df_Timezone definition) reference of
                             Inl x \<Rightarrow> Inl x
                           | Inr parsed \<Rightarrow> Inr (definition\<lparr>df_Policy := policy\<rparr>, parsed))))"

definition parametersForOccurrence :: "(string \<Rightarrow> hash) \<Rightarrow> JobDefinition \<Rightarrow> time \<Rightarrow> Parameters result" where
  "parametersForOccurrence sha j scheduledFor =
     (let date = ResolvePreviousCalendarDayJakarta scheduledFor
      in case jd_DateStrategy j of
           RangeCapable \<Rightarrow> NewRangeExecution sha (jd_Key j) date date
         | SingleDate \<Rightarrow>
             if jd_Category j = CategoryFixed then NewDateSeriesExecution sha (jd_Key j) date date
             else NewMaintenanceSeriesExecution sha (jd_Key j) date date
         | NoDate \<Rightarrow> NewLiveSnapshotExecution sha (jd_Key j)
         | _ \<Rightarrow> Inl (ErrMsg ''job has no scheduler date contract''))"

text \<open>\<open>time.Minute << (attempt - 1)\<close> on the 64-bit nanosecond count; here in microseconds, which the
  cap at attempt 6 keeps exact.\<close>

definition retryDelay :: "32 word \<Rightarrow> time" where
  "retryDelay attempt =
     (if attempt = 0 then 0
      else if attempt \<ge> 6 then 30 * minute
      else minute * 2 ^ unat (attempt - 1))"

section \<open>Tables\<close>

record schedule_row =
  s_id :: rowid
  s_name :: string
  s_job :: string
  s_cron :: string
  s_timezone :: string
  s_policy_kind :: string
  s_policy_version :: "16 word"
  s_policy_json :: raw_json
  s_policy_checksum :: hash
  s_enabled :: bool
  s_next :: "time option"
  s_revision :: nat
  s_not_before :: "time option"
  s_block_reason :: "string option"
  s_blocked_at :: "time option"
  s_error_class :: "string option"
  s_error_message :: "string option"
  s_error_at :: "time option"
  s_created_by :: "rowid option"
  s_updated_by :: "rowid option"
  s_archived :: "time option"

datatype identity_source = ValidatedCron | PersistedCursorFallback

datatype resolution_mode = Historical | LiveCoalesced | InvalidMode

datatype occurrence_status = Unresolved | Resolved | Discarded | RejectedInvalid

record occurrence_row =
  o_id :: rowid
  o_schedule :: rowid
  o_for :: time
  o_source :: identity_source
  o_mode :: resolution_mode
  o_status :: occurrence_status
  o_revision :: nat
  o_job :: string
  o_cron :: string
  o_timezone :: string
  o_policy_kind :: string
  o_policy_version :: "16 word"
  o_policy_json :: raw_json
  o_policy_checksum :: hash
  o_attempts :: "32 word"
  o_retry :: "time option"
  o_closed :: "time option"
  o_closed_by :: "rowid option"
  o_reject_class :: "string option"
  o_reject_message :: "string option"
  o_reject_revision :: "nat option"

record attempt_row =
  a_id :: rowid
  a_occurrence :: rowid
  a_no :: "32 word"
  a_run :: rowid
  a_reference :: string
  a_submitted :: time

record sched_db = run_db +
  schedules :: "schedule_row list"
  occurrences :: "occurrence_row list"
  attempts :: "attempt_row list"

text \<open>\<open>chk_schedules_cursor\<close> and \<open>chk_schedules_revision\<close>; the unique keys of occurrences and attempts;
  \<open>chk_schedule_attempts_number\<close>.\<close>

definition schedule_ok :: "schedule_row \<Rightarrow> bool" where
  "schedule_ok s \<longleftrightarrow> s_revision s > 0 \<and>
     (s_enabled s \<and> s_archived s = None \<and> s_next s \<noteq> None \<or> \<not> s_enabled s \<and> s_next s = None)"

definition active_schedule :: "occurrence_row \<Rightarrow> rowid option" where
  "active_schedule r = (if o_status r = Unresolved then Some (o_schedule r) else None)"

definition occurrence_keys_ok :: "occurrence_row list \<Rightarrow> bool" where
  "occurrence_keys_ok rows \<longleftrightarrow>
     unique_key (\<lambda>r. Some (o_schedule r, o_for r)) rows \<and> unique_key active_schedule rows"

definition attempt_keys_ok :: "attempt_row list \<Rightarrow> bool" where
  "attempt_keys_ok rows \<longleftrightarrow> unique_key (\<lambda>a. Some (a_occurrence a, a_no a)) rows \<and>
     unique_key (\<lambda>a. Some (a_run a)) rows \<and> unique_key (\<lambda>a. Some (a_reference a)) rows"

section \<open>Statements\<close>

definition write_schedules :: "schedule_row list \<Rightarrow> 'a sched_db_scheme \<Rightarrow> 'a sched_db_scheme result" where
  "write_schedules rows d =
     (if list_all schedule_ok rows then Inr (d\<lparr>schedules := rows\<rparr>) else Inl (ErrMySQL 3819))"

definition write_occurrences :: "occurrence_row list \<Rightarrow> 'a sched_db_scheme \<Rightarrow> 'a sched_db_scheme result" where
  "write_occurrences rows d =
     (if occurrence_keys_ok rows then Inr (d\<lparr>occurrences := rows\<rparr>) else Inl (ErrMySQL 1062))"

definition write_attempts :: "attempt_row list \<Rightarrow> 'a sched_db_scheme \<Rightarrow> 'a sched_db_scheme result" where
  "write_attempts rows d =
     (if \<not> list_all (\<lambda>a. a_no a > 0) rows then Inl (ErrMySQL 3819)
      else if \<not> attempt_keys_ok rows then Inl (ErrMySQL 1062) else Inr (d\<lparr>attempts := rows\<rparr>))"

definition update_schedules ::
    "(schedule_row \<Rightarrow> bool) \<Rightarrow> (schedule_row \<Rightarrow> schedule_row) \<Rightarrow> ('a sched_db_scheme, nat) op" where
  "update_schedules P f = stmt (\<lambda>t d.
     case write_schedules (sql_update P f (schedules d)) d of
       Inl x \<Rightarrow> Inl x
     | Inr d' \<Rightarrow> Inr (sql_changed P f (schedules d), d'))"

definition update_occurrences ::
    "(occurrence_row \<Rightarrow> bool) \<Rightarrow> (occurrence_row \<Rightarrow> occurrence_row) \<Rightarrow> ('a sched_db_scheme, nat) op" where
  "update_occurrences P f = stmt (\<lambda>t d.
     case write_occurrences (sql_update P f (occurrences d)) d of
       Inl x \<Rightarrow> Inl x
     | Inr d' \<Rightarrow> Inr (sql_changed P f (occurrences d), d'))"

definition requireCount :: "nat \<Rightarrow> nat \<Rightarrow> ('d, unit) op" where
  "requireCount affected expected = (if affected \<noteq> expected then fail_op ErrConflict else ret_op ())"

definition requireOne :: "nat \<Rightarrow> ('d, unit) op" where
  "requireOne affected = requireCount affected 1"

end
