(* ===== verification/Scheduler_Service.thy ===== *)
theory Scheduler_Service
  imports Scheduler_Model
begin

text \<open>
  The operations of \<^verbatim>\<open>src/internal/scheduler/service.go\<close>: administration of schedules (create, bulk
  create, update, enable, disable, archive, bulk state changes) and the sweep that turns due
  schedules into occurrences, occurrences into attempts and attempts into ingestion runs.

  \<open>Service\<close> holds what the Go struct holds: the catalog, the function that submits a run inside the
  caller's transaction, and the libraries (\<open>sv_text\<close> is \<open>Error()\<close> of an invalid-definition error).
  The audit metadata structs appear as the JSON they marshal to. Logging is left out.
\<close>

section \<open>Service\<close>

definition deliveryDelay :: time where "deliveryDelay = 15 * second"

definition sweepLimit :: nat where "sweepLimit = 100"

record 'd Service =
  sv_catalog :: Catalog
  sv_submit :: "string \<Rightarrow> Parameters \<Rightarrow> Trigger \<Rightarrow> string \<Rightarrow> rowid option \<Rightarrow> ('d, rowid) op"
  sv_cron :: cron_lib
  sv_sha :: "string \<Rightarrow> hash"
  sv_text :: "def_reason \<Rightarrow> string"

record CreateInput =
  ci_Definition :: Definition
  ci_Enabled :: bool
  ci_ActorID :: "rowid option"
  ci_Requester :: "Requester option"

record UpdateInput =
  ui_Definition :: Definition
  ui_ExpectedRevision :: nat
  ui_ActorID :: "rowid option"
  ui_Requester :: "Requester option"

record Schedule =
  sc_ID :: rowid
  sc_Definition :: Definition
  sc_Enabled :: bool
  sc_NextRunAt :: "time option"
  sc_SchedulerNotBefore :: "time option"
  sc_ArchivedAt :: "time option"
  sc_Revision :: nat

definition row_definition :: "schedule_row \<Rightarrow> Definition" where
  "row_definition row =
     \<lparr>df_Name = s_name row, df_JobKey = s_job row, df_CronExpression = s_cron row,
      df_Timezone = s_timezone row,
      df_Policy = \<lparr>po_Kind = s_policy_kind row, po_Version = s_policy_version row,
        po_Payload = s_policy_json row, po_Checksum = s_policy_checksum row\<rparr>\<rparr>"

definition row_semanticMatches :: "schedule_row \<Rightarrow> Definition \<Rightarrow> bool" where
  "row_semanticMatches row d =
     (s_job row = df_JobKey d \<and> s_cron row = df_CronExpression d \<and> s_timezone row = df_Timezone d \<and>
      s_policy_kind row = po_Kind (df_Policy d) \<and> s_policy_version row = po_Version (df_Policy d) \<and>
      s_policy_checksum row = po_Checksum (df_Policy d))"

definition row_value :: "schedule_row \<Rightarrow> Schedule" where
  "row_value row =
     \<lparr>sc_ID = s_id row, sc_Definition = row_definition row, sc_Enabled = s_enabled row,
      sc_NextRunAt = s_next row, sc_SchedulerNotBefore = s_not_before row,
      sc_ArchivedAt = s_archived row, sc_Revision = s_revision row\<rparr>"

definition occurrence_semanticMatches :: "occurrence_row \<Rightarrow> Definition \<Rightarrow> bool" where
  "occurrence_semanticMatches row d =
     (o_job row = df_JobKey d \<and> o_cron row = df_CronExpression d \<and> o_timezone row = df_Timezone d \<and>
      o_policy_kind row = po_Kind (df_Policy d) \<and> o_policy_version row = po_Version (df_Policy d) \<and>
      o_policy_checksum row = po_Checksum (df_Policy d))"

definition currentFence :: "schedule_row \<Rightarrow> occurrence_row \<Rightarrow> bool" where
  "currentFence schedule occurrence =
     (s_enabled schedule \<and> o_status occurrence = Unresolved \<and> s_next schedule = Some (o_for occurrence) \<and>
      s_job schedule = o_job occurrence \<and> s_cron schedule = o_cron occurrence \<and>
      s_timezone schedule = o_timezone occurrence \<and> s_policy_kind schedule = o_policy_kind occurrence \<and>
      s_policy_version schedule = o_policy_version occurrence \<and>
      s_policy_checksum schedule = o_policy_checksum occurrence)"

definition scheduleStateName :: "schedule_row \<Rightarrow> string" where
  "scheduleStateName row =
     (if s_archived row \<noteq> None then ''archived'' else if s_enabled row then ''enabled'' else ''disabled'')"

definition safeMessage :: "(def_reason \<Rightarrow> string) \<Rightarrow> def_reason \<Rightarrow> string" where
  "safeMessage text cause =
     (let message = strings_Map blank_control (text cause); runes = decode_runes message
      in if length runes > 500 then encode_runes (take 500 runes) else message)"

section \<open>Selections\<close>

definition lockSchedule :: "rowid \<Rightarrow> ('a sched_db_scheme, schedule_row) op" where
  "lockSchedule i = query (\<lambda>t d.
     case filter (\<lambda>s. s_id s = i) (schedules d) of [] \<Rightarrow> Inl ErrNoRows | s # _ \<Rightarrow> Inr s)"

definition select_active :: "rowid \<Rightarrow> ('a sched_db_scheme, occurrence_row) op" where
  "select_active i = query (\<lambda>t d.
     case filter (\<lambda>r. active_schedule r = Some i) (occurrences d) of [] \<Rightarrow> Inl ErrNoRows | r # _ \<Rightarrow> Inr r)"

definition lockActiveOccurrence :: "rowid \<Rightarrow> ('a sched_db_scheme, occurrence_row option) op" where
  "lockActiveOccurrence i = bind_op (try_op (select_active i)) (\<lambda>r.
     case r of
       Inl x \<Rightarrow> if x = ErrNoRows then ret_op None else fail_op x
     | Inr row \<Rightarrow> ret_op (Some row))"

definition select_attempt :: "rowid \<Rightarrow> ('a sched_db_scheme, attempt_row) op" where
  "select_attempt i = query (\<lambda>t d.
     case sql_first_by (\<lambda>a. - int (unat (a_no a))) (filter (\<lambda>a. a_occurrence a = i) (attempts d)) of
       None \<Rightarrow> Inl ErrNoRows
     | Some a \<Rightarrow> Inr a)"

definition lockLatestAttempt :: "rowid \<Rightarrow> ('a sched_db_scheme, attempt_row option) op" where
  "lockLatestAttempt i = bind_op (try_op (select_attempt i)) (\<lambda>r.
     case r of
       Inl x \<Rightarrow> if x = ErrNoRows then ret_op None else fail_op x
     | Inr row \<Rightarrow> ret_op (Some row))"

definition lockAttemptRun :: "rowid \<Rightarrow> ('a sched_db_scheme, run_row) op" where
  "lockAttemptRun runID = get_run_row runID"

definition lockSchedules :: "rowid list \<Rightarrow> ('a sched_db_scheme, schedule_row list) op" where
  "lockSchedules ids = query (\<lambda>t d. Inr (sort_key s_id (filter (\<lambda>s. s_id s \<in> set ids) (schedules d))))"

definition lockActiveOccurrences :: "rowid list \<Rightarrow> ('a sched_db_scheme, occurrence_row list) op" where
  "lockActiveOccurrences ids =
     (if ids = [] then ret_op []
      else query (\<lambda>t d. Inr (sort_key (\<lambda>r. (o_schedule r, o_id r))
             (filter (\<lambda>r. case active_schedule r of None \<Rightarrow> False | Some s \<Rightarrow> s \<in> set ids) (occurrences d)))))"

definition Get :: "rowid \<Rightarrow> ('a sched_db_scheme, Schedule) op" where
  "Get i = bind_op (lockSchedule i) (\<lambda>row. ret_op (row_value row))"

section \<open>Audit\<close>

definition appendScheduleAudit :: "Requester option \<Rightarrow> string \<Rightarrow> rowid \<Rightarrow> json option \<Rightarrow> time \<Rightarrow>
    ('a sched_db_scheme, unit) op" where
  "appendScheduleAudit requester action i metadata now =
     (case requester of
        None \<Rightarrow> ret_op ()
      | Some r \<Rightarrow> Append
          \<lparr>ev_Actor = Some (rq_Actor r), ev_Effective = Some (rq_Effective r), ev_Action = action,
           ev_Resource = ''schedule'', ev_ResourceID = i, ev_Metadata = metadata, ev_CreatedAt = now\<rparr>)"

definition status_change :: "string \<Rightarrow> string \<Rightarrow> json option" where
  "status_change from to = Some (JObj [(''from'', JStr from), (''to'', JStr to)])"

section \<open>Creation\<close>

record preparedCreate =
  pc_definition :: Definition
  pc_enabled :: bool
  pc_actorID :: "rowid option"
  pc_requester :: "Requester option"
  pc_nextRunAt :: "time option"

definition default_timezone :: "Definition \<Rightarrow> Definition" where
  "default_timezone d = (if TrimSpace (df_Timezone d) = [] then d\<lparr>df_Timezone := DefaultTimezone\<rparr> else d)"

definition prepareCreate :: "'d Service \<Rightarrow> CreateInput \<Rightarrow> time \<Rightarrow> preparedCreate result" where
  "prepareCreate service input now =
     (case validateDefinition (sv_sha service) (sv_cron service) (sv_catalog service)
             (default_timezone (ci_Definition input)) now of
        Inl x \<Rightarrow> Inl x
      | Inr (definition, parsed) \<Rightarrow>
          let prepared = (\<lambda>next. \<lparr>pc_definition = definition, pc_enabled = ci_Enabled input,
                pc_actorID = ci_ActorID input, pc_requester = ci_Requester input, pc_nextRunAt = next\<rparr>)
          in if ci_Enabled input then
               (case cron_Next (sv_cron service) parsed now of
                  None \<Rightarrow> Inl (ErrInvalidDefinition NoFutureOccurrence)
                | Some value \<Rightarrow> Inr (prepared (Some value)))
             else Inr (prepared None))"

definition new_schedule :: "preparedCreate \<Rightarrow> rowid \<Rightarrow> schedule_row" where
  "new_schedule input i =
     (let d = pc_definition input; p = df_Policy d
      in \<lparr>s_id = i, s_name = df_Name d, s_job = df_JobKey d, s_cron = df_CronExpression d,
          s_timezone = df_Timezone d, s_policy_kind = po_Kind p, s_policy_version = po_Version p,
          s_policy_json = po_Payload p, s_policy_checksum = po_Checksum p, s_enabled = pc_enabled input,
          s_next = pc_nextRunAt input, s_revision = 1, s_not_before = None, s_block_reason = None,
          s_blocked_at = None, s_error_class = None, s_error_message = None, s_error_at = None,
          s_created_by = pc_actorID input, s_updated_by = pc_actorID input, s_archived = None\<rparr>)"

definition insertSchedule :: "preparedCreate \<Rightarrow> ('a sched_db_scheme, Schedule) op" where
  "insertSchedule input = bind_op (stmt (\<lambda>t d.
     let i = next_id s_id (schedules d)
     in case write_schedules (schedules d @ [new_schedule input i]) d of
          Inl x \<Rightarrow> Inl x
        | Inr d' \<Rightarrow> Inr (i, d'))) (\<lambda>i.
     ret_op \<lparr>sc_ID = i, sc_Definition = pc_definition input, sc_Enabled = pc_enabled input,
       sc_NextRunAt = pc_nextRunAt input, sc_SchedulerNotBefore = None, sc_ArchivedAt = None,
       sc_Revision = 1\<rparr>)"

definition Create :: "('a sched_db_scheme) Service \<Rightarrow> CreateInput \<Rightarrow> ('a sched_db_scheme, Schedule) op" where
  "Create service input =
     bind_op (tx_attempt (
       bind_op db_now (\<lambda>now.
       bind_op (lift_op (prepareCreate service input now)) (\<lambda>prepared.
       bind_op (insertSchedule prepared) (\<lambda>created.
       bind_op (appendScheduleAudit (pc_requester prepared) ''schedule.created'' (sc_ID created) None now) (\<lambda>_.
       ret_op (sc_ID created))))))) Get"

text \<open>The loop over the inputs of \<open>CreateMany\<close>; \<open>prepared\<close> holds the values so far, in order.\<close>

fun prepare_all :: "'d Service \<Rightarrow> time \<Rightarrow> preparedCreate list \<Rightarrow> CreateInput list \<Rightarrow> preparedCreate list result" where
  "prepare_all service now prepared [] = Inr prepared"
| "prepare_all service now prepared (input # inputs) =
     (case prepareCreate service input now of
        Inl x \<Rightarrow> Inl x
      | Inr value \<Rightarrow>
          if df_JobKey (pc_definition value) \<in> set (map (df_JobKey \<circ> pc_definition) prepared)
          then Inl (ErrInvalidDefinition (JobSelectedTwice (df_JobKey (pc_definition value))))
          else if prepared \<noteq> [] \<and>
            (df_CronExpression (pc_definition value) \<noteq> df_CronExpression (pc_definition (hd prepared)) \<or>
             df_Timezone (pc_definition value) \<noteq> df_Timezone (pc_definition (hd prepared)) \<or>
             pc_enabled value \<noteq> pc_enabled (hd prepared))
          then Inl (ErrInvalidDefinition BulkMustShare)
          else prepare_all service now (prepared @ [value]) inputs)"

definition lock_source :: "string \<Rightarrow> ('a sched_db_scheme, unit) op" where
  "lock_source jobKey = bind_op (try_op (find_source jobKey)) (\<lambda>r.
     case r of
       Inl x \<Rightarrow> if x = ErrNoRows then fail_op (ErrInvalidDefinition (NotSchedulable jobKey)) else fail_op x
     | Inr _ \<Rightarrow> ret_op ())"

definition same_schedules :: "Definition \<Rightarrow> ('a sched_db_scheme, schedule_row list) op" where
  "same_schedules v = query (\<lambda>t d. Inr (sort_key s_id (filter (\<lambda>s. s_job s = df_JobKey v \<and>
     s_cron s = df_CronExpression v \<and> s_timezone s = df_Timezone v \<and> s_archived s = None) (schedules d))))"

record CreateManyResult =
  cm_Created :: "Schedule list"
  cm_Existing :: "Schedule list"

fun create_all :: "time \<Rightarrow> CreateManyResult \<Rightarrow> preparedCreate list \<Rightarrow> ('a sched_db_scheme, CreateManyResult) op" where
  "create_all now result [] = ret_op result"
| "create_all now result (value # values) =
     bind_op (same_schedules (pc_definition value)) (\<lambda>rows.
     if rows \<noteq> [] then create_all now (result\<lparr>cm_Existing := cm_Existing result @ map row_value rows\<rparr>) values
     else bind_op (insertSchedule value) (\<lambda>created.
          bind_op (appendScheduleAudit (pc_requester value) ''schedule.created'' (sc_ID created) None now) (\<lambda>_.
          create_all now (result\<lparr>cm_Created := cm_Created result @ [created]\<rparr>) values)))"

definition CreateMany :: "('a sched_db_scheme) Service \<Rightarrow> CreateInput list \<Rightarrow>
    ('a sched_db_scheme, CreateManyResult) op" where
  "CreateMany service inputs =
     (if inputs = [] then fail_op (ErrInvalidDefinition JobRequired)
      else tx_attempt (
        bind_op db_now (\<lambda>now.
        bind_op (lift_op (prepare_all service now [] inputs)) (\<lambda>prepared.
        bind_op (for_each (sort (map (df_JobKey \<circ> pc_definition) prepared)) lock_source) (\<lambda>_.
        create_all now \<lparr>cm_Created = [], cm_Existing = []\<rparr> prepared)))))"

section \<open>Update\<close>

definition update_row :: "Definition \<Rightarrow> time option \<Rightarrow> rowid option \<Rightarrow> schedule_row \<Rightarrow> schedule_row" where
  "update_row d next actor s = s\<lparr>s_name := df_Name d, s_job := df_JobKey d, s_cron := df_CronExpression d,
     s_timezone := df_Timezone d, s_policy_kind := po_Kind (df_Policy d),
     s_policy_version := po_Version (df_Policy d), s_policy_json := po_Payload (df_Policy d),
     s_policy_checksum := po_Checksum (df_Policy d), s_next := next, s_updated_by := actor,
     s_revision := s_revision s + 1, s_error_class := None, s_error_message := None, s_error_at := None\<rparr>"

text \<open>The cursor after an update: a change of the job, the cron or the policy needs a schedule without
  backlog and restarts the cursor.\<close>

definition update_next :: "('a sched_db_scheme) Service \<Rightarrow> rowid \<Rightarrow> schedule_row \<Rightarrow> Definition \<Rightarrow> cronDefinition \<Rightarrow>
    time \<Rightarrow> ('a sched_db_scheme, time option) op" where
  "update_next service i row definition parsed now =
     (if row_semanticMatches row definition then ret_op (s_next row)
      else bind_op (lockActiveOccurrence i) (\<lambda>found.
        if found \<noteq> None \<or> (s_enabled row \<and> (case s_next row of None \<Rightarrow> False | Some n \<Rightarrow> n \<le> now))
        then fail_op ErrBacklog
        else ret_op (if s_enabled row then cron_Next (sv_cron service) parsed now else s_next row)))"

definition update_work :: "('a sched_db_scheme) Service \<Rightarrow> rowid \<Rightarrow> UpdateInput \<Rightarrow> ('a sched_db_scheme, unit) op" where
  "update_work service i input =
     bind_op db_now (\<lambda>now.
     bind_op (lockSchedule i) (\<lambda>row.
     if s_revision row \<noteq> ui_ExpectedRevision input then fail_op ErrConflict
     else if s_archived row \<noteq> None then fail_op ErrArchived
     else bind_op (lift_op (validateDefinition (sv_sha service) (sv_cron service) (sv_catalog service)
            (default_timezone (ui_Definition input)) now)) (\<lambda>(definition, parsed).
     bind_op (update_next service i row definition parsed now) (\<lambda>next.
     bind_op (update_schedules (\<lambda>s. s_id s = i \<and> s_revision s = ui_ExpectedRevision input)
                (update_row definition next (ui_ActorID input))) (\<lambda>affected.
     bind_op (requireOne affected) (\<lambda>_.
     appendScheduleAudit (ui_Requester input) ''schedule.updated'' i None now))))))"

definition Update :: "('a sched_db_scheme) Service \<Rightarrow> rowid \<Rightarrow> UpdateInput \<Rightarrow> ('a sched_db_scheme, Schedule) op" where
  "Update service i input = bind_op (tx_attempt (update_work service i input)) (\<lambda>_. Get i)"

section \<open>State changes\<close>

record enableTransition =
  et_schedule :: schedule_row
  et_next :: "time option"

record stopTransition =
  st_schedule :: schedule_row
  st_occurrenceID :: rowid

definition prepareEnable :: "'d Service \<Rightarrow> schedule_row \<Rightarrow> bool \<Rightarrow> time \<Rightarrow> enableTransition result" where
  "prepareEnable service row hasActiveOccurrence now =
     (if s_archived row \<noteq> None then Inl ErrArchived
      else if hasActiveOccurrence then Inl ErrBacklog
      else case validateDefinition (sv_sha service) (sv_cron service) (sv_catalog service)
                  (row_definition row) now of
        Inl x \<Rightarrow> Inl x
      | Inr (_, parsed) \<Rightarrow> Inr \<lparr>et_schedule = row, et_next = cron_Next (sv_cron service) parsed now\<rparr>)"

text \<open>The \<open>CASE id WHEN ... THEN ... ELSE next_run_at END\<close> of the statement.\<close>

fun case_next :: "enableTransition list \<Rightarrow> schedule_row \<Rightarrow> time option" where
  "case_next [] s = s_next s"
| "case_next (t # ts) s = (if s_id s = s_id (et_schedule t) then et_next t else case_next ts s)"

definition enable_row :: "enableTransition list \<Rightarrow> rowid option \<Rightarrow> schedule_row \<Rightarrow> schedule_row" where
  "enable_row transitions actor s = s\<lparr>s_enabled := True, s_next := case_next transitions s,
     s_not_before := None, s_block_reason := None, s_blocked_at := None, s_error_class := None,
     s_error_message := None, s_error_at := None, s_updated_by := actor, s_revision := s_revision s + 1\<rparr>"

definition applyEnableTransitions ::
    "enableTransition list \<Rightarrow> rowid option \<Rightarrow> ('a sched_db_scheme, unit) op" where
  "applyEnableTransitions transitions actor =
     (if transitions = [] then ret_op ()
      else bind_op (update_schedules
        (\<lambda>s. (s_id s, s_revision s) \<in> set (map (\<lambda>t. (s_id (et_schedule t), s_revision (et_schedule t))) transitions) \<and>
             \<not> s_enabled s \<and> s_archived s = None)
        (enable_row transitions actor)) (\<lambda>affected. requireCount affected (length transitions)))"

definition discard_row :: "time \<Rightarrow> rowid option \<Rightarrow> occurrence_row \<Rightarrow> occurrence_row" where
  "discard_row now actor r =
     r\<lparr>o_status := Discarded, o_retry := None, o_closed := Some now, o_closed_by := actor\<rparr>"

definition stop_row :: "bool \<Rightarrow> time \<Rightarrow> rowid option \<Rightarrow> schedule_row \<Rightarrow> schedule_row" where
  "stop_row archive now actor s = s\<lparr>s_enabled := False, s_next := None, s_not_before := None,
     s_block_reason := None, s_blocked_at := None,
     s_archived := (if archive then Some now else s_archived s), s_updated_by := actor,
     s_revision := s_revision s + 1\<rparr>"

definition discard_occurrences :: "rowid list \<Rightarrow> rowid option \<Rightarrow> time \<Rightarrow> ('a sched_db_scheme, unit) op" where
  "discard_occurrences occurrenceIDs actor now =
     (if occurrenceIDs = [] then ret_op ()
      else bind_op (update_occurrences (\<lambda>r. o_id r \<in> set occurrenceIDs \<and> o_status r = Unresolved)
                      (discard_row now actor)) (\<lambda>affected.
           requireCount affected (length occurrenceIDs)))"

definition applyStopTransitions :: "stopTransition list \<Rightarrow> rowid option \<Rightarrow> bool \<Rightarrow> time \<Rightarrow>
    ('a sched_db_scheme, unit) op" where
  "applyStopTransitions transitions actor archive now =
     (if transitions = [] then ret_op ()
      else bind_op (discard_occurrences (filter (\<lambda>i. i \<noteq> 0) (map st_occurrenceID transitions)) actor now) (\<lambda>_.
           bind_op (update_schedules
             (\<lambda>s. (s_id s, s_revision s) \<in> set (map (\<lambda>t. (s_id (st_schedule t), s_revision (st_schedule t))) transitions))
             (stop_row archive now actor)) (\<lambda>affected.
           requireCount affected (length transitions))))"

definition enable_work :: "('a sched_db_scheme) Service \<Rightarrow> rowid \<Rightarrow> nat \<Rightarrow> rowid option \<Rightarrow> Requester option \<Rightarrow>
    ('a sched_db_scheme, unit) op" where
  "enable_work service i expectedRevision actor requester =
     bind_op db_now (\<lambda>now.
     bind_op (lockSchedule i) (\<lambda>row.
     if s_revision row \<noteq> expectedRevision then fail_op ErrConflict
     else bind_op (lockActiveOccurrence i) (\<lambda>found.
     bind_op (lift_op (prepareEnable service row (found \<noteq> None) now)) (\<lambda>transition.
     bind_op (applyEnableTransitions [transition] actor) (\<lambda>_.
     appendScheduleAudit requester ''schedule.state_changed'' i
       (status_change (scheduleStateName row) ''enabled'') now)))))"

definition Enable :: "('a sched_db_scheme) Service \<Rightarrow> rowid \<Rightarrow> nat \<Rightarrow> rowid option \<Rightarrow> Requester option \<Rightarrow>
    ('a sched_db_scheme, Schedule) op" where
  "Enable service i expectedRevision actor requester =
     bind_op (tx_attempt (enable_work service i expectedRevision actor requester)) (\<lambda>_. Get i)"

definition stop_work :: "rowid \<Rightarrow> nat \<Rightarrow> rowid option \<Rightarrow> bool \<Rightarrow> Requester option \<Rightarrow>
    ('a sched_db_scheme, unit) op" where
  "stop_work i expectedRevision actor archive requester =
     bind_op db_now (\<lambda>now.
     bind_op (lockSchedule i) (\<lambda>row.
     if s_revision row \<noteq> expectedRevision then fail_op ErrConflict
     else bind_op (lockActiveOccurrence i) (\<lambda>found.
     bind_op (applyStopTransitions
         [\<lparr>st_schedule = row, st_occurrenceID = (case found of None \<Rightarrow> 0 | Some r \<Rightarrow> o_id r)\<rparr>]
         actor archive now) (\<lambda>_.
     appendScheduleAudit requester ''schedule.state_changed'' i
       (status_change (scheduleStateName row) (if archive then ''archived'' else ''disabled'')) now))))"

definition stop :: "rowid \<Rightarrow> nat \<Rightarrow> rowid option \<Rightarrow> bool \<Rightarrow> Requester option \<Rightarrow>
    ('a sched_db_scheme, Schedule) op" where
  "stop i expectedRevision actor archive requester =
     bind_op (tx_attempt (stop_work i expectedRevision actor archive requester)) (\<lambda>_. Get i)"

definition Disable :: "rowid \<Rightarrow> nat \<Rightarrow> rowid option \<Rightarrow> Requester option \<Rightarrow> ('a sched_db_scheme, Schedule) op" where
  "Disable i expectedRevision actor requester = stop i expectedRevision actor False requester"

definition Archive :: "rowid \<Rightarrow> nat \<Rightarrow> rowid option \<Rightarrow> Requester option \<Rightarrow> ('a sched_db_scheme, Schedule) op" where
  "Archive i expectedRevision actor requester = stop i expectedRevision actor True requester"

section \<open>Bulk state changes\<close>

datatype BulkAction = BulkEnable | BulkDisable | BulkArchive | OtherBulkAction string

record BulkStateResult =
  bs_SelectedCount :: nat
  bs_AffectedCount :: nat
  bs_NoOpCount :: nat

fun dedup_ids :: "rowid list \<Rightarrow> rowid list \<Rightarrow> rowid list result" where
  "dedup_ids ids [] = Inr ids"
| "dedup_ids ids (i # rest) =
     (if i = 0 then Inl ErrInvalidSelection
      else if i \<in> set ids then dedup_ids ids rest
      else dedup_ids (ids @ [i]) rest)"

definition normalizeBulkIDs :: "rowid list \<Rightarrow> rowid list result" where
  "normalizeBulkIDs submitted =
     (if submitted = [] then Inl ErrInvalidSelection
      else case dedup_ids [] submitted of
        Inl x \<Rightarrow> Inl x
      | Inr ids \<Rightarrow> if length (sort ids) > MaxBulkSelection then Inl ErrInvalidSelection else Inr (sort ids))"

fun bulk_candidates :: "BulkAction \<Rightarrow> schedule_row list \<Rightarrow> schedule_row list result" where
  "bulk_candidates action [] = Inr []"
| "bulk_candidates action (row # rows) =
     (if s_archived row \<noteq> None then Inl ErrArchived
      else case bulk_candidates action rows of
        Inl x \<Rightarrow> Inl x
      | Inr rest \<Rightarrow>
          if (action = BulkEnable \<and> s_enabled row) \<or> (action = BulkDisable \<and> \<not> s_enabled row)
          then Inr rest else Inr (row # rest))"

fun prepare_enables :: "'d Service \<Rightarrow> (rowid \<Rightarrow> occurrence_row option) \<Rightarrow> time \<Rightarrow> schedule_row list \<Rightarrow>
    enableTransition list result" where
  "prepare_enables service active now [] = Inr []"
| "prepare_enables service active now (row # rows) =
     (case prepareEnable service row (active (s_id row) \<noteq> None) now of
        Inl x \<Rightarrow> Inl x
      | Inr transition \<Rightarrow>
          (case prepare_enables service active now rows of
             Inl x \<Rightarrow> Inl x
           | Inr transitions \<Rightarrow> Inr (transition # transitions)))"

definition appendScheduleBulkAudit :: "Requester option \<Rightarrow> BulkAction \<Rightarrow> BulkStateResult \<Rightarrow> time \<Rightarrow>
    ('a sched_db_scheme, unit) op" where
  "appendScheduleBulkAudit requester action result now =
     (case requester of
        None \<Rightarrow> ret_op ()
      | Some r \<Rightarrow> Append
          \<lparr>ev_Actor = Some (rq_Actor r), ev_Effective = Some (rq_Effective r),
           ev_Action = (case action of BulkDisable \<Rightarrow> ''schedule.bulk_disable''
             | BulkArchive \<Rightarrow> ''schedule.bulk_archive'' | _ \<Rightarrow> ''schedule.bulk_enable''),
           ev_Resource = [], ev_ResourceID = 0,
           ev_Metadata = Some (JObj [(''selected_count'', JNum (nat_string (bs_SelectedCount result))),
             (''affected_count'', JNum (nat_string (bs_AffectedCount result))),
             (''no_op_count'', JNum (nat_string (bs_NoOpCount result)))]),
           ev_CreatedAt = now\<rparr>)"

definition bulk_work :: "('a sched_db_scheme) Service \<Rightarrow> rowid list \<Rightarrow> BulkAction \<Rightarrow> rowid option \<Rightarrow>
    Requester option \<Rightarrow> ('a sched_db_scheme, BulkStateResult) op" where
  "bulk_work service ids action actor requester =
     bind_op db_now (\<lambda>now.
     bind_op (lockSchedules ids) (\<lambda>rows.
     if length rows \<noteq> length ids then fail_op ErrInvalidSelection
     else bind_op (lift_op (bulk_candidates action rows)) (\<lambda>candidates.
     bind_op (lockActiveOccurrences (map s_id candidates)) (\<lambda>active.
     let activeBySchedule = map_of (rev (map (\<lambda>r. (o_schedule r, r)) active));
         result = \<lparr>bs_SelectedCount = length rows, bs_AffectedCount = length candidates,
           bs_NoOpCount = length rows - length candidates\<rparr>
     in bind_op (if action = BulkEnable
          then bind_op (lift_op (prepare_enables service activeBySchedule now candidates)) (\<lambda>transitions.
               applyEnableTransitions transitions actor)
          else applyStopTransitions (map (\<lambda>row. \<lparr>st_schedule = row,
                  st_occurrenceID = (case activeBySchedule (s_id row) of None \<Rightarrow> 0 | Some r \<Rightarrow> o_id r)\<rparr>) candidates)
                 actor (action = BulkArchive) now) (\<lambda>_.
        bind_op (appendScheduleBulkAudit requester action result now) (\<lambda>_. ret_op result))))))"

definition BulkState :: "('a sched_db_scheme) Service \<Rightarrow> rowid list \<Rightarrow> BulkAction \<Rightarrow> rowid option \<Rightarrow>
    Requester option \<Rightarrow> ('a sched_db_scheme, BulkStateResult) op" where
  "BulkState service submitted action actor requester =
     bind_op (lift_op (normalizeBulkIDs submitted)) (\<lambda>ids.
     if action \<noteq> BulkEnable \<and> action \<noteq> BulkDisable \<and> action \<noteq> BulkArchive then fail_op ErrInvalidBulkAction
     else tx_attempt (bulk_work service ids action actor requester))"

section \<open>Delivery\<close>

text \<open>\<open>Format(time.RFC3339Nano)\<close> of a UTC time: trailing zeros of the fraction are dropped.\<close>

definition rfc3339_fraction :: "int \<Rightarrow> string" where
  "rfc3339_fraction micros =
     (if micros = 0 then [] else CHR ''.'' # rev (dropWhile (\<lambda>c. c = CHR ''0'') (rev (append_int 6 micros))))"

definition rfc3339 :: "time \<Rightarrow> string" where
  "rfc3339 t =
     (let inDay = t mod microseconds_per_day
      in format_date (CalendarDateFromTime t) @ ''T'' @ append_int 2 (inDay div hour) @ '':'' @
         append_int 2 (inDay div minute mod 60) @ '':'' @ append_int 2 (inDay div second mod 60) @
         rfc3339_fraction (inDay mod second) @ ''Z'')"

definition attempt_reference :: "rowid \<Rightarrow> time \<Rightarrow> 32 word \<Rightarrow> string" where
  "attempt_reference scheduleID scheduledFor attemptNo =
     ''schedule:'' @ nat_string scheduleID @ '':'' @ rfc3339 scheduledFor @ '':attempt:'' @
     nat_string (unat attemptNo)"

definition new_occurrence :: "schedule_row \<Rightarrow> time \<Rightarrow> identity_source \<Rightarrow> resolution_mode \<Rightarrow> rowid \<Rightarrow> occurrence_row" where
  "new_occurrence s for_time source mode i =
     \<lparr>o_id = i, o_schedule = s_id s, o_for = for_time, o_source = source, o_mode = mode,
      o_status = Unresolved, o_revision = s_revision s, o_job = s_job s, o_cron = s_cron s,
      o_timezone = s_timezone s, o_policy_kind = s_policy_kind s, o_policy_version = s_policy_version s,
      o_policy_json = s_policy_json s, o_policy_checksum = s_policy_checksum s, o_attempts = 0,
      o_retry = None, o_closed = None, o_closed_by = None, o_reject_class = None,
      o_reject_message = None, o_reject_revision = None\<rparr>"

definition insert_occurrence :: "(rowid \<Rightarrow> occurrence_row) \<Rightarrow> ('a sched_db_scheme, rowid) op" where
  "insert_occurrence row = stmt (\<lambda>t d.
     let i = next_id o_id (occurrences d)
     in case write_occurrences (occurrences d @ [row i]) d of
          Inl x \<Rightarrow> Inl x
        | Inr d' \<Rightarrow> Inr (i, d'))"

definition get_occurrence :: "rowid \<Rightarrow> ('a sched_db_scheme, occurrence_row) op" where
  "get_occurrence i = query (\<lambda>t d.
     case filter (\<lambda>r. o_id r = i) (occurrences d) of [] \<Rightarrow> Inl ErrNoRows | r # _ \<Rightarrow> Inr r)"

definition createOccurrence :: "schedule_row \<Rightarrow> time \<Rightarrow> resolution_mode \<Rightarrow> ('a sched_db_scheme, occurrence_row) op" where
  "createOccurrence schedule for_time mode =
     bind_op (insert_occurrence (new_occurrence schedule for_time ValidatedCron mode)) get_occurrence"

definition disableInvalid :: "schedule_row \<Rightarrow> time \<Rightarrow> string \<Rightarrow> ('a sched_db_scheme, unit) op" where
  "disableInvalid schedule now message =
     bind_op (update_schedules
       (\<lambda>s. s_id s = s_id schedule \<and> s_revision s = s_revision schedule \<and> s_enabled s)
       (\<lambda>s. s\<lparr>s_enabled := False, s_next := None, s_not_before := None, s_block_reason := None,
          s_blocked_at := None, s_error_class := Some ''invalid_definition'', s_error_message := Some message,
          s_error_at := Some now, s_revision := s_revision s + 1\<rparr>)) requireOne"

definition reject_row :: "string \<Rightarrow> nat \<Rightarrow> time \<Rightarrow> occurrence_row \<Rightarrow> occurrence_row" where
  "reject_row message revision now r = r\<lparr>o_status := RejectedInvalid, o_mode := InvalidMode, o_retry := None,
     o_reject_class := Some ''invalid_definition'', o_reject_message := Some message,
     o_reject_revision := Some revision, o_closed := Some now\<rparr>"

definition rejectLockedOccurrence :: "('a sched_db_scheme) Service \<Rightarrow> schedule_row \<Rightarrow> occurrence_row \<Rightarrow> time \<Rightarrow>
    def_reason \<Rightarrow> ('a sched_db_scheme, unit) op" where
  "rejectLockedOccurrence service schedule occurrence now cause =
     (let message = safeMessage (sv_text service) cause
      in bind_op (update_occurrences (\<lambda>r. o_id r = o_id occurrence \<and> o_status r = Unresolved)
                    (reject_row message (s_revision schedule) now)) (\<lambda>affected.
         bind_op (requireOne affected) (\<lambda>_.
         disableInvalid schedule now message)))"

definition rejectInvalid :: "('a sched_db_scheme) Service \<Rightarrow> schedule_row \<Rightarrow> time \<Rightarrow> time \<Rightarrow> def_reason \<Rightarrow>
    ('a sched_db_scheme, unit) op" where
  "rejectInvalid service schedule cursor now cause =
     bind_op (lockActiveOccurrence (s_id schedule)) (\<lambda>found.
     case found of
       Some occurrence \<Rightarrow> rejectLockedOccurrence service schedule occurrence now cause
     | None \<Rightarrow>
         let message = safeMessage (sv_text service) cause
         in bind_op (insert_occurrence (\<lambda>i. reject_row message (s_revision schedule) now
                (new_occurrence schedule cursor PersistedCursorFallback InvalidMode i))) (\<lambda>_.
            disableInvalid schedule now message))"

definition fenced_schedule :: "schedule_row \<Rightarrow> occurrence_row \<Rightarrow> schedule_row \<Rightarrow> bool" where
  "fenced_schedule schedule occurrence s \<longleftrightarrow> s_id s = s_id schedule \<and> s_enabled s \<and>
     s_next s = Some (o_for occurrence) \<and> s_job s = o_job occurrence \<and> s_cron s = o_cron occurrence \<and>
     s_timezone s = o_timezone occurrence \<and> s_policy_kind s = o_policy_kind occurrence \<and>
     s_policy_version s = o_policy_version occurrence \<and> s_policy_checksum s = o_policy_checksum occurrence"

definition resolveSuccess :: "('a sched_db_scheme) Service \<Rightarrow> schedule_row \<Rightarrow> occurrence_row \<Rightarrow> attempt_row \<Rightarrow>
    run_row \<Rightarrow> cronDefinition \<Rightarrow> time \<Rightarrow> ('a sched_db_scheme, unit) op" where
  "resolveSuccess service schedule occurrence attempt run parsed now =
     (case r_finished run of
        None \<Rightarrow> fail_op ErrConflict
      | Some finished \<Rightarrow>
          if \<not> currentFence schedule occurrence \<or> a_run attempt \<noteq> r_id run \<or> o_attempts occurrence \<noteq> a_no attempt
          then fail_op ErrConflict
          else (case cron_Next (sv_cron service) parsed
                       (if o_mode occurrence = LiveCoalesced then finished else o_for occurrence) of
             None \<Rightarrow> fail_op (ErrInvalidDefinition NoNextOccurrence)
           | Some next \<Rightarrow>
               bind_op (update_occurrences
                 (\<lambda>r. o_id r = o_id occurrence \<and> o_status r = Unresolved \<and> o_attempts r = a_no attempt)
                 (\<lambda>r. r\<lparr>o_status := Resolved, o_retry := None, o_closed := Some now\<rparr>)) (\<lambda>affected.
               bind_op (requireOne affected) (\<lambda>_.
               bind_op (update_schedules (fenced_schedule schedule occurrence)
                 (\<lambda>s. s\<lparr>s_next := Some next, s_not_before := None, s_block_reason := None, s_blocked_at := None\<rparr>)) requireOne))))"

definition recordBackoff :: "schedule_row \<Rightarrow> occurrence_row \<Rightarrow> attempt_row \<Rightarrow> run_row \<Rightarrow> time \<Rightarrow>
    ('a sched_db_scheme, unit) op" where
  "recordBackoff schedule occurrence attempt run finished =
     (if \<not> currentFence schedule occurrence \<or> o_attempts occurrence \<noteq> a_no attempt \<or> a_run attempt \<noteq> r_id run
      then fail_op ErrConflict
      else let deadline = finished + retryDelay (a_no attempt)
        in bind_op (update_occurrences
             (\<lambda>r. o_id r = o_id occurrence \<and> o_status r = Unresolved \<and> o_attempts r = a_no attempt \<and> o_retry r = None)
             (\<lambda>r. r\<lparr>o_retry := Some deadline\<rparr>)) (\<lambda>affected.
           bind_op (requireOne affected) (\<lambda>_.
           bind_op (update_schedules (fenced_schedule schedule occurrence)
             (\<lambda>s. s\<lparr>s_not_before := Some deadline\<rparr>)) requireOne)))"

record delivery =
  dl_scheduleID :: rowid
  dl_occurrenceID :: rowid
  dl_runID :: rowid
  dl_jobKey :: string
  dl_attempt :: "32 word"
  dl_scheduledFor :: time
  dl_submittedAt :: time

definition block_reason :: "err \<Rightarrow> string" where
  "block_reason err =
     (if err = ErrSourceDisabled then ''source_disabled''
      else if err = ErrSourceConfigurationRequired then ''source_configuration_required''
      else ''job_busy'')"

definition insert_attempt :: "rowid \<Rightarrow> 32 word \<Rightarrow> rowid \<Rightarrow> string \<Rightarrow> time \<Rightarrow> ('a sched_db_scheme, unit) op" where
  "insert_attempt occurrence attemptNo runID reference now = stmt (\<lambda>t d.
     case write_attempts (attempts d @ [\<lparr>a_id = next_id a_id (attempts d), a_occurrence = occurrence,
            a_no = attemptNo, a_run = runID, a_reference = reference, a_submitted = now\<rparr>]) d of
       Inl x \<Rightarrow> Inl x
     | Inr d' \<Rightarrow> Inr ((), d'))"

definition cursor_schedule :: "schedule_row \<Rightarrow> occurrence_row \<Rightarrow> schedule_row \<Rightarrow> bool" where
  "cursor_schedule schedule occurrence s \<longleftrightarrow>
     s_id s = s_id schedule \<and> s_enabled s \<and> s_next s = Some (o_for occurrence)"

text \<open>The tail of \<open>processTransaction\<close>: one submission, or a delivery block.\<close>

definition deliver :: "('a sched_db_scheme) Service \<Rightarrow> schedule_row \<Rightarrow> JobDefinition \<Rightarrow> occurrence_row \<Rightarrow> time \<Rightarrow>
    ('a sched_db_scheme, bool \<times> delivery option) op" where
  "deliver service schedule j occurrence now =
     bind_op (lift_op (parametersForOccurrence (sv_sha service) j (o_for occurrence))) (\<lambda>parameters.
     let attemptNo = o_attempts occurrence + 1;
         reference = attempt_reference (s_id schedule) (o_for occurrence) attemptNo
     in bind_op (try_op (sv_submit service (s_job schedule) parameters TriggerScheduler reference
                           (s_created_by schedule))) (\<lambda>submitted.
     case submitted of
       Inl err \<Rightarrow>
         if err = ErrJobBusy \<or> err = ErrSourceDisabled \<or> err = ErrSourceConfigurationRequired then
           bind_op (update_schedules (cursor_schedule schedule occurrence)
             (\<lambda>s. s\<lparr>s_block_reason := Some (block_reason err), s_blocked_at := Some now,
                s_not_before := Some (now + deliveryDelay)\<rparr>)) (\<lambda>affected.
           bind_op (requireOne affected) (\<lambda>_. ret_op (True, None)))
         else fail_op err
     | Inr runID \<Rightarrow>
         bind_op (insert_attempt (o_id occurrence) attemptNo runID reference now) (\<lambda>_.
         bind_op (update_occurrences
           (\<lambda>r. o_id r = o_id occurrence \<and> o_status r = Unresolved \<and> o_attempts r = o_attempts occurrence)
           (\<lambda>r. r\<lparr>o_attempts := attemptNo, o_retry := None\<rparr>)) (\<lambda>affected.
         bind_op (requireOne affected) (\<lambda>_.
         bind_op (update_schedules (cursor_schedule schedule occurrence)
           (\<lambda>s. s\<lparr>s_block_reason := None, s_blocked_at := None, s_not_before := Some (now + deliveryDelay)\<rparr>)) (\<lambda>affected.
         bind_op (requireOne affected) (\<lambda>_.
         ret_op (True, Some \<lparr>dl_scheduleID = s_id schedule, dl_occurrenceID = o_id occurrence, dl_runID = runID,
           dl_jobKey = s_job schedule, dl_attempt = attemptNo, dl_scheduledFor = o_for occurrence,
           dl_submittedAt = now\<rparr>))))))))"

text \<open>The part that looks at the latest attempt: its run decides whether to resolve, wait, back off
  or submit the next attempt.\<close>

definition settle :: "('a sched_db_scheme) Service \<Rightarrow> schedule_row \<Rightarrow> JobDefinition \<Rightarrow> cronDefinition \<Rightarrow>
    occurrence_row \<Rightarrow> time \<Rightarrow> ('a sched_db_scheme, bool \<times> delivery option) op" where
  "settle service schedule j parsed occurrence now =
     bind_op (lockLatestAttempt (o_id occurrence)) (\<lambda>latest.
     case latest of
       Some attempt \<Rightarrow>
         if a_no attempt \<noteq> o_attempts occurrence then
           bind_op (rejectLockedOccurrence service schedule occurrence now AttemptSequence) (\<lambda>_. ret_op (True, None))
         else bind_op (lockAttemptRun (a_run attempt)) (\<lambda>run.
           if r_status run = StatusSucceeded then
             bind_op (resolveSuccess service schedule occurrence attempt run parsed now) (\<lambda>_. ret_op (True, None))
           else if r_status run = StatusQueued \<or> r_status run = StatusRunning then ret_op (False, None)
           else if r_status run = StatusFailed \<or> r_status run = StatusCancelled \<or> r_status run = StatusAbandoned then
             (case r_finished run of
                None \<Rightarrow> fail_op (ErrMsg ''terminal scheduled run has no finished_at'')
              | Some finished \<Rightarrow>
                  (case o_retry occurrence of
                     None \<Rightarrow> bind_op (recordBackoff schedule occurrence attempt run finished) (\<lambda>_. ret_op (True, None))
                   | Some retry \<Rightarrow>
                       if retry > now then ret_op (False, None) else deliver service schedule j occurrence now))
           else fail_op (ErrMsg ''scheduled run has invalid status''))
     | None \<Rightarrow>
         if o_attempts occurrence \<noteq> 0 then
           bind_op (rejectLockedOccurrence service schedule occurrence now AttemptHistory) (\<lambda>_. ret_op (True, None))
         else deliver service schedule j occurrence now)"

definition expected_mode :: "JobDefinition \<Rightarrow> resolution_mode" where
  "expected_mode j = (if jd_DateStrategy j = NoDate then LiveCoalesced else Historical)"

definition process_due :: "('a sched_db_scheme) Service \<Rightarrow> schedule_row \<Rightarrow> time \<Rightarrow> Definition \<Rightarrow> JobDefinition \<Rightarrow>
    cronDefinition \<Rightarrow> time \<Rightarrow> ('a sched_db_scheme, bool \<times> delivery option) op" where
  "process_due service schedule cursor definition j parsed now =
     bind_op (lockActiveOccurrence (s_id schedule)) (\<lambda>found.
     bind_op (case found of
                Some occurrence \<Rightarrow> ret_op occurrence
              | None \<Rightarrow> createOccurrence schedule cursor (expected_mode j)) (\<lambda>occurrence.
     if found \<noteq> None \<and> o_for occurrence \<noteq> cursor then
       bind_op (rejectLockedOccurrence service schedule occurrence now ActiveOccurrenceCursor) (\<lambda>_. ret_op (True, None))
     else if \<not> occurrence_semanticMatches occurrence definition then
       bind_op (rejectLockedOccurrence service schedule occurrence now OccurrenceDiffers) (\<lambda>_. ret_op (True, None))
     else if o_source occurrence \<noteq> ValidatedCron \<or> o_mode occurrence \<noteq> expected_mode j then
       bind_op (rejectLockedOccurrence service schedule occurrence now ResolutionContract) (\<lambda>_. ret_op (True, None))
     else settle service schedule j parsed occurrence now))"

definition processTransaction :: "('a sched_db_scheme) Service \<Rightarrow> rowid \<Rightarrow>
    ('a sched_db_scheme, bool \<times> delivery option) op" where
  "processTransaction service i =
     bind_op db_now (\<lambda>now.
     bind_op (try_op (lockSchedule i)) (\<lambda>locked.
     case locked of
       Inl x \<Rightarrow> if x = ErrNoRows then ret_op (False, None) else fail_op x
     | Inr schedule \<Rightarrow>
         (case s_next schedule of
            None \<Rightarrow> ret_op (False, None)
          | Some cursor \<Rightarrow>
              if \<not> s_enabled schedule \<or> s_archived schedule \<noteq> None \<or> cursor > now \<or>
                 (case s_not_before schedule of None \<Rightarrow> False | Some t \<Rightarrow> t > now)
              then ret_op (False, None)
              else (case validateDefinition (sv_sha service) (sv_cron service) (sv_catalog service)
                           (row_definition schedule) now of
                 Inl x \<Rightarrow>
                   (case x of
                      ErrInvalidDefinition cause \<Rightarrow>
                        bind_op (rejectInvalid service schedule cursor now cause) (\<lambda>_. ret_op (True, None))
                    | _ \<Rightarrow> fail_op x)
               | Inr (definition, parsed) \<Rightarrow>
                   (case Find (sv_catalog service) (s_job schedule) of
                      None \<Rightarrow> bind_op (rejectInvalid service schedule cursor now CursorNotOccurrence) (\<lambda>_. ret_op (True, None))
                    | Some j \<Rightarrow>
                        if \<not> IsOccurrence (sv_cron service) parsed cursor
                        then bind_op (rejectInvalid service schedule cursor now CursorNotOccurrence) (\<lambda>_. ret_op (True, None))
                        else process_due service schedule cursor definition j parsed now)))))"

definition process :: "('a sched_db_scheme) Service \<Rightarrow> rowid \<Rightarrow> ('a sched_db_scheme, bool \<times> delivery option) op" where
  "process service i = replay_tx (processTransaction service i)"

text \<open>The selection of \<open>Sweep\<close>: due, enabled schedules that are not held back and have no active run.\<close>

definition in_flight :: "'a sched_db_scheme \<Rightarrow> occurrence_row \<Rightarrow> bool" where
  "in_flight d r = list_ex (\<lambda>a. a_occurrence a = o_id r \<and>
     list_ex (\<lambda>q. r_id q = a_run a \<and> (r_status q = StatusQueued \<or> r_status q = StatusRunning)) (runs d)) (attempts d)"

definition due :: "time \<Rightarrow> 'a sched_db_scheme \<Rightarrow> schedule_row \<Rightarrow> bool" where
  "due t d s =
     (s_enabled s \<and> s_archived s = None \<and> sql_le (s_next s) t \<and>
      (s_not_before s = None \<or> sql_le (s_not_before s) t) \<and>
      list_all (\<lambda>r. active_schedule r = Some (s_id s) \<longrightarrow>
         (o_retry r = None \<or> sql_le (o_retry r) t) \<and> \<not> in_flight d r) (occurrences d))"

definition select_due :: "('a sched_db_scheme, rowid list) op" where
  "select_due = query (\<lambda>t d.
     Inr (take sweepLimit (map s_id (sort_key (\<lambda>s. (the (s_next s), s_id s)) (filter (due t d) (schedules d))))))"

definition Sweep :: "('a sched_db_scheme) Service \<Rightarrow> ('a sched_db_scheme, unit) op" where
  "Sweep service = bind_op select_due (\<lambda>ids.
     for_each ids (\<lambda>i. bind_op (try_op (process service i)) (\<lambda>_. ret_op ())))"

end
