(* ===== verification/Scheduler_Safety.thy ===== *)
theory Scheduler_Safety
  imports Scheduler_Service Store_Progress "HOL-Library.Sublist"
begin

text \<open>
  Safety of the scheduler. \<open>sched_inv\<close> is the invariant of its tables: an unresolved occurrence
  belongs to an enabled schedule whose cursor and definition it carries, and the attempts of an
  occurrence are numbered from 1 without gaps. \<open>sched_evolves\<close> is what may happen to the rows.
  The locale \<open>scheduling\<close> states what the scheduler relies on in the function that submits runs; it
  is interpreted on the run store's \<open>SubmitInTx\<close>.
\<close>

section \<open>Invariant and evolution\<close>

definition table_evolves :: "('r \<Rightarrow> 'r \<Rightarrow> bool) \<Rightarrow> 'r list \<Rightarrow> 'r list \<Rightarrow> bool" where
  "table_evolves step rows rows' \<longleftrightarrow>
     length rows \<le> length rows' \<and> (\<forall>i < length rows. step (rows ! i) (rows' ! i))"

definition same_fence :: "schedule_row \<Rightarrow> schedule_row \<Rightarrow> bool" where
  "same_fence s s' \<longleftrightarrow> s_enabled s' = s_enabled s \<and> s_next s' = s_next s \<and> s_job s' = s_job s \<and>
     s_cron s' = s_cron s \<and> s_timezone s' = s_timezone s \<and> s_policy_kind s' = s_policy_kind s \<and>
     s_policy_version s' = s_policy_version s \<and> s_policy_checksum s' = s_policy_checksum s"

definition schedule_step :: "schedule_row \<Rightarrow> schedule_row \<Rightarrow> bool" where
  "schedule_step s s' \<longleftrightarrow> s_id s' = s_id s \<and> s_revision s \<le> s_revision s' \<and> s_created_by s' = s_created_by s \<and>
     (s_archived s \<noteq> None \<longrightarrow> s_archived s' \<noteq> None)"

definition same_occurrence :: "occurrence_row \<Rightarrow> occurrence_row \<Rightarrow> bool" where
  "same_occurrence r r' \<longleftrightarrow> o_id r' = o_id r \<and> o_schedule r' = o_schedule r \<and> o_for r' = o_for r \<and>
     o_source r' = o_source r \<and> o_revision r' = o_revision r \<and> o_job r' = o_job r \<and> o_cron r' = o_cron r \<and>
     o_timezone r' = o_timezone r \<and> o_policy_kind r' = o_policy_kind r \<and>
     o_policy_version r' = o_policy_version r \<and> o_policy_checksum r' = o_policy_checksum r"

definition occurrence_step :: "occurrence_row \<Rightarrow> occurrence_row \<Rightarrow> bool" where
  "occurrence_step r r' \<longleftrightarrow> same_occurrence r r' \<and> o_attempts r \<le> o_attempts r' \<and>
     (o_status r \<noteq> Unresolved \<longrightarrow> r' = r)"

definition fence_inv :: "'a sched_db_scheme \<Rightarrow> bool" where
  "fence_inv d \<longleftrightarrow> (\<forall>r \<in> set (occurrences d). o_status r = Unresolved \<longrightarrow>
     (\<exists>s \<in> set (schedules d). s_id s = o_schedule r \<and> currentFence s r))"

definition history_of :: "occurrence_row \<Rightarrow> attempt_row list \<Rightarrow> nat list" where
  "history_of r rows = map (\<lambda>a. unat (a_no a)) (filter (\<lambda>a. a_occurrence a = o_id r) rows)"

definition attempt_inv :: "'a sched_db_scheme \<Rightarrow> bool" where
  "attempt_inv d \<longleftrightarrow>
     (\<forall>r \<in> set (occurrences d). history_of r (attempts d) = [1..<Suc (unat (o_attempts r))]) \<and>
     (\<forall>a \<in> set (attempts d). a_occurrence a \<in> o_id ` set (occurrences d))"

definition sched_inv :: "'a sched_db_scheme \<Rightarrow> bool" where
  "sched_inv d \<longleftrightarrow> distinct (map s_id (schedules d)) \<and> list_all schedule_ok (schedules d) \<and>
     distinct (map o_id (occurrences d)) \<and> 0 \<notin> set (map o_id (occurrences d)) \<and>
     occurrence_keys_ok (occurrences d) \<and> fence_inv d \<and> attempt_inv d"

definition sched_safe :: "'a sched_db_scheme \<Rightarrow> 'a sched_db_scheme \<Rightarrow> bool" where
  "sched_safe d d' \<longleftrightarrow> (sched_inv d \<longrightarrow> sched_inv d' \<and>
     table_evolves schedule_step (schedules d) (schedules d') \<and>
     table_evolves occurrence_step (occurrences d) (occurrences d') \<and>
     prefix (attempts d) (attempts d'))"

lemma table_evolves_refl: "(\<And>r. step r r) \<Longrightarrow> table_evolves step rows rows"
  by (simp add: table_evolves_def)

lemma table_evolves_trans:
  assumes "table_evolves step a b" "table_evolves step b c"
    and "\<And>x y z. step x y \<Longrightarrow> step y z \<Longrightarrow> step x z"
  shows "table_evolves step a c"
  using assms(1,2) unfolding table_evolves_def by (meson assms(3) dual_order.trans less_le_trans)

lemma table_evolves_update:
  "(\<And>r. r \<in> set rows \<Longrightarrow> step r (if P r then f r else r)) \<Longrightarrow> table_evolves step rows (sql_update P f rows)"
  by (simp add: table_evolves_def sql_update_def)

lemma sql_update_mem: "r \<in> set rows \<Longrightarrow> (if P r then f r else r) \<in> set (sql_update P f rows)"
  by (simp add: sql_update_def)

lemma table_evolves_append: "(\<And>r. step r r) \<Longrightarrow> table_evolves step rows (rows @ new)"
  by (simp add: table_evolves_def nth_append)

lemma table_evolves_member:
  assumes "table_evolves step rows rows'" "r \<in> set rows"
  obtains r' where "r' \<in> set rows'" "step r r'"
  using assms unfolding table_evolves_def in_set_conv_nth by (metis less_le_trans nth_mem)

lemma schedule_step_refl [simp]: "schedule_step s s"
  by (simp add: schedule_step_def)

lemma schedule_step_trans: "schedule_step a b \<Longrightarrow> schedule_step b c \<Longrightarrow> schedule_step a c"
  by (auto simp: schedule_step_def)

lemma occurrence_step_refl [simp]: "occurrence_step r r"
  by (simp add: occurrence_step_def same_occurrence_def)

lemma occurrence_step_trans: "occurrence_step a b \<Longrightarrow> occurrence_step b c \<Longrightarrow> occurrence_step a c"
  unfolding occurrence_step_def same_occurrence_def by (intro conjI impI) auto

interpretation sched_rel: step_relation "sched_safe :: 'a sched_db_scheme \<Rightarrow> 'a sched_db_scheme \<Rightarrow> bool"
proof unfold_locales
  fix d :: "'a sched_db_scheme"
  show "sched_safe d d" by (simp add: sched_safe_def table_evolves_refl)
next
  fix d d' d'' :: "'a sched_db_scheme"
  assume "sched_safe d d'" "sched_safe d' d''"
  then show "sched_safe d d''"
    unfolding sched_safe_def
    using table_evolves_trans [of schedule_step, OF _ _ schedule_step_trans, of "schedules d" "schedules d'" "schedules d''"]
      table_evolves_trans [of occurrence_step, OF _ _ occurrence_step_trans, of "occurrences d" "occurrences d'" "occurrences d''"]
      prefix_order.trans [of "attempts d" "attempts d'" "attempts d''"] by simp
qed

section \<open>Statements\<close>

lemma update_schedules_Inr:
  "update_schedules P f e = (Inr n, e') \<longleftrightarrow>
     fault e (tick e) = None \<and> list_all schedule_ok (sql_update P f (schedules (db e))) \<and>
     n = sql_changed P f (schedules (db e)) \<and>
     e' = e\<lparr>tick := Suc (tick e), db := (db e)\<lparr>schedules := sql_update P f (schedules (db e))\<rparr>\<rparr>"
  by (auto simp: update_schedules_def op_iff write_schedules_def split: sum.splits if_splits)

lemma update_occurrences_Inr:
  "update_occurrences P f e = (Inr n, e') \<longleftrightarrow>
     fault e (tick e) = None \<and> occurrence_keys_ok (sql_update P f (occurrences (db e))) \<and>
     n = sql_changed P f (occurrences (db e)) \<and>
     e' = e\<lparr>tick := Suc (tick e), db := (db e)\<lparr>occurrences := sql_update P f (occurrences (db e))\<rparr>\<rparr>"
  by (auto simp: update_occurrences_def op_iff write_occurrences_def split: sum.splits if_splits)

lemma requireCount_Inr [op_iff]: "requireCount n k e = (Inr u, e') \<longleftrightarrow> n = k \<and> e' = e"
  by (auto simp: requireCount_def op_iff)

lemma requireOne_Inr [op_iff]: "requireOne n e = (Inr u, e') \<longleftrightarrow> n = 1 \<and> e' = e"
  by (auto simp: requireOne_def op_iff)

text \<open>\<open>idle d i\<close>: the schedule \<open>i\<close> has no unresolved occurrence.\<close>

definition idle :: "'a sched_db_scheme \<Rightarrow> rowid \<Rightarrow> bool" where
  "idle d i \<longleftrightarrow> (\<forall>r \<in> set (occurrences d). active_schedule r \<noteq> Some i)"

lemma active_schedule_Some: "active_schedule r = Some i \<longleftrightarrow> o_status r = Unresolved \<and> o_schedule r = i"
  by (auto simp: active_schedule_def)

lemma currentFence_same: "same_fence s s' \<Longrightarrow> currentFence s r \<Longrightarrow> currentFence s' r"
  by (auto simp: same_fence_def currentFence_def)

lemma safe_schedules:
  assumes ok: "list_all schedule_ok (sql_update P f (schedules d))"
    and step: "\<And>s. sched_inv d \<Longrightarrow> s \<in> set (schedules d) \<Longrightarrow> P s \<Longrightarrow> schedule_step s (f s) \<and>
      (idle d (s_id s) \<or> same_fence s (f s))"
  shows "sched_safe d (d\<lparr>schedules := sql_update P f (schedules d)\<rparr>)"
  unfolding sched_safe_def
proof (intro impI conjI)
  assume inv: "sched_inv d"
  let ?d = "d\<lparr>schedules := sql_update P f (schedules d)\<rparr>"
  have ids: "map s_id (sql_update P f (schedules d)) = map s_id (schedules d)"
    by (rule map_sql_update) (use step [OF inv] in \<open>auto simp: schedule_step_def\<close>)
  have "\<exists>s \<in> set (schedules ?d). s_id s = o_schedule r \<and> currentFence s r"
    if r: "r \<in> set (occurrences d)" "o_status r = Unresolved" for r
  proof -
    obtain s where s: "s \<in> set (schedules d)" "s_id s = o_schedule r" "currentFence s r"
      using inv r by (auto simp: sched_inv_def fence_inv_def)
    have "\<not> idle d (s_id s)" using r s(2) by (auto simp: idle_def active_schedule_Some)
    then have "s_id (if P s then f s else s) = o_schedule r \<and> currentFence (if P s then f s else s) r"
      using step [OF inv s(1)] s by (auto simp: schedule_step_def intro: currentFence_same)
    then show ?thesis using sql_update_mem [OF s(1), of P f] by auto
  qed
  then have "fence_inv ?d" by (auto simp: fence_inv_def)
  with inv ids ok show "sched_inv ?d" by (simp add: sched_inv_def attempt_inv_def)
  show "table_evolves schedule_step (schedules d) (schedules ?d)"
    by simp (rule table_evolves_update; use step [OF inv] in auto)
qed (simp_all add: table_evolves_refl)

lemma safe_occurrences:
  assumes ok: "occurrence_keys_ok (sql_update P f (occurrences d))"
    and step: "\<And>r. sched_inv d \<Longrightarrow> r \<in> set (occurrences d) \<Longrightarrow> P r \<Longrightarrow>
      occurrence_step r (f r) \<and> o_attempts (f r) = o_attempts r"
  shows "sched_safe d (d\<lparr>occurrences := sql_update P f (occurrences d)\<rparr>)"
  unfolding sched_safe_def
proof (intro impI conjI)
  assume inv: "sched_inv d"
  let ?d = "d\<lparr>occurrences := sql_update P f (occurrences d)\<rparr>"
  have st: "occurrence_step r (if P r then f r else r) \<and> o_attempts (if P r then f r else r) = o_attempts r"
    if "r \<in> set (occurrences d)" for r using step [OF inv that] by auto
  have ids: "map o_id (sql_update P f (occurrences d)) = map o_id (occurrences d)"
    by (rule map_sql_update) (use step [OF inv] in \<open>auto simp: occurrence_step_def same_occurrence_def\<close>)
  have "\<exists>s \<in> set (schedules d). s_id s = o_schedule r' \<and> currentFence s r'"
    if "r' \<in> set (sql_update P f (occurrences d))" "o_status r' = Unresolved" for r'
  proof -
    from that(1) obtain r where r: "r \<in> set (occurrences d)" "r' = (if P r then f r else r)" by (rule in_sql_update)
    with st [OF r(1)] that(2) have "o_status r = Unresolved" by (auto simp: occurrence_step_def)
    then obtain s where "s \<in> set (schedules d)" "s_id s = o_schedule r" "currentFence s r"
      using inv r(1) by (auto simp: sched_inv_def fence_inv_def)
    with st [OF r(1)] r(2) that(2) show ?thesis
      by (auto simp: occurrence_step_def same_occurrence_def currentFence_def)
  qed
  then have fence: "fence_inv ?d" by (auto simp: fence_inv_def)
  have "history_of r' (attempts d) = [1..<Suc (unat (o_attempts r'))]"
    if "r' \<in> set (sql_update P f (occurrences d))" for r'
  proof -
    from that obtain r where r: "r \<in> set (occurrences d)" "r' = (if P r then f r else r)" by (rule in_sql_update)
    then have "history_of r' (attempts d) = history_of r (attempts d)" "o_attempts r' = o_attempts r"
      using st [OF r(1)] by (auto simp: history_of_def occurrence_step_def same_occurrence_def)
    with inv r(1) show ?thesis by (simp add: sched_inv_def attempt_inv_def)
  qed
  moreover have "o_id ` set (sql_update P f (occurrences d)) = o_id ` set (occurrences d)"
    using arg_cong [OF ids, of set] by simp
  ultimately have "attempt_inv ?d" using inv by (simp add: attempt_inv_def sched_inv_def)
  with inv ids ok fence show "sched_inv ?d" by (simp add: sched_inv_def del: set_map)
  show "table_evolves occurrence_step (occurrences d) (occurrences ?d)"
    by simp (rule table_evolves_update; use st in blast)
qed (simp_all add: table_evolves_refl)

section \<open>Selections\<close>

lemma lockSchedule_Inr:
  "lockSchedule i e = (Inr row, e') \<Longrightarrow> db e' = db e \<and> row \<in> set (schedules (db e)) \<and> s_id row = i"
  by (auto simp: lockSchedule_def op_iff split: list.splits dest!: filter_eq_ConsD)

lemma lockActiveOccurrence_Inr:
  assumes "lockActiveOccurrence i e = (Inr found, e')"
  shows "db e' = db e"
    and "found = None \<Longrightarrow> idle (db e) i"
    and "found = Some r \<Longrightarrow> r \<in> set (occurrences (db e)) \<and> active_schedule r = Some i"
proof -
  obtain q e1 where q: "select_active i e = (q, e1)" by fastforce
  have d1: "db e1 = db e" using q unfolding select_active_def by (rule query_db)
  have e': "e' = e1 \<and> (case q of Inl x \<Rightarrow> x = ErrNoRows \<and> found = None | Inr row \<Rightarrow> found = Some row)"
    using assms q by (auto simp: lockActiveOccurrence_def op_iff case_sum_op split: if_splits)
  show "db e' = db e" using e' d1 by simp
  show "idle (db e) i" if "found = None"
  proof -
    have "q = Inl ErrNoRows" using e' that by (cases q) auto
    with q show ?thesis
      by (auto simp: select_active_def idle_def filter_empty_conv dest!: query_NoRows split: list.splits)
  qed
  show "r \<in> set (occurrences (db e)) \<and> active_schedule r = Some i" if "found = Some r"
  proof -
    have "q = Inr r" using e' that by (cases q) auto
    with q have "\<exists>rs. filter (\<lambda>r. active_schedule r = Some i) (occurrences (db e)) = r # rs"
      by (auto simp: select_active_def op_iff split: list.splits)
    then show ?thesis by (auto dest!: filter_eq_ConsD)
  qed
qed

lemma still_selections:
  "still.moves base (lockSchedule i)" "still.moves base (lockActiveOccurrence i)"
  "still.moves base (lockLatestAttempt j)" "still.moves base (lockAttemptRun k)"
  "still.moves base (lockSchedules ids)" "still.moves base (lockActiveOccurrences ids)"
  unfolding lockSchedule_def lockActiveOccurrence_def select_active_def lockLatestAttempt_def select_attempt_def
    lockAttemptRun_def get_run_row_def lockSchedules_def lockActiveOccurrences_def
  by (intro still.moves_intros)+

section \<open>Administration\<close>

lemma sched_safe_frame:
  "schedules d' = schedules d \<Longrightarrow> occurrences d' = occurrences d \<Longrightarrow> attempts d' = attempts d \<Longrightarrow> sched_safe d d'"
  by (simp add: sched_safe_def sched_inv_def fence_inv_def attempt_inv_def table_evolves_refl)

lemma moves_audit:
  "sched_rel.moves (Append event :: ('a sched_db_scheme, unit) op)"
  unfolding Append_def insert_audit_def
  by (intro sched_rel.moves_intros sched_rel.moves_stmt) (auto intro: sched_safe_frame)

lemma moves_appendScheduleAudit:
  "sched_rel.moves (appendScheduleAudit requester action i metadata now)"
  "sched_rel.moves (appendScheduleBulkAudit requester bulk result now)"
  unfolding appendScheduleAudit_def appendScheduleBulkAudit_def by (intro sched_rel.moves_intros moves_audit)+

lemma moves_insertSchedule: "sched_rel.moves (insertSchedule input)"
  unfolding insertSchedule_def
proof (intro sched_rel.moves_intros sched_rel.moves_stmt)
  fix t a and d d' :: "'a sched_db_scheme"
  let ?s = "new_schedule input (next_id s_id (schedules d))"
  assume "(let i = next_id s_id (schedules d) in case write_schedules (schedules d @ [new_schedule input i]) d of
      Inl x \<Rightarrow> Inl x | Inr d' \<Rightarrow> Inr (i, d')) = Inr (a, d')"
  then have ok: "list_all schedule_ok (schedules d @ [?s])" and d': "d' = d\<lparr>schedules := schedules d @ [?s]\<rparr>"
    by (auto simp: Let_def write_schedules_def split: sum.splits if_splits)
  have "s_id ?s \<notin> s_id ` set (schedules d)"
    using next_id_fresh [of _ "schedules d" s_id] by (fastforce simp: new_schedule_def Let_def)
  then show "sched_safe d d'"
    using ok unfolding d' sched_safe_def
    by (auto simp: sched_inv_def fence_inv_def attempt_inv_def table_evolves_append table_evolves_refl)
qed

lemma moves_Get: "sched_rel.moves (Get i)"
  unfolding Get_def lockSchedule_def by (intro sched_rel.moves_intros)

lemma moves_Create: "sched_rel.moves (Create service input)"
  unfolding Create_def
  by (intro sched_rel.moves_intros moves_insertSchedule moves_appendScheduleAudit moves_Get)

lemma moves_create_all: "sched_rel.moves (create_all now result values)"
  by (induction now result "values" rule: create_all.induct)
    (auto simp: same_schedules_def intro!: sched_rel.moves_intros moves_insertSchedule moves_appendScheduleAudit)

lemma moves_CreateMany: "sched_rel.moves (CreateMany service inputs)"
  unfolding CreateMany_def lock_source_def find_source_def
  by (intro sched_rel.moves_intros moves_create_all)

lemma disabled_idle:
  assumes "sched_inv d" "s \<in> set (schedules d)" "\<not> s_enabled s"
  shows "idle d (s_id s)"
  unfolding idle_def
proof (intro ballI notI)
  fix r assume r: "r \<in> set (occurrences d)" "active_schedule r = Some (s_id s)"
  then obtain s' where "s' \<in> set (schedules d)" "s_id s' = s_id s" "s_enabled s'"
    using assms(1) by (auto simp: sched_inv_def fence_inv_def active_schedule_Some currentFence_def)
  then show False
    using assms distinct_by_id_eq [of s_id "schedules d" s' s] by (auto simp: sched_inv_def)
qed

lemma moves_applyEnable: "sched_rel.moves (applyEnableTransitions transitions actor)"
  unfolding applyEnableTransitions_def update_schedules_def requireCount_def
proof (intro sched_rel.moves_intros sched_rel.moves_stmt)
  fix t a and d d' :: "'a sched_db_scheme"
  let ?P = "\<lambda>s. (s_id s, s_revision s) \<in> set (map (\<lambda>t. (s_id (et_schedule t), s_revision (et_schedule t))) transitions) \<and>
             \<not> s_enabled s \<and> s_archived s = None"
  assume "(case write_schedules (sql_update ?P (enable_row transitions actor) (schedules d)) d of
      Inl x \<Rightarrow> Inl x | Inr d' \<Rightarrow> Inr (sql_changed ?P (enable_row transitions actor) (schedules d), d')) = Inr (a, d')"
  then have ok: "list_all schedule_ok (sql_update ?P (enable_row transitions actor) (schedules d))"
    and d': "d' = d\<lparr>schedules := sql_update ?P (enable_row transitions actor) (schedules d)\<rparr>"
    by (auto simp: write_schedules_def split: sum.splits if_splits)
  show "sched_safe d d'"
    unfolding d'
    by (rule safe_schedules [OF ok]) (auto simp: schedule_step_def enable_row_def intro: disabled_idle)
qed

lemma moves_enable_work: "sched_rel.moves (enable_work service i expectedRevision actor requester)"
  unfolding enable_work_def lockSchedule_def lockActiveOccurrence_def select_active_def
  by (intro sched_rel.moves_intros moves_applyEnable moves_appendScheduleAudit)

lemma moves_Enable: "sched_rel.moves (Enable service i expectedRevision actor requester)"
  unfolding Enable_def by (intro sched_rel.moves_intros moves_enable_work moves_Get)

lemma update_next_Inr:
  assumes "update_next service i row definition parsed now e = (Inr next, e')"
  shows "db e' = db e \<and> (row_semanticMatches row definition \<and> next = s_next row \<or> idle (db e) i)"
proof (cases "row_semanticMatches row definition")
  case True
  with assms show ?thesis by (simp add: update_next_def op_iff)
next
  case False
  with assms have "lockActiveOccurrence i e = (Inr None, e')"
    by (auto simp: update_next_def op_iff split: if_splits)
  from lockActiveOccurrence_Inr(1,2) [OF this] show ?thesis by simp
qed

lemma same_id_schedule:
  "sched_inv d \<Longrightarrow> s \<in> set (schedules d) \<Longrightarrow> s' \<in> set (schedules d) \<Longrightarrow> s_id s = s_id s' \<Longrightarrow> s = s'"
  using distinct_by_id_eq [of s_id "schedules d" s s'] by (simp add: sched_inv_def)

lemma same_id_occurrence:
  "sched_inv d \<Longrightarrow> r \<in> set (occurrences d) \<Longrightarrow> r' \<in> set (occurrences d) \<Longrightarrow> o_id r = o_id r' \<Longrightarrow> r = r'"
  using distinct_by_id_eq [of o_id "occurrences d" r r'] by (simp add: sched_inv_def)

lemma commits_update_work: "sched_rel.commits (update_work service i input)"
proof (rule sched_rel.commitsI)
  fix e a e'
  assume "update_work service i input e = (Inr a, e')"
  then obtain row dfn parsed now e1 e2 cursor e3 n e4 where
      row: "row \<in> set (schedules (db e))" "s_id row = i"
    and d: "db e2 = db e"
    and nx: "update_next service i row dfn parsed now e2 = (Inr cursor, e3)"
    and u: "update_schedules (\<lambda>s. s_id s = i \<and> s_revision s = ui_ExpectedRevision input)
        (update_row dfn cursor (ui_ActorID input)) e3 = (Inr n, e4)"
    and au: "appendScheduleAudit (ui_Requester input) ''schedule.updated'' i None now e4 = (Inr a, e')"
    by (auto simp: update_work_def op_iff split: if_splits prod.splits dest!: lockSchedule_Inr)
  let ?P = "\<lambda>s. s_id s = i \<and> s_revision s = ui_ExpectedRevision input"
  let ?f = "update_row dfn cursor (ui_ActorID input)"
  from update_next_Inr [OF nx] have d3: "db e3 = db e"
    and nxt: "row_semanticMatches row dfn \<and> cursor = s_next row \<or> idle (db e) i" by (auto simp: d)
  from u have ok: "list_all schedule_ok (sql_update ?P ?f (schedules (db e)))"
    and d4: "db e4 = (db e)\<lparr>schedules := sql_update ?P ?f (schedules (db e))\<rparr>"
    by (auto simp: update_schedules_Inr d3)
  have "sched_safe (db e) (db e4)"
    unfolding d4
  proof (rule safe_schedules [OF ok])
    fix s assume "sched_inv (db e)" "s \<in> set (schedules (db e))" "?P s"
    then have "s = row" using same_id_schedule [of "db e" s row] row by auto
    with nxt row(2) show "schedule_step s (?f s) \<and> (idle (db e) (s_id s) \<or> same_fence s (?f s))"
      by (auto simp: schedule_step_def update_row_def same_fence_def row_semanticMatches_def)
  qed
  moreover have "sched_safe (db e4) (db e')" by (rule sched_rel.movesD [OF moves_appendScheduleAudit(1) au])
  ultimately show "sched_safe (db e) (db e')" by (rule sched_rel.R_trans)
qed

lemma moves_tx_commits:
  assumes "sched_rel.commits m"
  shows "sched_rel.moves (tx_attempt m)"
proof (rule sched_rel.movesI)
  fix e r e'
  assume run: "tx_attempt m e = (r, e')"
  show "sched_safe (db e) (db e')"
  proof (cases r)
    case (Inl x)
    with run show ?thesis by (auto dest: tx_attempt_Inl_db simp: sched_rel.R_refl)
  next
    case (Inr b)
    with run obtain e1 e2 where "db e1 = db e" "m e1 = (Inr b, e2)" "db e' = db e2" by (auto elim!: tx_attempt_InrE)
    with assms show ?thesis unfolding sched_rel.commits_def by metis
  qed
qed

lemma moves_Update: "sched_rel.moves (Update service i input)"
  unfolding Update_def
  by (intro sched_rel.moves_bind moves_tx_commits commits_update_work moves_Get)

section \<open>Stopping schedules\<close>

definition stop_context :: "'a sched_db_scheme \<Rightarrow> stopTransition \<Rightarrow> bool" where
  "stop_context d t \<longleftrightarrow> (if st_occurrenceID t = 0 then idle d (s_id (st_schedule t))
     else \<exists>r \<in> set (occurrences d). o_id r = st_occurrenceID t \<and> active_schedule r = Some (s_id (st_schedule t)))"

lemma active_unique:
  assumes "sched_inv d" "r \<in> set (occurrences d)" "r' \<in> set (occurrences d)"
    "active_schedule r = Some i" "active_schedule r' = Some i"
  shows "r = r'"
  using assms unique_key_eq [of active_schedule "occurrences d" r r' i] by (simp add: sched_inv_def occurrence_keys_ok_def)

lemma occurrence_key_rows:
  assumes "sched_inv d" "r \<in> set (occurrences d)"
  shows "o_id r \<noteq> 0"
  using assms by (metis (no_types, lifting) imageI list.set_map sched_inv_def)

lemma closed_idle:
  assumes inv: "sched_inv d" and i: "\<And>r. r \<in> set (occurrences d) \<Longrightarrow> active_schedule r = Some i \<Longrightarrow> P r"
    and closes: "\<And>r. P r \<Longrightarrow> o_status (f r) \<noteq> Unresolved"
  shows "idle (d\<lparr>occurrences := sql_update P f (occurrences d)\<rparr>) i"
  using i closes by (auto simp: idle_def set_sql_update active_schedule_Some)

lemma discard_Inr:
  assumes "discard_occurrences ids actor now e = (Inr u, e')"
  shows "db e' = (db e)\<lparr>occurrences := sql_update (\<lambda>r. o_id r \<in> set ids \<and> o_status r = Unresolved)
      (discard_row now actor) (occurrences (db e))\<rparr> \<and> sched_safe (db e) (db e')"
proof (cases "ids = []")
  case True
  then have "sql_update (\<lambda>r. o_id r \<in> set ids \<and> o_status r = Unresolved) (discard_row now actor) (occurrences (db e)) =
      occurrences (db e)" by (intro sql_update_none) simp
  with True assms show ?thesis by (simp add: discard_occurrences_def op_iff sched_rel.R_refl)
next
  case False
  let ?P = "\<lambda>r. o_id r \<in> set ids \<and> o_status r = Unresolved"
  from False assms have ok: "occurrence_keys_ok (sql_update ?P (discard_row now actor) (occurrences (db e)))"
    and d': "db e' = (db e)\<lparr>occurrences := sql_update ?P (discard_row now actor) (occurrences (db e))\<rparr>"
    by (auto simp: discard_occurrences_def op_iff update_occurrences_Inr)
  have "sched_safe (db e) (db e')"
    unfolding d' by (rule safe_occurrences [OF ok])
      (auto simp: occurrence_step_def same_occurrence_def discard_row_def)
  with d' show ?thesis by blast
qed

lemma applyStop_safe:
  assumes run: "applyStopTransitions ts actor archive now e = (Inr u, e')"
    and ctx: "sched_inv (db e) \<Longrightarrow> \<forall>t \<in> set ts. stop_context (db e) t"
  shows "sched_safe (db e) (db e')"
proof (cases "ts = [] \<or> \<not> sched_inv (db e)")
  case True
  with run show ?thesis by (auto simp: applyStopTransitions_def op_iff table_evolves_refl sched_safe_def)
next
  case False
  then have inv: "sched_inv (db e)" by simp
  let ?Q = "\<lambda>s. (s_id s, s_revision s) \<in> set (map (\<lambda>t. (s_id (st_schedule t), s_revision (st_schedule t))) ts)"
  from run False obtain e1 n where
      dis: "discard_occurrences (filter (\<lambda>i. i \<noteq> 0) (map st_occurrenceID ts)) actor now e = (Inr (), e1)"
    and u: "update_schedules ?Q (stop_row archive now actor) e1 = (Inr n, e')"
    unfolding applyStopTransitions_def by (simp add: bind_op_Inr_iff requireCount_Inr del: set_map set_filter) blast
  note d1 = discard_Inr [OF dis]
  have idle1: "idle (db e1) (s_id (st_schedule t))" if t: "t \<in> set ts" for t
    unfolding conjunct1 [OF d1]
  proof (rule closed_idle [OF inv])
    fix r assume r: "r \<in> set (occurrences (db e))" "active_schedule r = Some (s_id (st_schedule t))"
    from ctx [OF inv] t have c: "stop_context (db e) t" by blast
    show "o_id r \<in> set (filter (\<lambda>i. i \<noteq> 0) (map st_occurrenceID ts)) \<and> o_status r = Unresolved"
    proof (cases "st_occurrenceID t = 0")
      case True
      with c r show ?thesis by (auto simp: stop_context_def idle_def)
    next
      case False
      with c obtain q where "q \<in> set (occurrences (db e))" "o_id q = st_occurrenceID t"
        "active_schedule q = Some (s_id (st_schedule t))" by (auto simp: stop_context_def)
      with active_unique [OF inv r(1) _ r(2)] have "o_id r = st_occurrenceID t" by blast
      with False t r(2) show ?thesis by (auto simp: active_schedule_Some)
    qed
  qed (simp add: discard_row_def)
  from u have ok: "list_all schedule_ok (sql_update ?Q (stop_row archive now actor) (schedules (db e1)))"
    and d': "db e' = (db e1)\<lparr>schedules := sql_update ?Q (stop_row archive now actor) (schedules (db e1))\<rparr>"
    by (auto simp: update_schedules_Inr)
  have "sched_safe (db e1) (db e')"
    unfolding d'
  proof (rule safe_schedules [OF ok])
    fix s :: schedule_row assume "?Q s"
    then obtain t where "t \<in> set ts" "s_id s = s_id (st_schedule t)" by auto
    with idle1 have "idle (db e1) (s_id s)" by simp
    then show "schedule_step s (stop_row archive now actor s) \<and>
        (idle (db e1) (s_id s) \<or> same_fence s (stop_row archive now actor s))"
      by (simp add: schedule_step_def stop_row_def)
  qed
  with d1 show ?thesis using sched_rel.R_trans by blast
qed

lemma commits_stop_work: "sched_rel.commits (stop_work i expectedRevision actor archive requester)"
proof (rule sched_rel.commitsI)
  fix e a e'
  assume "stop_work i expectedRevision actor archive requester e = (Inr a, e')"
  then obtain row now e1 found e2 e3 where
      row: "s_id row = i" and d1: "db e1 = db e"
    and fd: "lockActiveOccurrence i e1 = (Inr found, e2)"
    and st: "applyStopTransitions [\<lparr>st_schedule = row, st_occurrenceID = (case found of None \<Rightarrow> 0 | Some r \<Rightarrow> o_id r)\<rparr>]
         actor archive now e2 = (Inr (), e3)"
    and au: "appendScheduleAudit requester ''schedule.state_changed'' i
       (status_change (scheduleStateName row) (if archive then ''archived'' else ''disabled'')) now e3 = (Inr a, e')"
    by (auto simp: stop_work_def op_iff split: if_splits dest!: lockSchedule_Inr)
  note act = lockActiveOccurrence_Inr [OF fd, unfolded d1]
  have "sched_safe (db e2) (db e3)"
  proof (rule applyStop_safe [OF st])
    assume "sched_inv (db e2)"
    then have "sched_inv (db e)" using act(1) by simp
    with act row occurrence_key_rows [of "db e"] show "\<forall>t \<in> set [\<lparr>st_schedule = row, st_occurrenceID = (case found of None \<Rightarrow> 0 | Some r \<Rightarrow> o_id r)\<rparr>]. stop_context (db e2) t"
      by (cases found) (force simp: stop_context_def)+
  qed
  with act(1) have "sched_safe (db e) (db e3)" by simp
  moreover have "sched_safe (db e3) (db e')" by (rule sched_rel.movesD [OF moves_appendScheduleAudit(1) au])
  ultimately show "sched_safe (db e) (db e')" by (rule sched_rel.R_trans)
qed

lemma moves_stop: "sched_rel.moves (stop i expectedRevision actor archive requester)"
  unfolding stop_def by (intro sched_rel.moves_bind moves_tx_commits commits_stop_work moves_Get)

lemma lockActiveOccurrences_Inr:
  assumes "lockActiveOccurrences ids e = (Inr active, e')"
  shows "db e' = db e"
    "i \<in> set ids \<Longrightarrow> r \<in> set (occurrences (db e)) \<Longrightarrow> active_schedule r = Some i \<Longrightarrow> r \<in> set active"
    "r \<in> set active \<Longrightarrow> r \<in> set (occurrences (db e)) \<and> active_schedule r = Some (o_schedule r)"
  using assms
  by (auto simp: lockActiveOccurrences_def op_iff active_schedule_def split: if_splits option.splits)

lemma active_map:
  "map_of (rev (map (\<lambda>r. (o_schedule r, r)) active)) i = None \<Longrightarrow> r \<in> set active \<Longrightarrow> o_schedule r \<noteq> i"
  "map_of (rev (map (\<lambda>r. (o_schedule r, r)) active)) i = Some r \<Longrightarrow> r \<in> set active \<and> o_schedule r = i"
  by (force simp: map_of_eq_None_iff dest!: map_of_SomeD)+

lemma bulk_stop_context:
  assumes inv: "sched_inv d" and la: "lockActiveOccurrences (map s_id candidates) e = (Inr active, e')" "db e = d"
    and t: "t \<in> set (map (\<lambda>row. \<lparr>st_schedule = row,
      st_occurrenceID = (case map_of (rev (map (\<lambda>r. (o_schedule r, r)) active)) (s_id row) of None \<Rightarrow> 0 | Some r \<Rightarrow> o_id r)\<rparr>) candidates)"
  shows "stop_context d t"
proof -
  from t obtain row where row: "row \<in> set candidates" and t: "t = \<lparr>st_schedule = row,
      st_occurrenceID = (case map_of (rev (map (\<lambda>r. (o_schedule r, r)) active)) (s_id row) of None \<Rightarrow> 0 | Some r \<Rightarrow> o_id r)\<rparr>"
    by auto
  show ?thesis
  proof (cases "map_of (rev (map (\<lambda>r. (o_schedule r, r)) active)) (s_id row)")
    case None
    have "idle d (s_id row)"
      using lockActiveOccurrences_Inr(2) [OF la(1), of "s_id row"] active_map(1) [OF None] row la(2)
      by (auto simp: idle_def active_schedule_Some)
    with None show ?thesis by (simp add: stop_context_def t)
  next
    case (Some r)
    with active_map(2) [OF Some] lockActiveOccurrences_Inr(3) [OF la(1), of r] la(2)
    have "r \<in> set (occurrences d)" "active_schedule r = Some (s_id row)" by auto
    with Some occurrence_key_rows [OF inv, of r] show ?thesis by (auto simp: stop_context_def t)
  qed
qed

lemma commits_bulk_work: "sched_rel.commits (bulk_work service ids action actor requester)"
proof (rule sched_rel.commitsI)
  fix e a e'
  assume run: "bulk_work service ids action actor requester e = (Inr a, e')"
  let ?active = "\<lambda>active. map_of (rev (map (\<lambda>r. (o_schedule r, r)) active))"
  from run obtain now e1 rows e2 candidates active e3 e4 where
      e1: "db_now e = (Inr now, e1)" and e2: "lockSchedules ids e1 = (Inr rows, e2)"
    and la: "lockActiveOccurrences (map s_id candidates) e2 = (Inr active, e3)"
    and k: "(if action = BulkEnable
          then bind_op (lift_op (prepare_enables service (?active active) now candidates)) (\<lambda>transitions.
               applyEnableTransitions transitions actor)
          else applyStopTransitions (map (\<lambda>row. \<lparr>st_schedule = row,
                  st_occurrenceID = (case ?active active (s_id row) of None \<Rightarrow> 0 | Some r \<Rightarrow> o_id r)\<rparr>) candidates)
                 actor (action = BulkArchive) now) e3 = (Inr (), e4)"
    and au: "appendScheduleBulkAudit requester action a now e4 = (Inr (), e')"
    unfolding bulk_work_def by (fastforce simp: bind_op_Inr_iff fail_op_iff ret_op_iff lift_op_Inr_iff Let_def split: if_splits)
  have d2: "db e2 = db e" using e1 e2 by (auto simp: lockSchedules_def op_iff)
  note d3 = lockActiveOccurrences_Inr(1) [OF la, unfolded d2]
  have "sched_safe (db e3) (db e4)"
  proof (cases "action = BulkEnable")
    case True
    with k obtain transitions where "applyEnableTransitions transitions actor e3 = (Inr (), e4)" by (auto simp: op_iff)
    then show ?thesis by (rule sched_rel.movesD [OF moves_applyEnable])
  next
    case False
    with k have st: "applyStopTransitions (map (\<lambda>row. \<lparr>st_schedule = row,
        st_occurrenceID = (case ?active active (s_id row) of None \<Rightarrow> 0 | Some r \<Rightarrow> o_id r)\<rparr>) candidates)
        actor (action = BulkArchive) now e3 = (Inr (), e4)" by simp
    show ?thesis
      by (rule applyStop_safe [OF st]) (use bulk_stop_context [OF _ la d2] d3 in auto)
  qed
  moreover have "sched_safe (db e4) (db e')" by (rule sched_rel.movesD [OF moves_appendScheduleAudit(2) au])
  ultimately show "sched_safe (db e) (db e')" using d3 sched_rel.R_trans by metis
qed

lemma moves_BulkState: "sched_rel.moves (BulkState service submitted action actor requester)"
  unfolding BulkState_def by (intro sched_rel.moves_intros moves_tx_commits commits_bulk_work)

end
