(* ===== verification/Scheduler_Delivery.thy ===== *)
theory Scheduler_Delivery
  imports Scheduler_Safety Run_Outcomes
begin

text \<open>
  Delivery: safety of \<open>processTransaction\<close> and what it does. The locale \<open>scheduling\<close> states what the
  scheduler relies on in the function that submits runs (\<open>SubmitInTxFunc\<close>): it leaves the scheduler's
  tables alone, appends one queued run with a fresh identifier or none at all. The run store's
  \<open>SubmitInTx\<close> provides it.
\<close>

section \<open>Rejection\<close>

lemma update_schedule_safe:
  assumes "update_schedules P f e = (Inr n, e')"
    and "\<And>s. sched_inv (db e) \<Longrightarrow> s \<in> set (schedules (db e)) \<Longrightarrow> P s \<Longrightarrow> schedule_step s (f s) \<and>
      (idle (db e) (s_id s) \<or> same_fence s (f s))"
  shows "sched_safe (db e) (db e')"
  using assms safe_schedules [of P f "db e"] by (simp add: update_schedules_Inr)

lemma update_occurrence_safe:
  assumes "update_occurrences P f e = (Inr n, e')"
    and "\<And>r. sched_inv (db e) \<Longrightarrow> r \<in> set (occurrences (db e)) \<Longrightarrow> P r \<Longrightarrow>
      occurrence_step r (f r) \<and> o_attempts (f r) = o_attempts r"
  shows "sched_safe (db e) (db e')"
  using assms safe_occurrences [of P f "db e"] by (simp add: update_occurrences_Inr)

lemma disableInvalid_safe:
  assumes "disableInvalid schedule now message e = (Inr u, e')" "sched_inv (db e) \<Longrightarrow> idle (db e) (s_id schedule)"
  shows "sched_safe (db e) (db e')"
proof -
  from assms(1) obtain n where "update_schedules
       (\<lambda>s. s_id s = s_id schedule \<and> s_revision s = s_revision schedule \<and> s_enabled s)
       (\<lambda>s. s\<lparr>s_enabled := False, s_next := None, s_not_before := None, s_block_reason := None,
          s_blocked_at := None, s_error_class := Some ''invalid_definition'', s_error_message := Some message,
          s_error_at := Some now, s_revision := s_revision s + 1\<rparr>) e = (Inr n, e')"
    by (auto simp: disableInvalid_def op_iff)
  then show ?thesis
    by (rule update_schedule_safe) (use assms(2) in \<open>auto simp: schedule_step_def\<close>)
qed

text \<open>Closing the active occurrence of a schedule leaves the schedule without one.\<close>

lemma close_active:
  assumes "update_occurrences P f e = (Inr n, e')" and "occurrence \<in> set (occurrences (db e))"
    "active_schedule occurrence = Some i" "\<And>r. P r \<longleftrightarrow> o_id r = o_id occurrence \<and> o_status r = Unresolved \<and> Q r" "Q occurrence"
    "\<And>r. o_status (f r) \<noteq> Unresolved \<and> occurrence_step (r\<lparr>o_status := Unresolved\<rparr>) (f r) \<and> o_attempts (f r) = o_attempts r"
  shows "sched_safe (db e) (db e') \<and> (sched_inv (db e) \<longrightarrow> idle (db e') i) \<and> schedules (db e') = schedules (db e)"
proof (intro conjI impI)
  have step: "occurrence_step r (f r)" if "o_status r = Unresolved" for r
  proof -
    have "r\<lparr>o_status := Unresolved\<rparr> = r" using that by simp
    with assms(6) [of r] show ?thesis by simp
  qed
  show "sched_safe (db e) (db e')"
    by (rule update_occurrence_safe [OF assms(1)]) (use assms(4,6) step in auto)
  show "schedules (db e') = schedules (db e)" using assms(1) by (simp add: update_occurrences_Inr)
  assume inv: "sched_inv (db e)"
  have "idle ((db e)\<lparr>occurrences := sql_update P f (occurrences (db e))\<rparr>) i"
  proof (rule closed_idle [OF inv])
    fix r assume "r \<in> set (occurrences (db e))" "active_schedule r = Some i"
    with active_unique [OF inv _ assms(2) _ assms(3)] have "r = occurrence" by blast
    with assms(3-5) show "P r" by (simp add: active_schedule_Some)
  qed (use assms(6) in blast)
  with assms(1) show "idle (db e') i" by (simp add: update_occurrences_Inr)
qed

lemma rejectLocked_safe:
  assumes run: "rejectLockedOccurrence service schedule occurrence now cause e = (Inr u, e')"
    and "occurrence \<in> set (occurrences (db e))" "active_schedule occurrence = Some (s_id schedule)"
  shows "sched_safe (db e) (db e')"
proof -
  let ?m = "safeMessage (sv_text service) cause"
  from run obtain n e1 where u: "update_occurrences (\<lambda>r. o_id r = o_id occurrence \<and> o_status r = Unresolved)
      (reject_row ?m (s_revision schedule) now) e = (Inr n, e1)"
    and d: "disableInvalid schedule now ?m e1 = (Inr u, e')"
    by (auto simp: rejectLockedOccurrence_def op_iff Let_def)
  have c: "sched_safe (db e) (db e1) \<and> (sched_inv (db e) \<longrightarrow> idle (db e1) (s_id schedule)) \<and> schedules (db e1) = schedules (db e)"
    by (rule close_active [OF u assms(2,3), of "\<lambda>_. True"])
      (auto simp: reject_row_def occurrence_step_def same_occurrence_def)
  show ?thesis
  proof (cases "sched_inv (db e)")
    case True
    with c disableInvalid_safe [OF d] show ?thesis using sched_rel.R_trans by blast
  next
    case False
    then show ?thesis by (simp add: sched_safe_def)
  qed
qed

lemma insert_occurrence_safe:
  assumes run: "insert_occurrence row e = (Inr i, e')"
    and row: "\<And>i. o_id (row i) = i" "\<And>i. o_attempts (row i) = 0"
    and fence: "sched_inv (db e) \<Longrightarrow> o_status (row i) = Unresolved \<Longrightarrow>
      \<exists>s \<in> set (schedules (db e)). s_id s = o_schedule (row i) \<and> currentFence s (row i)"
  shows "db e' = (db e)\<lparr>occurrences := occurrences (db e) @ [row i]\<rparr> \<and> sched_safe (db e) (db e')"
proof -
  from run have i: "i = next_id o_id (occurrences (db e))"
    and ok: "occurrence_keys_ok (occurrences (db e) @ [row i])"
    and d': "db e' = (db e)\<lparr>occurrences := occurrences (db e) @ [row i]\<rparr>"
    by (auto simp: insert_occurrence_def op_iff Let_def write_occurrences_def split: sum.splits if_splits)
  have fresh: "i \<notin> o_id ` set (occurrences (db e))"
    using next_id_fresh [of _ "occurrences (db e)" o_id] by (fastforce simp: i)
  have "sched_safe (db e) (db e')"
    unfolding sched_safe_def
  proof (intro impI conjI)
    assume inv: "sched_inv (db e)"
    have "filter (\<lambda>a. a_occurrence a = i) (attempts (db e)) = []"
      using inv fresh by (auto simp: sched_inv_def attempt_inv_def filter_empty_conv)
    then have "attempt_inv (db e')"
      using inv row by (auto simp: d' sched_inv_def attempt_inv_def history_of_def)
    moreover have "fence_inv (db e')"
      using inv fence by (auto simp: d' sched_inv_def fence_inv_def)
    ultimately show "sched_inv (db e')"
      using inv ok fresh row by (auto simp: d' sched_inv_def i)
  qed (simp_all add: d' table_evolves_refl table_evolves_append)
  with d' show ?thesis by blast
qed

lemma rejectInvalid_safe:
  assumes run: "rejectInvalid service schedule cursor now cause e = (Inr u, e')"
  shows "sched_safe (db e) (db e')"
proof -
  from run obtain found e1 where fd: "lockActiveOccurrence (s_id schedule) e = (Inr found, e1)" and
    k: "(case found of
       Some occurrence \<Rightarrow> rejectLockedOccurrence service schedule occurrence now cause
     | None \<Rightarrow>
         let message = safeMessage (sv_text service) cause
         in bind_op (insert_occurrence (\<lambda>i. reject_row message (s_revision schedule) now
                (new_occurrence schedule cursor PersistedCursorFallback InvalidMode i))) (\<lambda>_.
            disableInvalid schedule now message)) e1 = (Inr u, e')"
    unfolding rejectInvalid_def bind_op_Inr_iff [of "lockActiveOccurrence _"] by blast
  note act = lockActiveOccurrence_Inr [OF fd]
  show ?thesis
  proof (cases found)
    case (Some occurrence)
    with k have "rejectLockedOccurrence service schedule occurrence now cause e1 = (Inr u, e')" by simp
    from rejectLocked_safe [OF this] act(1) act(3) [OF Some] show ?thesis by simp
  next
    case None
    let ?m = "safeMessage (sv_text service) cause"
    let ?row = "\<lambda>i. reject_row ?m (s_revision schedule) now (new_occurrence schedule cursor PersistedCursorFallback InvalidMode i)"
    from None k obtain i e2 where ins: "insert_occurrence ?row e1 = (Inr i, e2)" and dis: "disableInvalid schedule now ?m e2 = (Inr u, e')"
      by (auto simp: op_iff Let_def)
    have s2: "db e2 = (db e1)\<lparr>occurrences := occurrences (db e1) @ [?row i]\<rparr> \<and> sched_safe (db e1) (db e2)"
      by (rule insert_occurrence_safe [OF ins]) (simp_all add: reject_row_def new_occurrence_def)
    then have "idle (db e2) (s_id schedule)"
      using act(1) act(2) [OF None] by (auto simp: idle_def active_schedule_Some reject_row_def)
    with disableInvalid_safe [OF dis] s2 act(1) show ?thesis using sched_rel.R_trans by metis
  qed
qed

section \<open>Resolution and backoff\<close>

lemma resolve_safe:
  assumes run: "resolveSuccess service schedule occurrence attempt run parsed now e = (Inr u, e')"
    and "occurrence \<in> set (occurrences (db e))" "active_schedule occurrence = Some (s_id schedule)"
  shows "sched_safe (db e) (db e')"
proof -
  from run obtain nxt n e1 m where at: "o_attempts occurrence = a_no attempt" and
      u: "update_occurrences (\<lambda>r. o_id r = o_id occurrence \<and> o_status r = Unresolved \<and> o_attempts r = a_no attempt)
                 (\<lambda>r. r\<lparr>o_status := Resolved, o_retry := None, o_closed := Some now\<rparr>) e = (Inr n, e1)"
    and s: "update_schedules (fenced_schedule schedule occurrence)
         (\<lambda>s. s\<lparr>s_next := Some nxt, s_not_before := None, s_block_reason := None, s_blocked_at := None\<rparr>) e1 = (Inr m, e')"
    by (auto simp: resolveSuccess_def op_iff split: option.splits if_splits)
  have c: "sched_safe (db e) (db e1) \<and> (sched_inv (db e) \<longrightarrow> idle (db e1) (s_id schedule)) \<and> schedules (db e1) = schedules (db e)"
    by (rule close_active [OF u assms(2,3), of "\<lambda>r. o_attempts r = a_no attempt"])
      (auto simp: occurrence_step_def same_occurrence_def at)
  show ?thesis
  proof (cases "sched_inv (db e)")
    case True
    have "sched_safe (db e1) (db e')"
      by (rule update_schedule_safe [OF s]) (use c True in \<open>auto simp: fenced_schedule_def schedule_step_def\<close>)
    with c show ?thesis using sched_rel.R_trans by blast
  next
    case False
    then show ?thesis by (simp add: sched_safe_def)
  qed
qed

lemma backoff_safe:
  assumes run: "recordBackoff schedule occurrence attempt run finished e = (Inr u, e')"
  shows "sched_safe (db e) (db e')"
proof -
  let ?deadline = "finished + retryDelay (a_no attempt)"
  from run obtain n e1 m where
      u: "update_occurrences (\<lambda>r. o_id r = o_id occurrence \<and> o_status r = Unresolved \<and> o_attempts r = a_no attempt \<and> o_retry r = None)
             (\<lambda>r. r\<lparr>o_retry := Some ?deadline\<rparr>) e = (Inr n, e1)"
    and s: "update_schedules (fenced_schedule schedule occurrence) (\<lambda>s. s\<lparr>s_not_before := Some ?deadline\<rparr>) e1 = (Inr m, e')"
    by (auto simp: recordBackoff_def op_iff Let_def split: if_splits)
  have "sched_safe (db e) (db e1)"
    by (rule update_occurrence_safe [OF u]) (auto simp: occurrence_step_def same_occurrence_def)
  moreover have "sched_safe (db e1) (db e')"
    by (rule update_schedule_safe [OF s]) (auto simp: schedule_step_def same_fence_def)
  ultimately show ?thesis by (rule sched_rel.R_trans)
qed

section \<open>Attempts\<close>

lemma unat_next: "x + 1 \<noteq> 0 \<Longrightarrow> unat (x + 1 :: 'b :: len word) = Suc (unat x)"
  using unatSuc [of x] by (simp add: add.commute)

text \<open>A submission adds the attempt and counts it in the occurrence; the two statements keep the
  numbering together.\<close>

lemma attempt_step_safe:
  assumes inv: "sched_inv d" and occ: "occurrence \<in> set (occurrences d)" "o_status occurrence = Unresolved"
    and a: "a_occurrence a = o_id occurrence" "a_no a = o_attempts occurrence + 1" "a_no a > 0"
    and rows: "rows = sql_update (\<lambda>r. o_id r = o_id occurrence \<and> o_status r = Unresolved \<and> o_attempts r = o_attempts occurrence)
      (\<lambda>r. r\<lparr>o_attempts := a_no a, o_retry := None\<rparr>) (occurrences d)" and ok: "occurrence_keys_ok rows"
  shows "sched_safe d (d\<lparr>attempts := attempts d @ [a], occurrences := rows\<rparr>)"
proof -
  let ?P = "\<lambda>r. o_id r = o_id occurrence \<and> o_status r = Unresolved \<and> o_attempts r = o_attempts occurrence"
  let ?f = "\<lambda>r. r\<lparr>o_attempts := a_no a, o_retry := None\<rparr>"
  let ?d = "d\<lparr>attempts := attempts d @ [a], occurrences := rows\<rparr>"
  have no: "unat (a_no a) = Suc (unat (o_attempts occurrence))" using a(2,3) unat_next [of "o_attempts occurrence"] by auto
  have sel: "?P r \<longleftrightarrow> r = occurrence" if "r \<in> set (occurrences d)" for r
    using same_id_occurrence [OF inv that occ(1)] occ(2) by auto
  have ids: "map o_id rows = map o_id (occurrences d)" unfolding rows by (rule map_sql_update) simp
  have step: "occurrence_step r (if ?P r then ?f r else r)" if "r \<in> set (occurrences d)" for r
    using sel [OF that] no by (auto simp: occurrence_step_def same_occurrence_def occ(2) word_le_nat_alt)
  have hist: "history_of r' (attempts d @ [a]) = [1..<Suc (unat (o_attempts r'))]" if "r' \<in> set rows" for r'
  proof -
    from that obtain r where r: "r \<in> set (occurrences d)" "r' = (if ?P r then ?f r else r)" unfolding rows by (rule in_sql_update)
    have h: "history_of r (attempts d) = [1..<Suc (unat (o_attempts r))]" using inv r(1) by (simp add: sched_inv_def attempt_inv_def)
    show ?thesis
    proof (cases "r = occurrence")
      case True
      with r sel occ have "r' = ?f occurrence" by auto
      with True h a(1) no show ?thesis by (simp add: history_of_def)
    next
      case False
      with r sel have "r' = r" by auto
      moreover have "o_id r \<noteq> o_id occurrence" using same_id_occurrence [OF inv r(1) occ(1)] False by blast
      ultimately show ?thesis using h a(1) by (simp add: history_of_def)
    qed
  qed
  have fence: "\<exists>s \<in> set (schedules d). s_id s = o_schedule r' \<and> currentFence s r'"
    if "r' \<in> set rows" "o_status r' = Unresolved" for r'
  proof -
    from that(1) obtain r where r: "r \<in> set (occurrences d)" "r' = (if ?P r then ?f r else r)" unfolding rows by (rule in_sql_update)
    with that(2) have "o_status r = Unresolved" by (auto split: if_splits)
    with r(1) inv obtain s where "s \<in> set (schedules d)" "s_id s = o_schedule r" "currentFence s r"
      by (auto simp: sched_inv_def fence_inv_def)
    then show ?thesis using r(2) by (auto simp: currentFence_def)
  qed
  have ev: "table_evolves occurrence_step (occurrences d) rows"
    unfolding rows by (rule table_evolves_update) (rule step)
  have sets: "o_id ` set rows = o_id ` set (occurrences d)" using arg_cong [OF ids, of set] by simp
  have "attempt_inv ?d" using hist inv a(1) occ(1) by (auto simp: attempt_inv_def sched_inv_def sets)
  moreover have "fence_inv ?d" using fence by (auto simp: fence_inv_def)
  ultimately have "sched_inv ?d" using inv ok ids sets by (simp add: sched_inv_def)
  with ev show ?thesis by (simp add: sched_safe_def table_evolves_refl)
qed

section \<open>What the scheduler relies on\<close>

locale scheduling =
  fixes service :: "('a sched_db_scheme) Service"
  assumes submit_frame: "sv_submit service jobKey parameters trigger reference requester e = (q, e') \<Longrightarrow>
      schedules (db e') = schedules (db e) \<and> occurrences (db e') = occurrences (db e) \<and> attempts (db e') = attempts (db e)"
    and submit_failed: "sv_submit service jobKey parameters trigger reference requester e = (Inl x, e') \<Longrightarrow>
      runs (db e') = runs (db e)"
    and submit_new: "sv_submit service jobKey parameters trigger reference requester e = (Inr i, e') \<Longrightarrow>
      \<exists>row. runs (db e') = runs (db e) @ [row] \<and> r_id row = i \<and> i \<notin> r_id ` set (runs (db e)) \<and>
        r_kind row = KindJob \<and> r_job row = nullable jobKey \<and> r_status row = StatusQueued \<and> r_params row = parameters \<and>
        r_trigger row = trigger \<and> r_reference row = nullable reference"
begin

lemma deliver_cases:
  assumes "deliver service schedule j occurrence now e = (Inr result, e')"
  obtains (blocked) x e1 n where "result = (True, None)" "schedules (db e1) = schedules (db e)"
      "occurrences (db e1) = occurrences (db e)" "attempts (db e1) = attempts (db e)" "runs (db e1) = runs (db e)"
      "update_schedules (cursor_schedule schedule occurrence)
         (\<lambda>s. s\<lparr>s_block_reason := Some (block_reason x), s_blocked_at := Some now,
            s_not_before := Some (now + deliveryDelay)\<rparr>) e1 = (Inr n, e')"
  | (submitted) runID parameters e1 e2 e3 n m where
      "parametersForOccurrence (sv_sha service) j (o_for occurrence) = Inr parameters"
      "sv_submit service (s_job schedule) parameters TriggerScheduler
         (attempt_reference (s_id schedule) (o_for occurrence) (o_attempts occurrence + 1)) (s_created_by schedule) e = (Inr runID, e1)"
      "insert_attempt (o_id occurrence) (o_attempts occurrence + 1) runID
         (attempt_reference (s_id schedule) (o_for occurrence) (o_attempts occurrence + 1)) now e1 = (Inr (), e2)"
      "update_occurrences
           (\<lambda>r. o_id r = o_id occurrence \<and> o_status r = Unresolved \<and> o_attempts r = o_attempts occurrence)
           (\<lambda>r. r\<lparr>o_attempts := o_attempts occurrence + 1, o_retry := None\<rparr>) e2 = (Inr n, e3)"
      "update_schedules (cursor_schedule schedule occurrence)
           (\<lambda>s. s\<lparr>s_block_reason := None, s_blocked_at := None, s_not_before := Some (now + deliveryDelay)\<rparr>) e3 = (Inr m, e')"
      "result = (True, Some \<lparr>dl_scheduleID = s_id schedule, dl_occurrenceID = o_id occurrence, dl_runID = runID,
           dl_jobKey = s_job schedule, dl_attempt = o_attempts occurrence + 1, dl_scheduledFor = o_for occurrence,
           dl_submittedAt = now\<rparr>)"
proof -
  let ?ref = "attempt_reference (s_id schedule) (o_for occurrence) (o_attempts occurrence + 1)"
  from assms obtain parameters where p: "parametersForOccurrence (sv_sha service) j (o_for occurrence) = Inr parameters"
    by (auto simp: deliver_def op_iff)
  obtain q e1 where s: "sv_submit service (s_job schedule) parameters TriggerScheduler ?ref (s_created_by schedule) e = (q, e1)"
    by fastforce
  show thesis
  proof (cases q)
    case (Inl x)
    with assms p s obtain n where "result = (True, None)" "update_schedules (cursor_schedule schedule occurrence)
         (\<lambda>s. s\<lparr>s_block_reason := Some (block_reason x), s_blocked_at := Some now,
            s_not_before := Some (now + deliveryDelay)\<rparr>) e1 = (Inr n, e')"
      by (auto simp: deliver_def op_iff Let_def lift_op_def ret_op_def bind_op_def try_op_def fail_op_def
        split: if_splits prod.splits sum.splits)
    moreover have "sv_submit service (s_job schedule) parameters TriggerScheduler ?ref (s_created_by schedule) e = (Inl x, e1)"
      using s Inl by simp
    ultimately show thesis using blocked submit_frame [OF s] submit_failed by blast
  next
    case (Inr runID)
    with assms p s show thesis
      using submitted [OF p]
      by (auto simp: deliver_def op_iff Let_def bind_op_Inr_iff)
  qed
qed

lemma deliver_safe:
  assumes run: "deliver service schedule j occurrence now e = (Inr result, e')"
    and occ: "occurrence \<in> set (occurrences (db e))" "o_status occurrence = Unresolved"
  shows "sched_safe (db e) (db e')"
  using run
proof (cases rule: deliver_cases)
  case (blocked x e1 n)
  have "sched_safe (db e) (db e1)" by (rule sched_safe_frame) (use blocked in simp_all)
  moreover have "sched_safe (db e1) (db e')"
    by (rule update_schedule_safe [OF blocked(6)]) (auto simp: schedule_step_def same_fence_def)
  ultimately show ?thesis by (rule sched_rel.R_trans)
next
  case (submitted runID parameters e1 e2 e3 n m)
  let ?a = "\<lparr>a_id = next_id a_id (attempts (db e1)), a_occurrence = o_id occurrence, a_no = o_attempts occurrence + 1,
    a_run = runID, a_reference = attempt_reference (s_id schedule) (o_for occurrence) (o_attempts occurrence + 1), a_submitted = now\<rparr>"
  note frame = submit_frame [OF submitted(2)]
  from submitted(3) have a: "a_no ?a > 0" and d2: "db e2 = (db e1)\<lparr>attempts := attempts (db e1) @ [?a]\<rparr>"
    by (auto simp: insert_attempt_def op_iff write_attempts_def split: sum.splits if_splits)
  from submitted(4) have ok: "occurrence_keys_ok (sql_update
        (\<lambda>r. o_id r = o_id occurrence \<and> o_status r = Unresolved \<and> o_attempts r = o_attempts occurrence)
        (\<lambda>r. r\<lparr>o_attempts := a_no ?a, o_retry := None\<rparr>) (occurrences (db e1)))"
    and d3: "db e3 = (db e1)\<lparr>attempts := attempts (db e1) @ [?a], occurrences := sql_update
        (\<lambda>r. o_id r = o_id occurrence \<and> o_status r = Unresolved \<and> o_attempts r = o_attempts occurrence)
        (\<lambda>r. r\<lparr>o_attempts := a_no ?a, o_retry := None\<rparr>) (occurrences (db e1))\<rparr>"
    by (auto simp: update_occurrences_Inr d2)
  have s1: "sched_safe (db e) (db e1)" by (rule sched_safe_frame) (use frame in simp_all)
  have "sched_safe (db e1) (db e3)"
  proof (cases "sched_inv (db e1)")
    case True
    show ?thesis unfolding d3 by (rule attempt_step_safe [OF True _ occ(2) _ _ a refl ok]) (use frame occ(1) in auto)
  next
    case False
    then show ?thesis by (simp add: sched_safe_def)
  qed
  moreover have "sched_safe (db e3) (db e')"
    by (rule update_schedule_safe [OF submitted(5)]) (auto simp: schedule_step_def same_fence_def)
  ultimately show ?thesis using s1 sched_rel.R_trans by blast
qed

end

lemma lockLatestAttempt_Inr:
  assumes "lockLatestAttempt i e = (Inr latest, e')"
  shows "db e' = db e"
    and "latest = None \<Longrightarrow> a \<in> set (attempts (db e)) \<Longrightarrow> a_occurrence a \<noteq> i"
    and "latest = Some a \<Longrightarrow> a \<in> set (attempts (db e)) \<and> a_occurrence a = i"
proof -
  obtain q e1 where q: "select_attempt i e = (q, e1)" by fastforce
  have d1: "db e1 = db e" using q unfolding select_attempt_def by (rule query_db)
  have e': "e' = e1 \<and> (case q of Inl x \<Rightarrow> x = ErrNoRows \<and> latest = None | Inr row \<Rightarrow> latest = Some row)"
    using assms q by (auto simp: lockLatestAttempt_def op_iff case_sum_op split: if_splits)
  show "db e' = db e" using e' d1 by simp
  show "a_occurrence a \<noteq> i" if "latest = None" "a \<in> set (attempts (db e))"
  proof -
    have "q = Inl ErrNoRows" using e' that by (cases q) auto
    with q that(2) show ?thesis
      by (auto simp: select_attempt_def filter_empty_conv dest!: query_NoRows split: option.splits)
  qed
  show "a \<in> set (attempts (db e)) \<and> a_occurrence a = i" if "latest = Some a"
  proof -
    have "q = Inr a" using e' that by (cases q) auto
    with q show ?thesis by (auto simp: select_attempt_def op_iff split: option.splits dest!: sql_first_by_in)
  qed
qed

lemma lockAttemptRun_Inr:
  "lockAttemptRun i e = (Inr run, e') \<Longrightarrow> db e' = db e \<and> run \<in> set (runs (db e)) \<and> r_id run = i"
  unfolding lockAttemptRun_def by (rule get_run_row_Inr)

text \<open>The ways through \<open>settle\<close>.\<close>

lemma settle_cases:
  assumes "settle service schedule j parsed occurrence now e = (Inr result, e')"
  obtains (rejected) cause e1 where "db e1 = db e" "result = (True, None)"
      "rejectLockedOccurrence service schedule occurrence now cause e1 = (Inr (), e')"
  | (resolved) attempt run e1 where "db e1 = db e" "result = (True, None)" "attempt \<in> set (attempts (db e))"
      "a_occurrence attempt = o_id occurrence" "a_no attempt = o_attempts occurrence"
      "run \<in> set (runs (db e))" "r_id run = a_run attempt" "r_status run = StatusSucceeded"
      "resolveSuccess service schedule occurrence attempt run parsed now e1 = (Inr (), e')"
  | (waiting) "db e' = db e" "result = (False, None)"
  | (backoff) attempt run finished e1 where "db e1 = db e" "result = (True, None)"
      "recordBackoff schedule occurrence attempt run finished e1 = (Inr (), e')"
  | (retried) attempt run finished retry e1 where "db e1 = db e" "attempt \<in> set (attempts (db e))"
      "a_occurrence attempt = o_id occurrence" "a_no attempt = o_attempts occurrence"
      "run \<in> set (runs (db e))" "r_id run = a_run attempt"
      "r_status run \<in> {StatusFailed, StatusCancelled, StatusAbandoned}" "r_finished run = Some finished"
      "o_retry occurrence = Some retry" "retry \<le> now"
      "deliver service schedule j occurrence now e1 = (Inr result, e')"
  | (first) e1 where "db e1 = db e" "o_attempts occurrence = 0"
      "\<And>a. a \<in> set (attempts (db e)) \<Longrightarrow> a_occurrence a \<noteq> o_id occurrence"
      "deliver service schedule j occurrence now e1 = (Inr result, e')"
proof -
  from assms obtain latest e1 where la: "lockLatestAttempt (o_id occurrence) e = (Inr latest, e1)"
    unfolding settle_def bind_op_Inr_iff [of "lockLatestAttempt _"] by blast
  note lat = lockLatestAttempt_Inr [OF la]
  show thesis
  proof (cases latest)
    case None
    then show thesis
      using assms la lat first rejected
      by (auto simp: settle_def bind_op_def op_iff split: if_splits prod.splits sum.splits)
  next
    case (Some attempt)
    show thesis
    proof (cases "a_no attempt = o_attempts occurrence")
      case False
      with Some assms la lat(1) rejected show thesis
        by (auto simp: settle_def bind_op_def op_iff split: prod.splits sum.splits)
    next
      case True
      with Some assms la obtain run e2 where ru: "lockAttemptRun (a_run attempt) e1 = (Inr run, e2)" and
        k: "(if r_status run = StatusSucceeded then
             bind_op (resolveSuccess service schedule occurrence attempt run parsed now) (\<lambda>_. ret_op (True, None))
           else if r_status run = StatusQueued \<or> r_status run = StatusRunning then ret_op (False, None)
           else if r_status run = StatusFailed \<or> r_status run = StatusCancelled \<or> r_status run = StatusAbandoned then
             (case r_finished run of
                None \<Rightarrow> fail_op (ErrMsg ''terminal scheduled run has no finished_at'')
              | Some finished \<Rightarrow>
                  (case o_retry occurrence of
                     None \<Rightarrow> bind_op (recordBackoff schedule occurrence attempt run finished) (\<lambda>_. ret_op (True, None))
                   | Some retry \<Rightarrow>
                       if retry > now then ret_op (False, None) else deliver service schedule j occurrence now))
           else fail_op (ErrMsg ''scheduled run has invalid status'')) e2 = (Inr result, e')"
        by (auto simp: settle_def bind_op_Inr_iff [of "lockLatestAttempt _"] bind_op_Inr_iff [of "lockAttemptRun _"])
      note r = lockAttemptRun_Inr [OF ru]
      have facts: "attempt \<in> set (attempts (db e))" "a_occurrence attempt = o_id occurrence" "db e2 = db e"
        "run \<in> set (runs (db e))" "r_id run = a_run attempt"
        using lat(1) lat(3) [OF Some] r by auto
      from k consider
          (succ) "r_status run = StatusSucceeded" "result = (True, None)"
            "resolveSuccess service schedule occurrence attempt run parsed now e2 = (Inr (), e')"
        | (wait) "e' = e2" "result = (False, None)"
        | (delay) finished where "result = (True, None)" "recordBackoff schedule occurrence attempt run finished e2 = (Inr (), e')"
        | (retry) finished retry where "r_status run \<in> {StatusFailed, StatusCancelled, StatusAbandoned}"
            "r_finished run = Some finished" "o_retry occurrence = Some retry" "retry \<le> now"
            "deliver service schedule j occurrence now e2 = (Inr result, e')"
        by (auto simp: op_iff split: if_splits option.splits)
      then show thesis
      proof cases
        case succ
        with facts True resolved show thesis by blast
      next
        case wait
        with facts(3) waiting show thesis by simp
      next
        case delay
        with facts(3) backoff show thesis by blast
      next
        case retry
        with facts True retried show thesis by blast
      qed
    qed
  qed
qed

lemma createOccurrence_Inr:
  assumes "createOccurrence schedule cursor mode e = (Inr occurrence, e')"
    and sch: "schedule \<in> set (schedules (db e))" "s_enabled schedule" "s_next schedule = Some cursor"
  shows "db e' = (db e)\<lparr>occurrences := occurrences (db e) @ [occurrence]\<rparr> \<and> sched_safe (db e) (db e') \<and>
    occurrence = new_occurrence schedule cursor ValidatedCron mode (o_id occurrence)"
proof -
  let ?row = "new_occurrence schedule cursor ValidatedCron mode"
  from assms(1) obtain i e1 where ins: "insert_occurrence ?row e = (Inr i, e1)" and g: "get_occurrence i e1 = (Inr occurrence, e')"
    by (auto simp: createOccurrence_def op_iff)
  have s1: "db e1 = (db e)\<lparr>occurrences := occurrences (db e) @ [?row i]\<rparr> \<and> sched_safe (db e) (db e1)"
    by (rule insert_occurrence_safe [OF ins]) (use sch in \<open>auto simp: new_occurrence_def currentFence_def\<close>)
  from ins have "i = next_id o_id (occurrences (db e))"
    by (auto simp: insert_occurrence_def op_iff Let_def write_occurrences_def split: sum.splits if_splits)
  then have "filter (\<lambda>r. o_id r = i) (occurrences (db e)) = []"
    using next_id_fresh [of _ "occurrences (db e)" o_id] by (auto simp: filter_empty_conv dest: less_imp_neq)
  then have "filter (\<lambda>r. o_id r = i) (occurrences (db e1)) = [?row i]" using s1 by (simp add: new_occurrence_def)
  with g have "occurrence = ?row i" "db e' = db e1" by (auto simp: get_occurrence_def op_iff)
  moreover have "o_id (?row i) = i" by (simp add: new_occurrence_def)
  ultimately show ?thesis using s1 by auto
qed

text \<open>\<open>opened d d1 schedule cursor mode found occurrence\<close>: the occurrence \<open>processTransaction\<close> works
  on, found or created.\<close>

definition opened :: "'a sched_db_scheme \<Rightarrow> 'a sched_db_scheme \<Rightarrow> schedule_row \<Rightarrow> time \<Rightarrow> resolution_mode \<Rightarrow>
    occurrence_row option \<Rightarrow> occurrence_row \<Rightarrow> bool" where
  "opened d d1 schedule cursor mode found occurrence \<longleftrightarrow>
     sched_safe d d1 \<and> occurrence \<in> set (occurrences d1) \<and> active_schedule occurrence = Some (s_id schedule) \<and>
     (case found of
        Some r \<Rightarrow> r = occurrence \<and> d1 = d
      | None \<Rightarrow> idle d (s_id schedule) \<and> d1 = d\<lparr>occurrences := occurrences d @ [occurrence]\<rparr> \<and>
          occurrence = new_occurrence schedule cursor ValidatedCron mode (o_id occurrence))"

lemma process_due_cases:
  assumes run: "process_due service schedule cursor definition j parsed now e = (Inr result, e')"
    and sch: "schedule \<in> set (schedules (db e))" "s_enabled schedule" "s_next schedule = Some cursor"
  obtains found occurrence e1 where "opened (db e) (db e1) schedule cursor (expected_mode j) found occurrence"
    "(\<exists>cause. result = (True, None) \<and> rejectLockedOccurrence service schedule occurrence now cause e1 = (Inr (), e')) \<or>
     (o_for occurrence = cursor \<and> occurrence_semanticMatches occurrence definition \<and> o_source occurrence = ValidatedCron \<and>
      o_mode occurrence = expected_mode j \<and> settle service schedule j parsed occurrence now e1 = (Inr result, e'))"
proof -
  from run obtain found e0 occurrence e1 where fd: "lockActiveOccurrence (s_id schedule) e = (Inr found, e0)"
    and op: "(case found of Some occurrence \<Rightarrow> ret_op occurrence
        | None \<Rightarrow> createOccurrence schedule cursor (expected_mode j)) e0 = (Inr occurrence, e1)"
    and k: "(if found \<noteq> None \<and> o_for occurrence \<noteq> cursor then
       bind_op (rejectLockedOccurrence service schedule occurrence now ActiveOccurrenceCursor) (\<lambda>_. ret_op (True, None))
     else if \<not> occurrence_semanticMatches occurrence definition then
       bind_op (rejectLockedOccurrence service schedule occurrence now OccurrenceDiffers) (\<lambda>_. ret_op (True, None))
     else if o_source occurrence \<noteq> ValidatedCron \<or> o_mode occurrence \<noteq> expected_mode j then
       bind_op (rejectLockedOccurrence service schedule occurrence now ResolutionContract) (\<lambda>_. ret_op (True, None))
     else settle service schedule j parsed occurrence now) e1 = (Inr result, e')"
    unfolding process_due_def bind_op_Inr_iff [of "lockActiveOccurrence _"]
      bind_op_Inr_iff [of "case_option _ _ _"] by blast
  note act = lockActiveOccurrence_Inr [OF fd]
  have opn: "opened (db e) (db e1) schedule cursor (expected_mode j) found occurrence"
  proof (cases found)
    case (Some r)
    with op have "occurrence = r" "e1 = e0" by (simp_all add: op_iff)
    with Some act(1) act(3) [OF Some] show ?thesis by (simp add: opened_def sched_rel.R_refl)
  next
    case None
    with op have c: "createOccurrence schedule cursor (expected_mode j) e0 = (Inr occurrence, e1)" by simp
    have "schedule \<in> set (schedules (db e0))" using sch(1) act(1) by simp
    from createOccurrence_Inr [OF c this sch(2,3)]
    have new: "db e1 = (db e0)\<lparr>occurrences := occurrences (db e0) @ [occurrence]\<rparr>" "sched_safe (db e0) (db e1)"
      "occurrence = new_occurrence schedule cursor ValidatedCron (expected_mode j) (o_id occurrence)" by blast+
    have "o_status occurrence = Unresolved" "o_schedule occurrence = s_id schedule"
      by (subst new(3), simp add: new_occurrence_def)+
    with new None act(1) act(2) [OF None] show ?thesis by (simp add: opened_def active_schedule_Some)
  qed
  have for_cursor: "o_for occurrence = cursor" if "\<not> (found \<noteq> None \<and> o_for occurrence \<noteq> cursor)"
  proof (cases found)
    case None
    with opn have "occurrence = new_occurrence schedule cursor ValidatedCron (expected_mode j) (o_id occurrence)"
      by (simp add: opened_def)
    then show ?thesis by (metis new_occurrence_def occurrence_row.select_convs(3))
  qed (use that in simp)
  show thesis
    by (rule that [OF opn])
      (use k for_cursor in \<open>auto simp: bind_op_Inr_iff ret_op_iff split: if_splits\<close>)
qed

context scheduling
begin

lemma settle_safe:
  assumes run: "settle service schedule j parsed occurrence now e = (Inr result, e')"
    and occ: "occurrence \<in> set (occurrences (db e))" "active_schedule occurrence = Some (s_id schedule)"
  shows "sched_safe (db e) (db e')"
  using run
proof (cases rule: settle_cases)
  case (rejected cause e1)
  with rejectLocked_safe [OF rejected(3)] occ show ?thesis by simp
next
  case (resolved attempt run e1)
  with resolve_safe [OF resolved(9)] occ show ?thesis by simp
next
  case waiting
  then show ?thesis by (simp add: sched_rel.R_refl)
next
  case (backoff attempt run finished e1)
  with backoff_safe [OF backoff(3)] show ?thesis by simp
next
  case (retried attempt run finished retry e1)
  with deliver_safe [OF retried(11)] occ show ?thesis by (simp add: active_schedule_Some)
next
  case (first e1)
  with deliver_safe [OF first(4)] occ show ?thesis by (simp add: active_schedule_Some)
qed

lemma process_due_safe:
  assumes "process_due service schedule cursor definition j parsed now e = (Inr result, e')"
    and "schedule \<in> set (schedules (db e))" "s_enabled schedule" "s_next schedule = Some cursor"
  shows "sched_safe (db e) (db e')"
proof (rule process_due_cases [OF assms])
  fix found occurrence e1
  assume opn: "opened (db e) (db e1) schedule cursor (expected_mode j) found occurrence"
    and k: "(\<exists>cause. result = (True, None) \<and> rejectLockedOccurrence service schedule occurrence now cause e1 = (Inr (), e')) \<or>
     (o_for occurrence = cursor \<and> occurrence_semanticMatches occurrence definition \<and> o_source occurrence = ValidatedCron \<and>
      o_mode occurrence = expected_mode j \<and> settle service schedule j parsed occurrence now e1 = (Inr result, e'))"
  have occ: "occurrence \<in> set (occurrences (db e1))" "active_schedule occurrence = Some (s_id schedule)" "sched_safe (db e) (db e1)"
    using opn by (auto simp: opened_def)
  from k have "sched_safe (db e1) (db e')"
    using rejectLocked_safe [OF _ occ(1,2)] settle_safe [OF _ occ(1,2)] by blast
  with occ(3) show ?thesis by (rule sched_rel.R_trans)
qed

end

section \<open>The transaction of a due schedule\<close>

text \<open>The ways through \<open>processTransaction\<close>.\<close>

lemma processTransaction_cases:
  assumes "processTransaction service i e = (Inr result, e')"
  obtains (skipped) "db e' = db e" "result = (False, None)"
  | (invalid) schedule cursor now cause e1 where "db e1 = db e" "schedule \<in> set (schedules (db e))" "s_id schedule = i"
      "result = (True, None)" "rejectInvalid service schedule cursor now cause e1 = (Inr (), e')"
  | (valid) schedule cursor dfn j parsed now e1 where "db e1 = db e" "schedule \<in> set (schedules (db e))"
      "s_id schedule = i" "s_enabled schedule" "s_archived schedule = None" "s_next schedule = Some cursor" "cursor \<le> now"
      "\<forall>t. s_not_before schedule = Some t \<longrightarrow> t \<le> now"
      "validateDefinition (sv_sha service) (sv_cron service) (sv_catalog service) (row_definition schedule) now =
         Inr (dfn, parsed)"
      "Find (sv_catalog service) (s_job schedule) = Some j" "IsOccurrence (sv_cron service) parsed cursor"
      "process_due service schedule cursor dfn j parsed now e1 = (Inr result, e')"
proof -
  from assms obtain now e0 locked e1 where n: "db_now e = (Inr now, e0)" and l: "lockSchedule i e0 = (locked, e1)"
    and k: "(case locked of
       Inl x \<Rightarrow> if x = ErrNoRows then ret_op (False, None) else fail_op x
     | Inr schedule \<Rightarrow>
         (case s_next schedule of
            None \<Rightarrow> ret_op (False, None)
          | Some cursor \<Rightarrow>
              if \<not> s_enabled schedule \<or> s_archived schedule \<noteq> None \<or> cursor > now \<or>
                 (case s_not_before schedule of None \<Rightarrow> False | Some t \<Rightarrow> t > now)
              then ret_op (False, None)
              else (case validateDefinition (sv_sha service) (sv_cron service) (sv_catalog service)
                           (row_definition schedule) now of
                 Inl x \<Rightarrow>
                   (case x of
                      ErrInvalidDefinition cause \<Rightarrow>
                        bind_op (rejectInvalid service schedule cursor now cause) (\<lambda>_. ret_op (True, None))
                    | _ \<Rightarrow> fail_op x)
               | Inr (definition, parsed) \<Rightarrow>
                   (case Find (sv_catalog service) (s_job schedule) of
                      None \<Rightarrow> bind_op (rejectInvalid service schedule cursor now CursorNotOccurrence) (\<lambda>_. ret_op (True, None))
                    | Some j \<Rightarrow>
                        if \<not> IsOccurrence (sv_cron service) parsed cursor
                        then bind_op (rejectInvalid service schedule cursor now CursorNotOccurrence) (\<lambda>_. ret_op (True, None))
                        else process_due service schedule cursor definition j parsed now)))) e1 = (Inr result, e')"
    unfolding processTransaction_def by (auto simp: bind_op_Inr_iff [of db_now] bind_op_Inr_iff [of "try_op _"] try_op_iff)
  have d: "db e1 = db e"
    using n l query_db [of _ e0 locked e1] by (auto simp: lockSchedule_def op_iff)
  show thesis
  proof (cases locked)
    case (Inl x)
    with k d skipped show thesis by (auto simp: op_iff split: if_splits)
  next
    case (Inr schedule)
    with l n have sch: "schedule \<in> set (schedules (db e))" "s_id schedule = i"
      by (auto simp: op_iff dest!: lockSchedule_Inr)
    show thesis
    proof (cases "validateDefinition (sv_sha service) (sv_cron service) (sv_catalog service) (row_definition schedule) now")
      case (Inl x)
      with k Inr d sch show thesis
        by (cases x) (auto simp: op_iff split: option.splits if_splits intro: skipped invalid)
    next
      case (Inr v)
      then obtain dfn parsed where v: "validateDefinition (sv_sha service) (sv_cron service) (sv_catalog service)
          (row_definition schedule) now = Inr (dfn, parsed)" by (cases v) auto
      show thesis
      proof (cases "s_next schedule = None \<or> (\<exists>cursor. s_next schedule = Some cursor \<and>
          (\<not> s_enabled schedule \<or> s_archived schedule \<noteq> None \<or> cursor > now \<or>
           (case s_not_before schedule of None \<Rightarrow> False | Some t \<Rightarrow> t > now)))")
        case True
        with k \<open>locked = Inr schedule\<close> d show thesis by (auto simp: op_iff intro: skipped)
      next
        case False
        then obtain cursor where c: "s_next schedule = Some cursor" "s_enabled schedule" "s_archived schedule = None"
          "cursor \<le> now" "\<forall>t. s_not_before schedule = Some t \<longrightarrow> t \<le> now" by (auto split: option.splits)
        then have "\<not> (case s_not_before schedule of None \<Rightarrow> False | Some t \<Rightarrow> t > now)" by (auto split: option.splits)
        with k \<open>locked = Inr schedule\<close> v c have
          "(case Find (sv_catalog service) (s_job schedule) of
              None \<Rightarrow> bind_op (rejectInvalid service schedule cursor now CursorNotOccurrence) (\<lambda>_. ret_op (True, None))
            | Some j \<Rightarrow>
                if \<not> IsOccurrence (sv_cron service) parsed cursor
                then bind_op (rejectInvalid service schedule cursor now CursorNotOccurrence) (\<lambda>_. ret_op (True, None))
                else process_due service schedule cursor dfn j parsed now) e1 = (Inr result, e')" by simp
        with d sch c v show thesis
          by (auto simp: bind_op_Inr_iff ret_op_iff split: option.splits if_splits intro: invalid valid)
      qed
    qed
  qed
qed

context scheduling
begin

lemma commits_processTransaction: "sched_rel.commits (processTransaction service i)"
proof (rule sched_rel.commitsI)
  fix e a e'
  assume "processTransaction service i e = (Inr a, e')"
  then show "sched_safe (db e) (db e')"
  proof (cases rule: processTransaction_cases)
    case skipped
    then show ?thesis by (simp add: sched_rel.R_refl)
  next
    case (invalid schedule cursor now cause e1)
    with rejectInvalid_safe [OF invalid(5)] show ?thesis by simp
  next
    case (valid schedule cursor dfn j parsed now e1)
    from process_due_safe [OF valid(12)] valid(1-6) show ?thesis by simp
  qed
qed

lemma moves_process: "sched_rel.moves (process service i)"
  unfolding process_def by (rule sched_rel.moves_retry_commits) (rule commits_processTransaction)

lemma moves_Sweep: "sched_rel.moves (Sweep service)"
  unfolding Sweep_def select_due_def
  by (intro sched_rel.moves_intros moves_process)

end

end
