(* ===== verification/Run_Frame.thy ===== *)
theory Run_Frame
  imports Run_Lifecycle
begin

text \<open>
  The frame of the run store. The model's state is an extensible record: a component that keeps more
  tables extends \<open>run_db\<close>. \<open>keeps\<close> is the relation of states that agree on all the extension; every
  operation of the run store is in it, so nothing the run store does can touch the tables of the
  components built on it.
\<close>

definition keeps :: "'a run_db_scheme \<Rightarrow> 'a run_db_scheme \<Rightarrow> bool" where
  "keeps d d' \<longleftrightarrow> run_db.more d' = run_db.more d"

interpretation frame: step_relation "keeps :: 'a run_db_scheme \<Rightarrow> 'a run_db_scheme \<Rightarrow> bool"
  by unfold_locales (simp_all add: keeps_def)

lemma write_runs_keeps: "write_runs rows d = Inr d' \<Longrightarrow> keeps d d'"
  by (auto simp: write_runs_Inr keeps_def)

lemma frame_update: "frame.moves (update_runs P f)"
  unfolding update_runs_def
  by (rule frame.moves_stmt) (auto split: sum.splits intro: write_runs_keeps)

lemma frame_replay_update: "frame.moves (replay_exec (update_runs P f))"
  unfolding update_runs_def
  by (rule frame.moves_retry_stmt) (auto split: sum.splits intro: write_runs_keeps)

lemma frame_insertRun:
  "frame.moves (insertRun kind parent position jobKey status parameters trigger reference requester)"
  unfolding insertRun_def
  by (rule frame.moves_stmt) (auto simp: Let_def split: sum.splits intro: write_runs_keeps)

lemma frame_Append: "frame.moves (Append event :: ('a run_db_scheme, unit) op)"
  unfolding Append_def insert_audit_def
  by (intro frame.moves_intros frame.moves_stmt) (auto simp: keeps_def)

lemma frame_appendRunAudit: "frame.moves (appendRunAudit requester action i metadata)"
  unfolding appendRunAudit_def by (intro frame.moves_intros frame_Append)

lemma frame_settings: "frame.moves (update_settings target)"
  unfolding update_settings_def
  by (rule frame.moves_stmt) (auto simp: keeps_def split: if_splits option.splits)

lemmas frame_statements = frame_update frame_replay_update frame_insertRun frame_Append frame_appendRunAudit frame_settings

lemma frame_submission:
  "frame.moves (UpdateRuntimeSettings expected target requester)"
  "frame.moves (submitInTx sha catalog jobKey parameters trigger reference requester1 requireAuth)"
  "frame.moves (createRunAll sha catalog newOwner from to trigger reference requestedBy audit)"
  unfolding UpdateRuntimeSettings_def runtimeSettings_def submitInTx_def sourceReady_def sourceEnabled_def
    createRunAll_def insert_child_def query_defs
  by (intro frame.moves_intros frame_statements)+

lemma frame_submit:
  "frame.moves (submit sha catalog jobKey parameters trigger reference requestedBy audit requireAuth)"
  unfolding submit_def by (intro frame.moves_intros frame_statements frame_submission)

lemma frame_ownership:
  "frame.moves (Claim allowed ownerID)"
  "frame.moves (Heartbeat runID ownerID)"
  "frame.moves (UpdateProgress allowed runID ownerID progress diagnostics)"
  "frame.moves (FreezeSnapshotDate runID ownerID date)"
  "frame.moves (Finish runID ownerID status safeError)"
  "frame.moves (FinishSucceededInTx runID ownerID)"
  "frame.moves (RecoverAbandoned runID ownerID heartbeat reason requester)"
  "frame.moves (RequestCancellation runID reason requester)"
  unfolding Claim_def claim_work_def getRun_def Heartbeat_def UpdateProgress_def FreezeSnapshotDate_def Finish_def
    FinishSucceededInTx_def finish_def RecoverAbandoned_def RequestCancellation_def query_defs
  by (intro frame.moves_intros frame.moves_retry_tx frame_statements)+

lemma frame_reconcileParent: "frame.moves (reconcileParent exactID exactOwner)"
  unfolding reconcileParent_def reconcileParentTransaction_def advance_parent_def finish_parent_def start_child_def
    sourceEnabled_def query_defs
  by (intro frame.moves_intros frame.moves_retry_tx frame_statements)

lemma frame_recover_once: "frame.moves (recover_once sha allowed catalog lease owner)"
  unfolding recover_once_def ensureRunAllChildren_def getRun_def ensure_child_def insert_child_def query_defs
  by (intro frame.moves_intros frame_statements)

lemma frame_exported:
  "frame.moves (Submit sha catalog jobKey parameters trigger reference requester1)"
  "frame.moves (SubmitManual sha catalog jobKey parameters trigger reference requester)"
  "frame.moves (SubmitInTx sha catalog jobKey parameters trigger reference requester1)"
  "frame.moves (CreateRunAll sha catalog newOwner from to trigger reference requester1)"
  "frame.moves (CreateRunAllManual sha catalog newOwner from to trigger reference requester)"
  "frame.moves ReconcileOneParent"
  "frame.moves (ReconcileParent runID ownerID)"
  "frame.moves (RecoverOneStale sha allowed catalog lease ownerID)"
  unfolding Submit_def SubmitManual_def SubmitInTx_def CreateRunAll_def CreateRunAllManual_def
    ReconcileOneParent_def ReconcileParent_def
  by (intro frame.moves_intros frame_submission frame_submit frame_reconcileParent
    RecoverOneStale_moves [OF frame.step_relation_axioms frame_recover_once])+

lemmas frame_all = frame_submission(1) frame_exported frame_ownership
  frame.moves_tx [OF frame_exported(3)] frame.moves_tx [OF frame_ownership(6)]

lemma run_step_keeps: "run_step sha allowed catalog d d' \<Longrightarrow> keeps d d'"
  by (induction rule: run_step.induct) (erule frame_all [THEN frame.movesD])+

end
