(* ===== verification/Scheduler_Lifecycle.thy ===== *)
theory Scheduler_Lifecycle
  imports Scheduler_Delivery Run_Frame
begin

text \<open>
  The scheduler and the run store together. \<open>New\<close> builds the service on the canonical catalog and the
  run store's \<open>SubmitInTx\<close>; the locale \<open>scheduling\<close> is interpreted on that service. \<open>system_step\<close> is one call of
  an exported operation of the scheduler or of the run store, by any process; the theorems hold along
  every history of such calls.
\<close>

section \<open>Construction\<close>

definition service_of :: "Catalog \<Rightarrow> cron_lib \<Rightarrow> (string \<Rightarrow> hash) \<Rightarrow> (def_reason \<Rightarrow> string) \<Rightarrow>
    ('a sched_db_scheme) Service" where
  "service_of catalog lib sha message =
     \<lparr>sv_catalog = catalog, sv_submit = SubmitInTx sha catalog, sv_cron = lib, sv_sha = sha, sv_text = message\<rparr>"

lemma service_of_sel [simp]:
  "sv_catalog (service_of catalog lib sha message) = catalog"
  "sv_submit (service_of catalog lib sha message) = SubmitInTx sha catalog"
  "sv_cron (service_of catalog lib sha message) = lib"
  "sv_sha (service_of catalog lib sha message) = sha"
  by (simp_all add: service_of_def)

lemma keeps_tables:
  "keeps d d' \<Longrightarrow> schedules d' = schedules d \<and> occurrences d' = occurrences d \<and> attempts d' = attempts (d :: 'a sched_db_scheme)"
  by (cases d; cases d') (simp add: keeps_def)

text \<open>\<open>harmless m\<close>: when \<open>m\<close> fails, it has changed nothing, even before a rollback.\<close>

definition harmless :: "('d, 'a) op \<Rightarrow> bool" where
  "harmless m \<longleftrightarrow> (\<forall>e x e'. m e = (Inl x, e') \<longrightarrow> db e' = db e)"

lemma harmless_fail: "harmless (fail_op x)"
  by (simp add: harmless_def fail_op_def)

lemma harmless_bind:
  assumes still: "\<And>base. still.moves base m" and rest: "\<And>a. harmless (k a)"
  shows "harmless (bind_op m k)"
  unfolding harmless_def
proof (intro allI impI)
  fix e x e'
  assume run: "bind_op m k e = (Inl x, e')"
  obtain q e1 where m: "m e = (q, e1)" by fastforce
  have d1: "db e1 = db e" using still.movesD [OF still m] by simp
  show "db e' = db e"
  proof (cases q)
    case (Inl y)
    with run m d1 show ?thesis by (simp add: bind_op_def)
  next
    case (Inr a)
    with run m have "k a e1 = (Inl x, e')" by (simp add: bind_op_def)
    with rest d1 show ?thesis by (simp add: harmless_def)
  qed
qed

lemma harmless_insert:
  "harmless (bind_op (try_op (insertRun kind parent position jobKey status parameters trigger reference requester))
     (\<lambda>result. case result of Inl x \<Rightarrow> if duplicate x then fail_op ErrJobBusy else fail_op x | Inr i \<Rightarrow> ret_op i))"
  unfolding harmless_def
proof (intro allI impI)
  fix e x e'
  let ?insert = "insertRun kind parent position jobKey status parameters trigger reference requester"
  assume "bind_op (try_op ?insert) (\<lambda>result. case result of Inl x \<Rightarrow> if duplicate x then fail_op ErrJobBusy else fail_op x
    | Inr i \<Rightarrow> ret_op i) e = (Inl x, e')"
  then obtain y where "?insert e = (Inl y, e')"
    by (cases "?insert e"; cases "fst (?insert e)") (auto simp: bind_op_def try_op_def fail_op_def ret_op_def split: if_splits)
  then show "db e' = db e" unfolding insertRun_def by (rule stmt_Inl_db)
qed

lemma SubmitInTx_harmless:
  "harmless (SubmitInTx sha catalog jobKey parameters trigger reference requester)"
proof -
  have "still.moves base (sourceReady jobKey)" "still.moves base (bind_op (sourceEnabled jobKey)
      (\<lambda>enabled. if \<not> enabled then fail_op ErrSourceDisabled else ret_op ()))" for base
    unfolding sourceReady_def sourceEnabled_def find_source_def select_profile_def by (intro still.moves_intros)+
  then show ?thesis
    unfolding SubmitInTx_def submitInTx_def
    by (auto intro!: harmless_bind harmless_fail harmless_insert still.moves_lift split: option.splits)
qed

lemma SubmitInTx_new:
  assumes "SubmitInTx sha catalog jobKey parameters trigger reference requester e = (Inr i, e')"
  shows "\<exists>row. runs (db e') = runs (db e) @ [row] \<and> r_id row = i \<and> i \<notin> r_id ` set (runs (db e)) \<and>
        r_kind row = KindJob \<and> r_job row = nullable jobKey \<and> r_status row = StatusQueued \<and> r_params row = parameters \<and>
        r_trigger row = trigger \<and> r_reference row = nullable reference"
proof -
  from assms obtain e1 j where e1: "db e1 = db e" and
    ins: "insertRun KindJob None None jobKey StatusQueued parameters trigger reference requester e1 = (Inr i, e')"
    unfolding SubmitInTx_def by (rule submitInTx_Inr)
  let ?row = "new_run KindJob None None jobKey StatusQueued parameters trigger reference requester i (clock e1 (tick e1))"
  from ins e1 have "i = next_id r_id (runs (db e))" "runs (db e') = runs (db e) @ [?row]"
    by (auto simp: insertRun_def op_iff Let_def write_runs_Inr split: sum.splits)
  moreover have "i \<notin> r_id ` set (runs (db e))"
    using next_id_fresh [of _ "runs (db e)" r_id] calculation(1) by fastforce
  ultimately show ?thesis by (intro exI [of _ ?row]) (simp add: new_run_def)
qed

interpretation wired: scheduling "service_of catalog lib sha message :: ('a sched_db_scheme) Service"
  for catalog lib sha message
proof
  fix jobKey parameters trigger reference requester e q and e' :: "'a sched_db_scheme env"
  assume "sv_submit (service_of catalog lib sha message) jobKey parameters trigger reference requester e = (q, e')"
  then have "keeps (db e) (db e')" using frame.movesD [OF frame_exported(3)] by simp
  then show "schedules (db e') = schedules (db e) \<and> occurrences (db e') = occurrences (db e) \<and> attempts (db e') = attempts (db e)"
    by (rule keeps_tables)
next
  fix jobKey parameters trigger reference requester e x and e' :: "'a sched_db_scheme env"
  assume "sv_submit (service_of catalog lib sha message) jobKey parameters trigger reference requester e = (Inl x, e')"
  then show "runs (db e') = runs (db e)" using SubmitInTx_harmless unfolding harmless_def service_of_sel by metis
next
  fix jobKey parameters trigger reference requester e i and e' :: "'a sched_db_scheme env"
  assume "sv_submit (service_of catalog lib sha message) jobKey parameters trigger reference requester e = (Inr i, e')"
  then show "\<exists>row. runs (db e') = runs (db e) @ [row] \<and> r_id row = i \<and> i \<notin> r_id ` set (runs (db e)) \<and>
        r_kind row = KindJob \<and> r_job row = nullable jobKey \<and> r_status row = StatusQueued \<and> r_params row = parameters \<and>
        r_trigger row = trigger \<and> r_reference row = nullable reference"
    using SubmitInTx_new by simp
qed

text \<open>\<open>New\<close>: the nil checks of the arguments (\<open>given\<close> stands for the database and the logger), then the
  canonical catalog.\<close>

definition New :: "bool \<Rightarrow> (string \<Rightarrow> Parameters \<Rightarrow> Trigger \<Rightarrow> string \<Rightarrow> rowid option \<Rightarrow> ('d, rowid) op) option \<Rightarrow>
    cron_lib \<Rightarrow> (string \<Rightarrow> hash) \<Rightarrow> (def_reason \<Rightarrow> string) \<Rightarrow> 'd Service result" where
  "New given submission lib sha message =
     (if \<not> given then Inl (ErrMsg ''database, submit function, and logger are required'')
      else case submission of
        None \<Rightarrow> Inl (ErrMsg ''database, submit function, and logger are required'')
      | Some f \<Rightarrow>
          (case NewCatalog of
             Inl x \<Rightarrow> Inl x
           | Inr catalog \<Rightarrow> Inr \<lparr>sv_catalog = catalog, sv_submit = f, sv_cron = lib, sv_sha = sha, sv_text = message\<rparr>))"

lemma New_wired:
  "New True (Some (SubmitInTx sha canonical_catalog)) lib sha message = Inr (service_of canonical_catalog lib sha message)"
  by (simp add: New_def NewCatalog_eq service_of_def)

section \<open>Operations that leave runs and attempts alone\<close>

definition quiet :: "'a sched_db_scheme \<Rightarrow> 'a sched_db_scheme \<Rightarrow> bool" where
  "quiet d d' \<longleftrightarrow> runs d' = runs d \<and> attempts d' = attempts d"

interpretation quiet_rel: step_relation "quiet :: 'a sched_db_scheme \<Rightarrow> 'a sched_db_scheme \<Rightarrow> bool"
  by unfold_locales (simp_all add: quiet_def)

lemma quiet_statements:
  "quiet_rel.moves (update_schedules P f)" "quiet_rel.moves (update_occurrences Q g)"
  "quiet_rel.moves (insert_occurrence row)" "quiet_rel.moves (insertSchedule input)"
  "quiet_rel.moves (Append event :: ('a sched_db_scheme, unit) op)"
  unfolding update_schedules_def update_occurrences_def insert_occurrence_def insertSchedule_def Append_def insert_audit_def
  by (intro quiet_rel.moves_intros quiet_rel.moves_stmt;
    auto simp: quiet_def write_schedules_def write_occurrences_def Let_def split: sum.splits if_splits)+

lemmas selection_defs = lockSchedule_def lockActiveOccurrence_def select_active_def lockLatestAttempt_def select_attempt_def
    lockAttemptRun_def get_run_row_def lockSchedules_def lockActiveOccurrences_def get_occurrence_def same_schedules_def
    lock_source_def find_source_def Get_def

lemma quiet_create_all: "quiet_rel.moves (create_all now result values)"
  by (induction now result "values" rule: create_all.induct)
    (auto simp: selection_defs appendScheduleAudit_def intro!: quiet_rel.moves_intros quiet_statements)

lemma quiet_administration:
  "quiet_rel.moves (Create service input)" "quiet_rel.moves (CreateMany service inputs)"
  "quiet_rel.moves (Update service i update)" "quiet_rel.moves (Enable service i expectedRevision actor requester)"
  "quiet_rel.moves (stop i expectedRevision actor archive requester)"
  "quiet_rel.moves (BulkState service submitted action actor requester)"
  unfolding Create_def CreateMany_def Update_def update_work_def update_next_def Enable_def enable_work_def
    applyEnableTransitions_def stop_def stop_work_def applyStopTransitions_def discard_occurrences_def BulkState_def bulk_work_def
    selection_defs requireCount_def requireOne_def appendScheduleAudit_def appendScheduleBulkAudit_def
  by (intro quiet_rel.moves_intros quiet_statements quiet_create_all)+

lemma quiet_closing:
  "quiet_rel.moves (rejectLockedOccurrence service schedule occurrence now cause)"
  "quiet_rel.moves (rejectInvalid service schedule cursor now cause)"
  "quiet_rel.moves (resolveSuccess service schedule occurrence attempt run parsed now)"
  "quiet_rel.moves (recordBackoff schedule occurrence attempt run finished)"
  unfolding rejectLockedOccurrence_def rejectInvalid_def disableInvalid_def resolveSuccess_def recordBackoff_def
    selection_defs requireCount_def requireOne_def
  by (intro quiet_rel.moves_intros quiet_statements)+

section \<open>The run store under the scheduler\<close>

lemma run_statements:
  "run_rel.moves (update_schedules P f)" "run_rel.moves (update_occurrences Q g)"
  "run_rel.moves (insert_occurrence row)" "run_rel.moves (insert_attempt occurrence attemptNo runID reference now)"
  unfolding update_schedules_def update_occurrences_def insert_occurrence_def insert_attempt_def
  by (intro run_rel.moves_intros run_rel.moves_stmt;
    auto simp: write_schedules_def write_occurrences_def write_attempts_def Let_def intro!: run_safe_runs
      split: sum.splits if_splits)+

lemma quiet_run_safe: "quiet_rel.moves m \<Longrightarrow> run_rel.moves m"
  unfolding quiet_rel.moves_def run_rel.moves_def quiet_def by (meson run_safe_runs)

lemma run_deliver: "run_rel.moves (deliver (service_of catalog lib sha message) schedule j occurrence now)"
  unfolding deliver_def service_of_sel requireOne_def requireCount_def
  by (intro run_rel.moves_intros run_statements moves_exported)

lemma run_case_invalid:
  "(\<And>cause. run_rel.moves (f cause)) \<Longrightarrow> run_rel.moves (case x of ErrInvalidDefinition cause \<Rightarrow> f cause | _ \<Rightarrow> fail_op x)"
  by (cases x) (simp_all add: run_rel.moves_fail)

lemma run_process: "run_rel.moves (process (service_of catalog lib sha message) i)"
  unfolding process_def processTransaction_def process_due_def settle_def createOccurrence_def selection_defs
  by (intro run_rel.moves_intros run_case_invalid run_rel.moves_retry_tx run_statements run_deliver
    quiet_closing [THEN quiet_run_safe])

section \<open>Attempts and their runs\<close>

text \<open>Every attempt is linked to the run it submitted: a job run of the scheduler, for the job of the
  occurrence, under the reference of the attempt.\<close>

definition linked_to :: "'a sched_db_scheme \<Rightarrow> attempt_row \<Rightarrow> bool" where
  "linked_to d a \<longleftrightarrow> (\<exists>q \<in> set (runs d). \<exists>r \<in> set (occurrences d).
     r_id q = a_run a \<and> o_id r = a_occurrence a \<and> r_kind q = KindJob \<and> r_trigger q = TriggerScheduler \<and>
     r_reference q = Some (a_reference a) \<and> r_job q = nullable (o_job r))"

definition linked :: "'a sched_db_scheme \<Rightarrow> bool" where
  "linked d \<longleftrightarrow> (\<forall>a \<in> set (attempts d). linked_to d a)"

definition system_inv :: "'a sched_db_scheme \<Rightarrow> bool" where
  "system_inv d \<longleftrightarrow> run_inv d \<and> sched_inv d \<and> linked d"

definition system_safe :: "'a sched_db_scheme \<Rightarrow> 'a sched_db_scheme \<Rightarrow> bool" where
  "system_safe d d' \<longleftrightarrow> run_safe d d' \<and> sched_safe d d' \<and> (system_inv d \<longrightarrow> linked d')"

interpretation system_rel: step_relation "system_safe :: 'a sched_db_scheme \<Rightarrow> 'a sched_db_scheme \<Rightarrow> bool"
proof unfold_locales
  fix d :: "'a sched_db_scheme"
  show "system_safe d d" by (simp add: system_safe_def system_inv_def run_rel.R_refl sched_rel.R_refl)
next
  fix d d' d'' :: "'a sched_db_scheme"
  assume "system_safe d d'" "system_safe d' d''"
  then show "system_safe d d''"
    unfolding system_safe_def system_inv_def
    using run_rel.R_trans [of d d' d''] sched_rel.R_trans [of d d' d''] by (simp add: run_safe_def sched_safe_def)
qed

lemma linked_to_evolves:
  assumes "linked_to d a" "evolves (runs d) (runs d')" "table_evolves occurrence_step (occurrences d) (occurrences d')"
  shows "linked_to d' a"
proof -
  from assms(1) obtain q r where q: "q \<in> set (runs d)" "r \<in> set (occurrences d)" and
    l: "r_id q = a_run a" "o_id r = a_occurrence a" "r_kind q = KindJob" "r_trigger q = TriggerScheduler"
     "r_reference q = Some (a_reference a)" "r_job q = nullable (o_job r)" by (auto simp: linked_to_def)
  obtain q' where "q' \<in> set (runs d')" "row_step q q'" by (rule evolves_member [OF assms(2) q(1)])
  moreover obtain r' where "r' \<in> set (occurrences d')" "occurrence_step r r'" by (rule table_evolves_member [OF assms(3) q(2)])
  ultimately show ?thesis
    using l unfolding linked_to_def row_step_def same_identity_def occurrence_step_def same_occurrence_def by metis
qed

lemma system_safeI:
  assumes "run_safe d d'" "sched_safe d d'"
    and "\<And>a. system_inv d \<Longrightarrow> a \<in> set (attempts d') \<Longrightarrow> a \<notin> set (attempts d) \<Longrightarrow> linked_to d' a"
  shows "system_safe d d'"
  unfolding system_safe_def
proof (intro conjI impI assms(1,2))
  assume inv: "system_inv d"
  have "evolves (runs d) (runs d')" "table_evolves occurrence_step (occurrences d) (occurrences d')"
    using assms(1,2) inv by (simp_all add: run_safe_def sched_safe_def system_inv_def)
  with inv assms(3) [OF inv] show "linked d'"
    unfolding linked_def system_inv_def by (meson linked_to_evolves)
qed

lemma quiet_system:
  assumes "quiet_rel.moves m" "sched_rel.moves m"
  shows "system_rel.moves m"
proof (rule system_rel.movesI)
  fix e r e'
  assume run: "m e = (r, e')"
  have "quiet (db e) (db e')" by (rule quiet_rel.movesD [OF assms(1) run])
  then show "system_safe (db e) (db e')"
    using sched_rel.movesD [OF assms(2) run] by (intro system_safeI) (auto simp: quiet_def run_safe_runs)
qed

lemma system_administration:
  "system_rel.moves (Create service input)" "system_rel.moves (CreateMany service inputs)"
  "system_rel.moves (Update service i update)" "system_rel.moves (Enable service i expectedRevision actor requester)"
  "system_rel.moves (stop i expectedRevision actor archive requester)"
  "system_rel.moves (BulkState service submitted action actor requester)"
  by (intro quiet_system quiet_administration moves_Create moves_CreateMany moves_Update moves_Enable moves_stop moves_BulkState)+

lemma run_step_system: "run_step sha allowed catalog d d' \<Longrightarrow> system_safe d d'"
  using run_step_safe [of sha allowed catalog d d'] keeps_tables [OF run_step_keeps, of sha allowed catalog d d']
  by (intro system_safeI sched_safe_frame) auto

section \<open>What a delivery does\<close>

text \<open>\<open>delivers d d' dl schedule j occurrence now\<close>: between \<open>d\<close> and \<open>d'\<close> exactly one run was submitted
  and recorded as the next attempt of the occurrence.\<close>

definition delivers :: "(string \<Rightarrow> hash) \<Rightarrow> 'a sched_db_scheme \<Rightarrow> 'a sched_db_scheme \<Rightarrow> delivery \<Rightarrow> schedule_row \<Rightarrow>
    JobDefinition \<Rightarrow> occurrence_row \<Rightarrow> time \<Rightarrow> bool" where
  "delivers sha d d' dl schedule j occurrence now \<longleftrightarrow>
     (let reference = attempt_reference (s_id schedule) (o_for occurrence) (o_attempts occurrence + 1)
      in dl = \<lparr>dl_scheduleID = s_id schedule, dl_occurrenceID = o_id occurrence, dl_runID = dl_runID dl,
           dl_jobKey = s_job schedule, dl_attempt = o_attempts occurrence + 1, dl_scheduledFor = o_for occurrence,
           dl_submittedAt = now\<rparr> \<and>
         (\<exists>row a. runs d' = runs d @ [row] \<and> r_id row = dl_runID dl \<and> r_id row \<notin> r_id ` set (runs d) \<and>
            r_kind row = KindJob \<and> r_job row = nullable (s_job schedule) \<and> r_status row = StatusQueued \<and>
            r_trigger row = TriggerScheduler \<and> r_reference row = Some reference \<and>
            parametersForOccurrence sha j (o_for occurrence) = Inr (r_params row) \<and>
            attempts d' = attempts d @ [a] \<and> a_occurrence a = o_id occurrence \<and>
            a_no a = o_attempts occurrence + 1 \<and> a_run a = dl_runID dl \<and> a_reference a = reference))"

lemma attempt_reference_nonempty [simp]: "nullable (attempt_reference i t n) = Some (attempt_reference i t n)"
  by (simp add: attempt_reference_def nullable_def)

context scheduling
begin

lemma deliver_effect:
  assumes "deliver service schedule j occurrence now e = (Inr (w, dl), e')"
  shows "(dl = None \<and> quiet (db e) (db e')) \<or>
    (\<exists>v. dl = Some v \<and> delivers (sv_sha service) (db e) (db e') v schedule j occurrence now)"
  using assms
proof (cases rule: deliver_cases)
  case (blocked x e1 n)
  then show ?thesis by (auto simp: update_schedules_Inr quiet_def)
next
  case (submitted runID parameters e1 e2 e3 n m)
  from submit_new [OF submitted(2)] obtain row where row: "runs (db e1) = runs (db e) @ [row]" "r_id row = runID"
    "runID \<notin> r_id ` set (runs (db e))" "r_kind row = KindJob" "r_job row = nullable (s_job schedule)"
    "r_status row = StatusQueued" "r_params row = parameters" "r_trigger row = TriggerScheduler"
    "r_reference row = Some (attempt_reference (s_id schedule) (o_for occurrence) (o_attempts occurrence + 1))" by auto
  have e2: "runs (db e2) = runs (db e1)" and at: "attempts (db e2) = attempts (db e) @
      [\<lparr>a_id = next_id a_id (attempts (db e1)), a_occurrence = o_id occurrence, a_no = o_attempts occurrence + 1,
        a_run = runID, a_reference = attempt_reference (s_id schedule) (o_for occurrence) (o_attempts occurrence + 1),
        a_submitted = now\<rparr>]"
    using submitted(3) submit_frame [OF submitted(2)]
    by (auto simp: insert_attempt_def op_iff write_attempts_def split: sum.splits if_splits)
  have "runs (db e') = runs (db e2)" "attempts (db e') = attempts (db e2)"
    using submitted(4,5) by (auto simp: update_schedules_Inr update_occurrences_Inr)
  with row e2 at submitted(1,6) show ?thesis by (auto simp: delivers_def Let_def)
qed

end

text \<open>\<open>may_retry d occurrence now\<close>: the latest attempt of the occurrence ended without success, and the
  deadline recorded for the next one has passed.\<close>

definition may_retry :: "'a sched_db_scheme \<Rightarrow> occurrence_row \<Rightarrow> time \<Rightarrow> bool" where
  "may_retry d occurrence now \<longleftrightarrow>
     (\<exists>a \<in> set (attempts d). \<exists>q \<in> set (runs d). a_occurrence a = o_id occurrence \<and> a_no a = o_attempts occurrence \<and>
        r_id q = a_run a \<and> r_status q \<in> {StatusFailed, StatusCancelled, StatusAbandoned} \<and> r_finished q \<noteq> None \<and>
        (\<exists>retry. o_retry occurrence = Some retry \<and> retry \<le> now))"

context scheduling
begin

lemma settle_effect:
  assumes "settle service schedule j parsed occurrence now e = (Inr (w, dl), e')"
  shows "(dl = None \<and> quiet (db e) (db e')) \<or>
    (\<exists>v. dl = Some v \<and> delivers (sv_sha service) (db e) (db e') v schedule j occurrence now \<and>
       (o_attempts occurrence = 0 \<and> filter (\<lambda>a. a_occurrence a = o_id occurrence) (attempts (db e)) = [] \<or>
        may_retry (db e) occurrence now))"
  using assms
proof (cases rule: settle_cases)
  case (rejected cause e1)
  with quiet_rel.movesD [OF quiet_closing(1) rejected(3)] show ?thesis by simp
next
  case (resolved attempt run e1)
  with quiet_rel.movesD [OF quiet_closing(3) resolved(9)] show ?thesis by simp
next
  case waiting
  then show ?thesis by (simp add: quiet_rel.R_refl)
next
  case (backoff attempt run finished e1)
  with quiet_rel.movesD [OF quiet_closing(4) backoff(3)] show ?thesis by simp
next
  case (retried attempt run finished retry e1)
  have "may_retry (db e) occurrence now" using retried(2-10) unfolding may_retry_def by blast
  with deliver_effect [OF retried(11)] retried(1) show ?thesis by auto
next
  case (first e1)
  then have "filter (\<lambda>a. a_occurrence a = o_id occurrence) (attempts (db e)) = []" by (simp add: filter_empty_conv)
  with deliver_effect [OF first(4)] first(1,2) show ?thesis by auto
qed

end

text \<open>\<open>submission d schedule j occurrence now\<close>: the conditions under which a due schedule submits a run. The
  occurrence is the unresolved one of the schedule, or a new one at its cursor.\<close>

definition submission :: "'d Service \<Rightarrow> 'a sched_db_scheme \<Rightarrow> schedule_row \<Rightarrow> JobDefinition \<Rightarrow> occurrence_row \<Rightarrow> time \<Rightarrow> bool" where
  "submission service d schedule j occurrence now \<longleftrightarrow>
     schedule \<in> set (schedules d) \<and> s_enabled schedule \<and> s_archived schedule = None \<and>
     s_next schedule = Some (o_for occurrence) \<and> o_for occurrence \<le> now \<and>
     (\<forall>t. s_not_before schedule = Some t \<longrightarrow> t \<le> now) \<and> Find (sv_catalog service) (s_job schedule) = Some j \<and>
     o_schedule occurrence = s_id schedule \<and> o_status occurrence = Unresolved \<and>
     (occurrence \<in> set (occurrences d) \<or> idle d (s_id schedule)) \<and>
     (o_attempts occurrence = 0 \<and> filter (\<lambda>a. a_occurrence a = o_id occurrence) (attempts d) = [] \<or>
      may_retry d occurrence now)"

definition recorded :: "'a sched_db_scheme \<Rightarrow> 'a sched_db_scheme \<Rightarrow> schedule_row \<Rightarrow> occurrence_row \<Rightarrow> bool" where
  "recorded d d' schedule occurrence \<longleftrightarrow>
     (sched_inv d \<longrightarrow> (\<exists>r \<in> set (occurrences d'). o_id r = o_id occurrence \<and> o_job r = s_job schedule))"

lemma fence_job:
  assumes inv: "sched_inv d" and "schedule \<in> set (schedules d)" "occurrence \<in> set (occurrences d)"
    "active_schedule occurrence = Some (s_id schedule)"
  shows "o_job occurrence = s_job schedule"
proof -
  from assms obtain s' where "s' \<in> set (schedules d)" "s_id s' = s_id schedule" "currentFence s' occurrence"
    unfolding sched_inv_def fence_inv_def active_schedule_Some by metis
  with same_id_schedule [OF inv, of s' schedule] assms(2) show ?thesis by (auto simp: currentFence_def)
qed

lemma opened_recorded:
  assumes opn: "opened d d1 schedule cursor mode found occurrence" and sch: "schedule \<in> set (schedules d)" and safe: "sched_safe d1 d'"
  shows "recorded d d' schedule occurrence"
  unfolding recorded_def
proof
  assume "sched_inv d"
  with opn have inv: "sched_inv d1" by (simp add: opened_def sched_safe_def)
  have "schedules d1 = schedules d" and occ: "occurrence \<in> set (occurrences d1)" "active_schedule occurrence = Some (s_id schedule)"
    using opn by (auto simp: opened_def split: option.splits)
  with fence_job [OF inv _ occ] sch have job: "o_job occurrence = s_job schedule" by simp
  have "table_evolves occurrence_step (occurrences d1) (occurrences d')" using safe inv by (simp add: sched_safe_def)
  then obtain r where "r \<in> set (occurrences d')" "occurrence_step occurrence r"
    using table_evolves_member [OF _ occ(1)] by blast
  with job show "\<exists>r \<in> set (occurrences d'). o_id r = o_id occurrence \<and> o_job r = s_job schedule"
    by (auto simp: occurrence_step_def same_occurrence_def)
qed

context scheduling
begin

lemma process_due_effect:
  assumes "process_due service schedule cursor dfn j parsed now e = (Inr (w, dl), e')"
    and sch: "schedule \<in> set (schedules (db e))" "s_enabled schedule" "s_next schedule = Some cursor"
  shows "(dl = None \<and> quiet (db e) (db e')) \<or>
    (\<exists>v occurrence. dl = Some v \<and> delivers (sv_sha service) (db e) (db e') v schedule j occurrence now \<and>
       recorded (db e) (db e') schedule occurrence \<and> o_for occurrence = cursor \<and> o_schedule occurrence = s_id schedule \<and> o_status occurrence = Unresolved \<and>
       (occurrence \<in> set (occurrences (db e)) \<or> idle (db e) (s_id schedule)) \<and>
       (o_attempts occurrence = 0 \<and> filter (\<lambda>a. a_occurrence a = o_id occurrence) (attempts (db e)) = [] \<or>
        may_retry (db e) occurrence now))"
proof (rule process_due_cases [OF assms])
  fix found occurrence e1
  assume opn: "opened (db e) (db e1) schedule cursor (expected_mode j) found occurrence"
    and k: "(\<exists>cause. (w, dl) = (True, None) \<and> rejectLockedOccurrence service schedule occurrence now cause e1 = (Inr (), e')) \<or>
     (o_for occurrence = cursor \<and> occurrence_semanticMatches occurrence dfn \<and> o_source occurrence = ValidatedCron \<and>
      o_mode occurrence = expected_mode j \<and> settle service schedule j parsed occurrence now e1 = (Inr (w, dl), e'))"
  have d1: "runs (db e1) = runs (db e)" "attempts (db e1) = attempts (db e)"
    using opn by (auto simp: opened_def split: option.splits)
  have occ: "o_schedule occurrence = s_id schedule" "o_status occurrence = Unresolved"
    "occurrence \<in> set (occurrences (db e)) \<or> idle (db e) (s_id schedule)"
    using opn by (auto simp: opened_def active_schedule_Some split: option.splits)
  have same: "quiet (db e1) d \<Longrightarrow> quiet (db e) d" "delivers h (db e1) d v s j occ n = delivers h (db e) d v s j occ n"
    "may_retry (db e1) occ n = may_retry (db e) occ n" for d h v s j occ n
    by (simp_all add: quiet_def d1 delivers_def may_retry_def)
  from k show ?thesis
  proof (elim disjE exE conjE)
    fix cause assume r: "(w, dl) = (True, None)" "rejectLockedOccurrence service schedule occurrence now cause e1 = (Inr (), e')"
    with same(1) [OF quiet_rel.movesD [OF quiet_closing(1) r(2)]] show ?thesis by simp
  next
    assume cursor: "o_for occurrence = cursor" and st: "settle service schedule j parsed occurrence now e1 = (Inr (w, dl), e')"
    have "sched_safe (db e1) (db e')"
      by (rule settle_safe [OF st]) (use opn in \<open>simp_all add: opened_def\<close>)
    from opened_recorded [OF opn sch(1) this] settle_effect [OF st] cursor occ
    show ?thesis unfolding same(2,3) d1(2) using same(1) by blast
  qed
qed

lemma processTransaction_effect:
  assumes "processTransaction service i e = (Inr (w, dl), e')"
  shows "(dl = None \<and> quiet (db e) (db e')) \<or>
    (\<exists>v schedule j occurrence now. dl = Some v \<and> s_id schedule = i \<and> submission service (db e) schedule j occurrence now \<and>
       delivers (sv_sha service) (db e) (db e') v schedule j occurrence now \<and> recorded (db e) (db e') schedule occurrence)"
  using assms
proof (cases rule: processTransaction_cases)
  case skipped
  then show ?thesis by (simp add: quiet_rel.R_refl)
next
  case (invalid schedule cursor now cause e1)
  with quiet_rel.movesD [OF quiet_closing(2) invalid(5)] show ?thesis by simp
next
  case (valid schedule cursor dfn j parsed now e1)
  have "submission service (db e) schedule j occurrence now"
    if "o_for occurrence = cursor" "o_schedule occurrence = s_id schedule" "o_status occurrence = Unresolved"
      "occurrence \<in> set (occurrences (db e)) \<or> idle (db e) (s_id schedule)"
      "o_attempts occurrence = 0 \<and> filter (\<lambda>a. a_occurrence a = o_id occurrence) (attempts (db e)) = [] \<or>
        may_retry (db e) occurrence now" for occurrence
    using that valid(2-10) unfolding submission_def by simp
  with process_due_effect [OF valid(12)] valid(1-6) show ?thesis by metis
qed

lemma process_effect:
  assumes "process service i e = (Inr (w, dl), e')"
  shows "(dl = None \<and> quiet (db e) (db e')) \<or>
    (\<exists>v schedule j occurrence now. dl = Some v \<and> s_id schedule = i \<and> submission service (db e) schedule j occurrence now \<and>
       delivers (sv_sha service) (db e) (db e') v schedule j occurrence now \<and> recorded (db e) (db e') schedule occurrence)"
proof -
  from assms obtain e1 e2 where "db e1 = db e" "processTransaction service i e1 = (Inr (w, dl), e2)" "db e' = db e2"
    unfolding process_def by (auto elim!: replay_tx_InrE)
  with processTransaction_effect [of i e1 w dl e2] show ?thesis by simp
qed

end

text \<open>Every commit of \<open>processTransaction\<close> keeps attempts linked to their runs.\<close>

lemma delivers_linked:
  assumes "delivers sha d d' dl schedule j occurrence now" "recorded d d' schedule occurrence" "sched_inv d"
    "a \<in> set (attempts d')" "a \<notin> set (attempts d)"
  shows "linked_to d' a"
  using assms unfolding delivers_def recorded_def linked_to_def Let_def by fastforce

lemma system_process: "system_rel.moves (process (service_of catalog lib sha message) i)"
proof (rule system_rel.movesI)
  fix e r and e' :: "'a sched_db_scheme env"
  let ?service = "service_of catalog lib sha message :: ('a sched_db_scheme) Service"
  assume run: "process ?service i e = (r, e')"
  show "system_safe (db e) (db e')"
  proof (cases r)
    case (Inl x)
    with run have "db e' = db e" unfolding process_def by (auto dest: replay_tx_Inl_db)
    then show ?thesis by (simp add: system_rel.R_refl)
  next
    case (Inr p)
    then obtain w dl where p: "process ?service i e = (Inr (w, dl), e')" using run by (cases p) auto
    show ?thesis
    proof (rule system_safeI)
      show "run_safe (db e) (db e')" by (rule run_rel.movesD [OF run_process run])
      show "sched_safe (db e) (db e')" by (rule sched_rel.movesD [OF wired.moves_process run])
      fix a assume a: "system_inv (db e)" "a \<in> set (attempts (db e'))" "a \<notin> set (attempts (db e))"
      from wired.process_effect [OF p] show "linked_to (db e') a"
        using a delivers_linked by (auto simp: quiet_def system_inv_def)
    qed
  qed
qed

lemma system_Sweep: "system_rel.moves (Sweep (service_of catalog lib sha message))"
  unfolding Sweep_def select_due_def by (intro system_rel.moves_intros system_process)

section \<open>Histories\<close>

inductive system_step :: "(string \<Rightarrow> hash) \<Rightarrow> (string \<Rightarrow> bool) \<Rightarrow> Catalog \<Rightarrow> cron_lib \<Rightarrow> (def_reason \<Rightarrow> string) \<Rightarrow>
    'a sched_db_scheme \<Rightarrow> 'a sched_db_scheme \<Rightarrow> bool"
  for sha allowed catalog lib message where
  run_store: "run_step sha allowed catalog d d' \<Longrightarrow> system_step sha allowed catalog lib message d d'"
| created: "Create (service_of catalog lib sha message) input e = (r1, e') \<Longrightarrow>
     system_step sha allowed catalog lib message (db e) (db e')"
| created_many: "CreateMany (service_of catalog lib sha message) inputs e = (r2, e') \<Longrightarrow>
     system_step sha allowed catalog lib message (db e) (db e')"
| updated: "Update (service_of catalog lib sha message) i update e = (r1, e') \<Longrightarrow>
     system_step sha allowed catalog lib message (db e) (db e')"
| enabled: "Enable (service_of catalog lib sha message) i expectedRevision actor requester e = (r1, e') \<Longrightarrow>
     system_step sha allowed catalog lib message (db e) (db e')"
| disabled: "Disable i expectedRevision actor requester e = (r1, e') \<Longrightarrow>
     system_step sha allowed catalog lib message (db e) (db e')"
| archived: "Archive i expectedRevision actor requester e = (r1, e') \<Longrightarrow>
     system_step sha allowed catalog lib message (db e) (db e')"
| bulk: "BulkState (service_of catalog lib sha message) submitted action actor requester e = (r3, e') \<Longrightarrow>
     system_step sha allowed catalog lib message (db e) (db e')"
| swept: "Sweep (service_of catalog lib sha message) e = (r4, e') \<Longrightarrow>
     system_step sha allowed catalog lib message (db e) (db e')"

lemma system_step_safe: "system_step sha allowed catalog lib message d d' \<Longrightarrow> system_safe d d'"
proof (induction rule: system_step.induct)
  case (run_store d d')
  then show ?case by (rule run_step_system)
qed (unfold Disable_def Archive_def, (erule system_rel.movesD [OF system_administration(1)]
  system_rel.movesD [OF system_administration(2)] system_rel.movesD [OF system_administration(3)]
  system_rel.movesD [OF system_administration(4)] system_rel.movesD [OF system_administration(5)]
  system_rel.movesD [OF system_administration(6)] system_rel.movesD [OF system_Sweep])+)

lemma system_history_safe:
  "(system_step sha allowed catalog lib message)\<^sup>*\<^sup>* d d' \<Longrightarrow> system_safe d d'"
  by (induction rule: rtranclp_induct) (auto intro: system_rel.R_refl system_rel.R_trans system_step_safe)

lemma system_history:
  assumes "system_inv d" "(system_step sha allowed catalog lib message)\<^sup>*\<^sup>* d d'"
  shows "system_inv d'" "table_evolves schedule_step (schedules d) (schedules d')"
    "table_evolves occurrence_step (occurrences d) (occurrences d')" "prefix (attempts d) (attempts d')"
  using system_history_safe [OF assms(2)] assms(1)
  by (simp_all add: system_safe_def system_inv_def sched_safe_def run_safe_def)

end
