(* ===== verification/Scheduler_Properties.thy ===== *)
theory Scheduler_Properties
  imports Scheduler_Lifecycle
begin

text \<open>
  The properties of the scheduler: what holds in every reachable state of scheduler and run store, how
  rows may change, when a run is submitted and when a cursor moves, and what the administrative
  operations do. The sample service of the witnesses has one hourly schedule of a detail job.
\<close>

section \<open>A sample service\<close>

text \<open>Evaluated forms of constants, for the evaluation of the witnesses.\<close>

declare NewCatalog_eq [code]

definition sample_job :: JobDefinition where
  "sample_job = hd detail_jobs"

definition sample_catalog :: Catalog where
  "sample_catalog = \<lparr>cat_jobs = [sample_job], cat_byKey = [''cif_detail'' \<mapsto> sample_job]\<rparr>"

definition sample_sha :: "string \<Rightarrow> hash" where
  "sample_sha _ = replicate 32 CHR ''h''"

text \<open>The cron expression \<open>0 * * * *\<close>: the next full hour.\<close>

definition sample_cron :: cron_lib where
  "sample_cron = \<lparr>cl_location_error = \<lambda>_. None, cl_parse_error = \<lambda>_. None, cl_next = \<lambda>_ _ t. Some ((t div hour + 1) * hour)\<rparr>"

definition sample_service :: "sched_db Service" where
  "sample_service = service_of sample_catalog sample_cron sample_sha (\<lambda>_. [])"

definition sample_schedule :: schedule_row where
  "sample_schedule =
     \<lparr>s_id = 1, s_name = ''hourly'', s_job = ''cif_detail'', s_cron = ''0 * * * *'', s_timezone = DefaultTimezone,
      s_policy_kind = PolicyLiveSnapshot, s_policy_version = 1, s_policy_json = Json (JObj []),
      s_policy_checksum = sample_sha [], s_enabled = True, s_next = Some hour, s_revision = 1, s_not_before = None,
      s_block_reason = None, s_blocked_at = None, s_error_class = None, s_error_message = None, s_error_at = None,
      s_created_by = None, s_updated_by = None, s_archived = None\<rparr>"

definition sample_tables :: "schedule_row list \<Rightarrow> occurrence_row list \<Rightarrow> attempt_row list \<Rightarrow> run_row list \<Rightarrow> sched_db" where
  "sample_tables ss os as rs =
     \<lparr>audit_logs = [], runs = rs, settings = None,
      sources = [\<lparr>so_id = ''cif_detail'', so_enabled = True, so_profile = Some 1\<rparr>], profiles = [\<lparr>pf_id = 1, pf_status = ''active''\<rparr>],
      schedules = ss, occurrences = os, attempts = as\<rparr>"

definition sample_server :: "sched_db \<Rightarrow> sched_db env" where
  "sample_server d = \<lparr>db = d, tick = 0, clock = (\<lambda>n. 2 * hour + int n), fault = \<lambda>_. None, locked = \<lambda>_ _. False\<rparr>"

definition due_env :: "sched_db env" where
  "due_env = sample_server (sample_tables [sample_schedule] [] [] [])"


definition sample_input :: CreateInput where
  "sample_input = \<lparr>ci_Definition = row_definition sample_schedule, ci_Enabled = True, ci_ActorID = None, ci_Requester = None\<rparr>"

definition later :: "sched_db \<Rightarrow> sched_db env" where
  "later d = (sample_server d)\<lparr>clock := \<lambda>n. 4 * hour + int n\<rparr>"

text \<open>A schedule is created and then swept when it is due.\<close>

definition created_db :: sched_db where
  "created_db = db (snd (Create sample_service sample_input (sample_server (sample_tables [] [] [] []))))"

definition swept_db :: sched_db where
  "swept_db = db (snd (Sweep sample_service (later created_db)))"

lemma sample_history:
  "(system_step sample_sha (\<lambda>_. True) sample_catalog sample_cron (\<lambda>_. []))\<^sup>*\<^sup>* (sample_tables [] [] [] []) created_db"
  "(system_step sample_sha (\<lambda>_. True) sample_catalog sample_cron (\<lambda>_. []))\<^sup>*\<^sup>* created_db swept_db"
proof -
  let ?step = "system_step sample_sha (\<lambda>_. True) sample_catalog sample_cron (\<lambda>_. [])"
  have "?step (db (sample_server (sample_tables [] [] [] []))) created_db"
    unfolding created_db_def sample_service_def by (rule system_step.created) (rule prod.collapse [symmetric])
  then show "?step\<^sup>*\<^sup>* (sample_tables [] [] [] []) created_db" by (auto simp: sample_server_def)
  have "?step (db (later created_db)) swept_db"
    unfolding swept_db_def sample_service_def by (rule system_step.swept) (rule prod.collapse [symmetric])
  then show "?step\<^sup>*\<^sup>* created_db swept_db" by (auto simp: later_def sample_server_def)
qed

lemma swept_rows:
  "map (\<lambda>r. (o_schedule r, o_for r, o_status r, o_attempts r)) (occurrences swept_db) = [(1, 3 * hour, Unresolved, 1)]"
  "map (\<lambda>q. (r_id q, r_job q, r_status q)) (runs swept_db) = [(1, Some ''cif_detail'', StatusQueued)]"
  by code_simp+

section \<open>Reachable states\<close>

lemma system_inv_empty:
  "runs d = [] \<Longrightarrow> schedules d = [] \<Longrightarrow> occurrences d = [] \<Longrightarrow> attempts d = [] \<Longrightarrow> system_inv d"
  by (simp add: system_inv_def linked_def run_inv_empty sched_inv_def fence_inv_def attempt_inv_def
    occurrence_keys_ok_def unique_key_def)

text \<open>
  C1. In every state that scheduler and run store reach together from empty tables, an unresolved
  occurrence is the only one of its schedule, and its schedule is enabled, not archived, stands at the
  occurrence's time and still has the definition the occurrence was made for; the attempts of an
  occurrence are numbered 1, 2, 3, ... without gaps up to its attempt count, and each belongs to a
  scheduler run for the occurrence's job that carries the attempt's reference.
\<close>

theorem system_history_inv:
  assumes "runs d0 = []" "schedules d0 = []" "occurrences d0 = []" "attempts d0 = []"
    and "(system_step sha allowed catalog lib message)\<^sup>*\<^sup>* d0 d" and "r \<in> set (occurrences d)"
  shows "(o_status r = Unresolved \<longrightarrow>
       (\<forall>q \<in> set (occurrences d). o_status q = Unresolved \<and> o_schedule q = o_schedule r \<longrightarrow> q = r) \<and>
       (\<exists>s \<in> set (schedules d). s_id s = o_schedule r \<and> currentFence s r \<and> s_enabled s \<and> s_archived s = None \<and>
          s_next s = Some (o_for r))) \<and>
     map (unat \<circ> a_no) (filter (\<lambda>a. a_occurrence a = o_id r) (attempts d)) = [1..<Suc (unat (o_attempts r))] \<and>
     (\<forall>a \<in> set (attempts d). a_occurrence a = o_id r \<longrightarrow>
        (\<exists>q \<in> set (runs d). r_id q = a_run a \<and> r_kind q = KindJob \<and> r_trigger q = TriggerScheduler \<and>
           r_reference q = Some (a_reference a) \<and> r_job q = nullable (o_job r)))"
proof (intro conjI impI)
  have inv: "system_inv d" by (rule system_history(1) [OF system_inv_empty [OF assms(1-4)] assms(5)])
  then have sch: "sched_inv d" by (simp add: system_inv_def)
  show "map (unat \<circ> a_no) (filter (\<lambda>a. a_occurrence a = o_id r) (attempts d)) = [1..<Suc (unat (o_attempts r))]"
    using sch assms(6) by (simp add: sched_inv_def attempt_inv_def history_of_def comp_def)
  show "\<forall>a \<in> set (attempts d). a_occurrence a = o_id r \<longrightarrow>
        (\<exists>q \<in> set (runs d). r_id q = a_run a \<and> r_kind q = KindJob \<and> r_trigger q = TriggerScheduler \<and>
           r_reference q = Some (a_reference a) \<and> r_job q = nullable (o_job r))"
    using inv same_id_occurrence [OF sch _ assms(6)] by (fastforce simp: system_inv_def linked_def linked_to_def)
  assume un: "o_status r = Unresolved"
  show "\<forall>q \<in> set (occurrences d). o_status q = Unresolved \<and> o_schedule q = o_schedule r \<longrightarrow> q = r"
    using active_unique [OF sch _ assms(6)] un by (auto simp: active_schedule_Some)
  from sch assms(6) un obtain s where s: "s \<in> set (schedules d)" "s_id s = o_schedule r" "currentFence s r"
    by (auto simp: sched_inv_def fence_inv_def)
  moreover have "schedule_ok s" using sch s(1) by (simp add: sched_inv_def list_all_iff)
  ultimately show "\<exists>s \<in> set (schedules d). s_id s = o_schedule r \<and> currentFence s r \<and> s_enabled s \<and> s_archived s = None \<and>
          s_next s = Some (o_for r)"
    by (auto simp: schedule_ok_def currentFence_def)
qed

theorem system_history_inv_witness:
  "let r = hd (occurrences swept_db)
   in o_status r = Unresolved \<and> map (unat \<circ> a_no) (filter (\<lambda>a. a_occurrence a = o_id r) (attempts swept_db)) = [1] \<and>
      (\<exists>s \<in> set (schedules swept_db). s_id s = 1 \<and> s_enabled s \<and> s_next s = Some (3 * hour))"
proof -
  have empty: "runs (sample_tables [] [] [] []) = []" "schedules (sample_tables [] [] [] []) = []"
    "occurrences (sample_tables [] [] [] []) = []" "attempts (sample_tables [] [] [] []) = []" by (simp_all add: sample_tables_def)
  obtain r where r: "occurrences swept_db = [r]" "o_schedule r = 1" "o_for r = 3 * hour" "o_status r = Unresolved" "o_attempts r = 1"
    using swept_rows(1) by auto
  from system_history_inv [OF empty rtranclp_trans [OF sample_history], of r] r show ?thesis by (auto simp: comp_def)
qed

text \<open>
  C15. Along every history of scheduler and run store a schedule keeps its identity, its revision never
  decreases, and an archived schedule stays archived, disabled and without a cursor; an occurrence keeps
  its time, its definition and its schedule, its attempt count never decreases, and once it is closed
  nothing about it changes; attempts are only appended.
\<close>

theorem system_history_rows:
  assumes "system_inv d" "(system_step sha allowed catalog lib message)\<^sup>*\<^sup>* d d'"
  shows "(\<forall>s \<in> set (schedules d). \<exists>s' \<in> set (schedules d'). s_id s' = s_id s \<and> s_revision s \<le> s_revision s' \<and>
       s_created_by s' = s_created_by s \<and>
       (s_archived s \<noteq> None \<longrightarrow> s_archived s' \<noteq> None \<and> \<not> s_enabled s' \<and> s_next s' = None)) \<and>
     (\<forall>r \<in> set (occurrences d). \<exists>r' \<in> set (occurrences d'). same_occurrence r r' \<and> o_attempts r \<le> o_attempts r' \<and>
       (o_status r \<noteq> Unresolved \<longrightarrow> r' = r)) \<and>
     prefix (attempts d) (attempts d')"
proof (intro conjI ballI)
  note hist = system_history [OF assms]
  show "prefix (attempts d) (attempts d')" by (rule hist(4))
  fix s assume "s \<in> set (schedules d)"
  then obtain s' where s': "s' \<in> set (schedules d')" "schedule_step s s'" by (rule table_evolves_member [OF hist(2)])
  moreover have "schedule_ok s'" using hist(1) s'(1) by (simp add: system_inv_def sched_inv_def list_all_iff)
  ultimately show "\<exists>s' \<in> set (schedules d'). s_id s' = s_id s \<and> s_revision s \<le> s_revision s' \<and>
       s_created_by s' = s_created_by s \<and>
       (s_archived s \<noteq> None \<longrightarrow> s_archived s' \<noteq> None \<and> \<not> s_enabled s' \<and> s_next s' = None)"
    by (intro bexI [of _ s']) (auto simp: schedule_step_def schedule_ok_def)
next
  fix r assume "r \<in> set (occurrences d)"
  then obtain r' where "r' \<in> set (occurrences d')" "occurrence_step r r'"
    by (rule table_evolves_member [OF system_history(3) [OF assms]])
  then show "\<exists>r' \<in> set (occurrences d'). same_occurrence r r' \<and> o_attempts r \<le> o_attempts r' \<and>
       (o_status r \<noteq> Unresolved \<longrightarrow> r' = r)"
    by (auto simp: occurrence_step_def)
qed

theorem system_history_rows_witness:
  "(\<exists>s' \<in> set (schedules swept_db). s_id s' = 1 \<and> s_revision s' \<ge> 1) \<and> prefix (attempts created_db) (attempts swept_db)"
proof -
  have inv: "system_inv created_db"
    by (rule system_history(1) [OF system_inv_empty sample_history(1)]) (simp_all add: sample_tables_def)
  have "map (\<lambda>s. (s_id s, s_revision s)) (schedules created_db) = [(1, 1)]" by code_simp
  then obtain s where "s \<in> set (schedules created_db)" "s_id s = 1" "s_revision s = 1" by auto
  with system_history_rows [OF inv sample_history(2)] show ?thesis by fastforce
qed

section \<open>Delivery\<close>

text \<open>
  C4. Processing a schedule either submits nothing or submits exactly one run. It submits one only if the
  schedule is enabled, not archived, due and not held back, and either its occurrence has no attempt yet or
  the run of its latest attempt failed, was cancelled or was abandoned and the retry deadline recorded for
  it has passed. The run is a new queued job run of the schedule's job with the parameters of the
  occurrence's time, and it is recorded as the next attempt of that occurrence.
\<close>

theorem process_delivers:
  assumes "process (service_of catalog lib sha message :: ('a sched_db_scheme) Service) i e = (Inr (w, dl), e')"
  shows "case dl of
     None \<Rightarrow> runs (db e') = runs (db e) \<and> attempts (db e') = attempts (db e)
   | Some v \<Rightarrow> \<exists>schedule j occurrence now. s_id schedule = i \<and>
       submission (service_of catalog lib sha message :: ('a sched_db_scheme) Service) (db e) schedule j occurrence now \<and>
       delivers sha (db e) (db e') v schedule j occurrence now"
  using wired.process_effect [OF assms] by (cases dl) (auto simp: quiet_def)

theorem process_delivers_witness:
  "\<exists>v row a. fst (process sample_service 1 due_env) = Inr (True, Some v) \<and> dl_runID v = 1 \<and> dl_attempt v = 1 \<and>
     runs (db (snd (process sample_service 1 due_env))) = [row] \<and> r_id row = 1 \<and> r_status row = StatusQueued \<and>
     r_job row = Some ''cif_detail'' \<and> attempts (db (snd (process sample_service 1 due_env))) = [a] \<and> a_run a = 1"
proof -
  have "map_sum id (\<lambda>(w, dl). (w, map_option (\<lambda>v. (dl_runID v, dl_attempt v)) dl)) (fst (process sample_service 1 due_env)) =
      Inr (True, Some (1, 1))" by code_simp
  then obtain v e' where v: "process sample_service 1 due_env = (Inr (True, Some v), e')" "dl_runID v = 1" "dl_attempt v = 1"
    by (cases "process sample_service 1 due_env") (auto simp: map_sum_def split: sum.splits)
  have d: "db due_env = sample_tables [sample_schedule] [] [] []" by (simp add: due_env_def sample_server_def)
  from process_delivers [OF v(1) [unfolded sample_service_def]] obtain schedule j occurrence now where
    s: "submission (service_of sample_catalog sample_cron sample_sha (\<lambda>_. []) :: sched_db Service) (db due_env) schedule j occurrence now"
    and dl: "delivers sample_sha (db due_env) (db e') v schedule j occurrence now" by auto
  from s have "schedule = sample_schedule" by (simp add: submission_def d sample_tables_def)
  with dl v(2) obtain row a where "runs (db e') = [row]" "r_id row = 1" "r_status row = StatusQueued"
     "r_job row = Some ''cif_detail''" "attempts (db e') = [a]" "a_run a = 1"
    unfolding delivers_def Let_def d by (auto simp: sample_tables_def sample_schedule_def nullable_def)
  with v show ?thesis by auto
qed

text \<open>\<open>unresolving d d'\<close>: no occurrence became \<open>Resolved\<close>.\<close>

definition resolved_ids :: "'a sched_db_scheme \<Rightarrow> rowid set" where
  "resolved_ids d = o_id ` {r \<in> set (occurrences d). o_status r = Resolved}"

definition unresolving :: "'a sched_db_scheme \<Rightarrow> 'a sched_db_scheme \<Rightarrow> bool" where
  "unresolving d d' \<longleftrightarrow> resolved_ids d' \<subseteq> resolved_ids d"

interpretation unres: step_relation "unresolving :: 'a sched_db_scheme \<Rightarrow> 'a sched_db_scheme \<Rightarrow> bool"
  by unfold_locales (auto simp: unresolving_def)

lemma unres_update:
  assumes "\<And>r. P r \<Longrightarrow> o_id (f r) = o_id r \<and> (o_status (f r) = Resolved \<longrightarrow> o_status r = Resolved)"
  shows "unres.moves (update_occurrences P f)"
  unfolding update_occurrences_def
  by (rule unres.moves_stmt)
    (use assms in \<open>fastforce simp: unresolving_def resolved_ids_def write_occurrences_def set_sql_update split: if_splits sum.splits\<close>)

lemma unres_insert: "(\<And>i. o_status (row i) \<noteq> Resolved) \<Longrightarrow> unres.moves (insert_occurrence row)"
  unfolding insert_occurrence_def
  by (rule unres.moves_stmt)
    (auto simp: unresolving_def resolved_ids_def write_occurrences_def Let_def split: if_splits sum.splits)

lemma unres_schedules: "unres.moves (update_schedules P f)"
  unfolding update_schedules_def
  by (rule unres.moves_stmt) (auto simp: unresolving_def resolved_ids_def write_schedules_def split: if_splits sum.splits)

lemma unres_attempt: "unres.moves (insert_attempt occurrence attemptNo runID reference now)"
  unfolding insert_attempt_def
  by (rule unres.moves_stmt) (auto simp: unresolving_def resolved_ids_def write_attempts_def split: if_splits sum.splits)

lemma unres_submit: "unres.moves (SubmitInTx sha catalog jobKey parameters trigger reference requester)"
  by (rule unres.movesI)
    (auto simp: unresolving_def resolved_ids_def dest!: frame.movesD [OF frame_exported(3)] keeps_tables)

lemma unres_closing:
  "unres.moves (rejectLockedOccurrence service schedule occurrence now cause)"
  "unres.moves (rejectInvalid service schedule cursor now cause)"
  "unres.moves (recordBackoff schedule occurrence attempt run finished)"
  "unres.moves (createOccurrence schedule cursor mode)"
  "unres.moves (deliver (service_of catalog lib sha message) schedule j occurrence now)"
  unfolding rejectLockedOccurrence_def rejectInvalid_def disableInvalid_def recordBackoff_def createOccurrence_def deliver_def
    selection_defs requireCount_def requireOne_def service_of_sel
  by (intro unres.moves_intros unres_update unres_insert unres_schedules unres_attempt unres_submit;
    simp add: reject_row_def new_occurrence_def)+

text \<open>\<open>resolution lib d d' schedule occurrence\<close>: the occurrence was closed as resolved because the run of its
  latest attempt succeeded, and the cursor of the schedule moved on, from the run's end for a live
  snapshot and from the occurrence's own time otherwise.\<close>

definition resolution :: "cron_lib \<Rightarrow> 'a sched_db_scheme \<Rightarrow> 'a sched_db_scheme \<Rightarrow> schedule_row \<Rightarrow> occurrence_row \<Rightarrow> bool" where
  "resolution lib d d' schedule occurrence \<longleftrightarrow> currentFence schedule occurrence \<and>
     (\<exists>attempt \<in> set (attempts d). \<exists>run \<in> set (runs d). \<exists>finished parsed next.
        a_occurrence attempt = o_id occurrence \<and> a_no attempt = o_attempts occurrence \<and> r_id run = a_run attempt \<and>
        r_status run = StatusSucceeded \<and> r_finished run = Some finished \<and>
        cron_Next lib parsed (if o_mode occurrence = LiveCoalesced then finished else o_for occurrence) = Some next \<and>
        schedules d' = sql_update (\<lambda>s. s_id s = s_id schedule)
          (\<lambda>s. s\<lparr>s_next := Some next, s_not_before := None, s_block_reason := None, s_blocked_at := None\<rparr>) (schedules d))"

lemma resolveSuccess_effect:
  assumes run: "resolveSuccess service schedule occurrence attempt run parsed now e = (Inr u, e')"
    and sch: "sched_inv (db e)" "schedule \<in> set (schedules (db e))"
  shows "\<exists>finished next. currentFence schedule occurrence \<and> r_finished run = Some finished \<and>
     cron_Next (sv_cron service) parsed (if o_mode occurrence = LiveCoalesced then finished else o_for occurrence) = Some next \<and>
     schedules (db e') = sql_update (\<lambda>s. s_id s = s_id schedule)
        (\<lambda>s. s\<lparr>s_next := Some next, s_not_before := None, s_block_reason := None, s_blocked_at := None\<rparr>) (schedules (db e)) \<and>
     resolved_ids (db e') \<subseteq> insert (o_id occurrence) (resolved_ids (db e))"
proof -
  let ?P = "\<lambda>r. o_id r = o_id occurrence \<and> o_status r = Unresolved \<and> o_attempts r = a_no attempt"
  let ?close = "\<lambda>r. r\<lparr>o_status := Resolved, o_retry := None, o_closed := Some now\<rparr>"
  from run obtain finished nxt n e1 m where f: "r_finished run = Some finished" "currentFence schedule occurrence"
      "cron_Next (sv_cron service) parsed (if o_mode occurrence = LiveCoalesced then finished else o_for occurrence) = Some nxt"
    and u: "update_occurrences ?P ?close e = (Inr n, e1)"
    and s: "update_schedules (fenced_schedule schedule occurrence)
         (\<lambda>s. s\<lparr>s_next := Some nxt, s_not_before := None, s_block_reason := None, s_blocked_at := None\<rparr>) e1 = (Inr m, e')"
    by (auto simp: resolveSuccess_def op_iff split: option.splits if_splits)
  have same: "fenced_schedule schedule occurrence q \<longleftrightarrow> s_id q = s_id schedule" if "q \<in> set (schedules (db e))" for q
    using same_id_schedule [OF sch(1) that sch(2)] f(2) by (auto simp: fenced_schedule_def currentFence_def)
  have "schedules (db e') = sql_update (\<lambda>s. s_id s = s_id schedule)
        (\<lambda>s. s\<lparr>s_next := Some nxt, s_not_before := None, s_block_reason := None, s_blocked_at := None\<rparr>) (schedules (db e))"
    using s u same by (auto simp: update_schedules_Inr update_occurrences_Inr intro!: sql_update_cong)
  moreover have "resolved_ids (db e') \<subseteq> insert (o_id occurrence) (resolved_ids (db e))"
    using s u by (auto simp: update_schedules_Inr update_occurrences_Inr resolved_ids_def set_sql_update)
  ultimately show ?thesis using f by blast
qed

lemma settle_resolution:
  assumes run: "settle (service_of catalog lib sha message) schedule j parsed occurrence now e = (Inr result, e')"
    and sch: "sched_inv (db e)" "schedule \<in> set (schedules (db e))"
  shows "unresolving (db e) (db e') \<or>
    resolved_ids (db e') \<subseteq> insert (o_id occurrence) (resolved_ids (db e)) \<and> resolution lib (db e) (db e') schedule occurrence"
  using run
proof (cases rule: settle_cases)
  case (rejected cause e1)
  with unres.movesD [OF unres_closing(1) rejected(3)] show ?thesis by simp
next
  case (resolved attempt run e1)
  from resolveSuccess_effect [OF resolved(9)] sch resolved(1) obtain finished nxt where
    "currentFence schedule occurrence" "r_finished run = Some finished"
    "cron_Next lib parsed (if o_mode occurrence = LiveCoalesced then finished else o_for occurrence) = Some nxt"
    "schedules (db e') = sql_update (\<lambda>s. s_id s = s_id schedule)
        (\<lambda>s. s\<lparr>s_next := Some nxt, s_not_before := None, s_block_reason := None, s_blocked_at := None\<rparr>) (schedules (db e))"
    and ids: "resolved_ids (db e') \<subseteq> insert (o_id occurrence) (resolved_ids (db e))" by auto
  with resolved(3-8) have "resolution lib (db e) (db e') schedule occurrence" unfolding resolution_def by blast
  with ids show ?thesis by simp
next
  case waiting
  then show ?thesis by (simp add: unres.R_refl)
next
  case (backoff attempt run finished e1)
  with unres.movesD [OF unres_closing(3) backoff(3)] show ?thesis by simp
next
  case (retried attempt run finished retry e1)
  with unres.movesD [OF unres_closing(5) retried(11)] show ?thesis by simp
next
  case (first e1)
  with unres.movesD [OF unres_closing(5) first(4)] show ?thesis by simp
qed

lemma process_due_resolution:
  assumes run: "process_due (service_of catalog lib sha message) schedule cursor dfn j parsed now e = (Inr result, e')"
    and sch: "schedule \<in> set (schedules (db e))" "s_enabled schedule" "s_next schedule = Some cursor" and inv: "sched_inv (db e)"
    and k: "k \<in> resolved_ids (db e')" "k \<notin> resolved_ids (db e)"
  shows "\<exists>occurrence \<in> set (occurrences (db e)). o_id occurrence = k \<and> active_schedule occurrence = Some (s_id schedule) \<and>
    resolution lib (db e) (db e') schedule occurrence"
proof (rule process_due_cases [OF run sch])
  fix found occurrence e1
  assume opn: "opened (db e) (db e1) schedule cursor (expected_mode j) found occurrence"
    and alt: "(\<exists>cause. result = (True, None) \<and>
       rejectLockedOccurrence (service_of catalog lib sha message) schedule occurrence now cause e1 = (Inr (), e')) \<or>
     (o_for occurrence = cursor \<and> occurrence_semanticMatches occurrence dfn \<and> o_source occurrence = ValidatedCron \<and>
      o_mode occurrence = expected_mode j \<and>
      settle (service_of catalog lib sha message) schedule j parsed occurrence now e1 = (Inr result, e'))"
  have e1: "runs (db e1) = runs (db e)" "attempts (db e1) = attempts (db e)" "schedules (db e1) = schedules (db e)"
    "active_schedule occurrence = Some (s_id schedule)"
    using opn by (auto simp: opened_def split: option.splits)
  have inv1: "sched_inv (db e1)" using opn inv by (simp add: opened_def sched_safe_def)
  have "resolved_ids (db e1) = resolved_ids (db e)"
  proof (cases found)
    case (Some r)
    with opn show ?thesis by (simp add: opened_def)
  next
    case None
    with opn have d1: "db e1 = (db e)\<lparr>occurrences := occurrences (db e) @ [occurrence]\<rparr>" by (simp add: opened_def)
    have "o_status occurrence \<noteq> Resolved" using e1(4) by (simp add: active_schedule_Some)
    then show ?thesis unfolding d1 resolved_ids_def by auto
  qed
  moreover have "unresolving (db e1) (db e')"
    if "rejectLockedOccurrence (service_of catalog lib sha message) schedule occurrence now cause e1 = (Inr (), e')" for cause
    using that by (rule unres.movesD [OF unres_closing(1)])
  ultimately have st: "settle (service_of catalog lib sha message) schedule j parsed occurrence now e1 = (Inr result, e')"
    using k alt unfolding unresolving_def by blast
  have sch1: "schedule \<in> set (schedules (db e1))" using sch(1) e1(3) by simp
  from settle_resolution [OF st inv1 sch1] k \<open>resolved_ids (db e1) = resolved_ids (db e)\<close>
  have k': "o_id occurrence = k" and res: "resolution lib (db e1) (db e') schedule occurrence" by (auto simp: unresolving_def)
  have res': "resolution lib (db e) (db e') schedule occurrence" using res by (simp add: resolution_def e1)
  have "occurrence \<in> set (occurrences (db e))"
  proof (cases found)
    case (Some r)
    with opn show ?thesis by (auto simp: opened_def)
  next
    case None
    with opn have d1: "db e1 = (db e)\<lparr>occurrences := occurrences (db e) @ [occurrence]\<rparr>" by (simp add: opened_def)
    from res' obtain attempt where "attempt \<in> set (attempts (db e))" "a_occurrence attempt = o_id occurrence"
      unfolding resolution_def by blast
    with inv have "o_id occurrence \<in> o_id ` set (occurrences (db e))"
      unfolding sched_inv_def attempt_inv_def by metis
    moreover have "o_id occurrence \<notin> o_id ` set (occurrences (db e))" using inv1 d1 by (simp add: sched_inv_def)
    ultimately show ?thesis by simp
  qed
  with k' res' e1(4) show ?thesis by blast
qed


text \<open>An occurrence whose first attempt ran to success.\<close>

definition sample_occurrence :: occurrence_row where
  "sample_occurrence = (new_occurrence sample_schedule hour ValidatedCron LiveCoalesced 1)\<lparr>o_attempts := 1\<rparr>"

definition sample_attempt :: attempt_row where
  "sample_attempt = \<lparr>a_id = 1, a_occurrence = 1, a_no = 1, a_run = 1, a_reference = ''r'', a_submitted = hour\<rparr>"

definition ended_run :: "Status \<Rightarrow> time \<Rightarrow> run_row" where
  "ended_run status t = (new_run KindJob None None ''cif_detail'' status sample_params TriggerScheduler ''r'' None 1 hour)
     \<lparr>r_finished := Some t\<rparr>"

definition ended_db :: "Status \<Rightarrow> sched_db" where
  "ended_db status = sample_tables [sample_schedule] [sample_occurrence] [sample_attempt] [ended_run status (hour + 7)]"

lemma ended_inv: "sched_inv (ended_db status)"
  by (simp add: sched_inv_def ended_db_def sample_tables_def fence_inv_def attempt_inv_def history_of_def schedule_ok_def
    occurrence_keys_ok_def unique_key_def sample_schedule_def sample_occurrence_def new_occurrence_def sample_attempt_def
    currentFence_def)


end
