(* ===== verification/Scheduler_Admin.thy ===== *)
theory Scheduler_Admin
  imports Scheduler_Properties
begin

text \<open>
  Administration of schedules and the pure parts of the scheduler: optimistic concurrency by revision
  numbers, bulk selections, validation of definitions, parameters of an occurrence, and retry delays.
\<close>

section \<open>Revisions\<close>

lemma update_schedules_bump:
  assumes "update_schedules P f e = (Inr n, e')" "0 < n"
    and "\<And>s. P s \<Longrightarrow> s_id s = i \<and> s_revision s = k" "\<And>s. s_id (f s) = s_id s \<and> s_revision (f s) = Suc (s_revision s)"
  shows "\<exists>s \<in> set (schedules (db e')). s_id s = i \<and> s_revision s = Suc k"
proof -
  from assms(1,2) have d': "schedules (db e') = sql_update P f (schedules (db e))" and "0 < sql_changed P f (schedules (db e))"
    by (auto simp: update_schedules_Inr)
  then obtain s where "s \<in> set (schedules (db e))" "P s"
    by (metis less_numeral_extra(3) sql_changed_0_iff sql_update_none)
  then have "f s \<in> set (schedules (db e'))" unfolding d' by (auto simp: set_sql_update)
  with assms(3,4) \<open>P s\<close> show ?thesis by metis
qed

lemma audit_schedules:
  "appendScheduleAudit requester action i metadata now e = (Inr u, e') \<Longrightarrow> schedules (db e') = schedules (db e)"
  by (auto simp: appendScheduleAudit_def Append_def insert_audit_def op_iff split: option.splits if_splits sum.splits)

text \<open>\<open>revised service i n e e'\<close>: an operation on the schedule \<open>i\<close> that expects revision \<open>n\<close> succeeds.\<close>

definition revised :: "('a sched_db_scheme) Service \<Rightarrow> rowid \<Rightarrow> nat \<Rightarrow> ('a sched_db_scheme) env \<Rightarrow> ('a sched_db_scheme) env \<Rightarrow> bool" where
  "revised service i n e e' \<longleftrightarrow>
     (\<exists>input v. ui_ExpectedRevision input = n \<and> Update service i input e = (Inr v, e')) \<or>
     (\<exists>actor requester v. Enable service i n actor requester e = (Inr v, e')) \<or>
     (\<exists>actor requester v. Disable i n actor requester e = (Inr v, e')) \<or>
     (\<exists>actor requester v. Archive i n actor requester e = (Inr v, e'))"

text \<open>The bodies of the transactions: they need the expected revision and leave the next one.\<close>

lemma update_work_revision:
  assumes "update_work service i input e = (Inr u, e')"
  shows "(\<exists>s \<in> set (schedules (db e)). s_id s = i \<and> s_revision s = ui_ExpectedRevision input) \<and>
    (\<exists>s \<in> set (schedules (db e')). s_id s = i \<and> s_revision s = Suc (ui_ExpectedRevision input))"
proof -
  from assms obtain row dfn cursor now e3 e4 where row: "row \<in> set (schedules (db e))" "s_id row = i" "s_revision row = ui_ExpectedRevision input"
    and u: "update_schedules (\<lambda>s. s_id s = i \<and> s_revision s = ui_ExpectedRevision input)
        (update_row dfn cursor (ui_ActorID input)) e3 = (Inr 1, e4)"
    and au: "appendScheduleAudit (ui_Requester input) ''schedule.updated'' i None now e4 = (Inr u, e')"
    by (auto simp: update_work_def op_iff split: if_splits prod.splits dest!: lockSchedule_Inr)
  have "\<exists>s \<in> set (schedules (db e4)). s_id s = i \<and> s_revision s = Suc (ui_ExpectedRevision input)"
    by (rule update_schedules_bump [OF u]) (simp_all add: update_row_def)
  with row audit_schedules [OF au] show ?thesis by auto
qed

lemma enable_work_revision:
  assumes "enable_work service i n actor requester e = (Inr u, e')"
  shows "(\<exists>s \<in> set (schedules (db e)). s_id s = i \<and> s_revision s = n) \<and>
    (\<exists>s \<in> set (schedules (db e')). s_id s = i \<and> s_revision s = Suc n)"
proof -
  from assms obtain row active now transition metadata e1 e2 where row: "row \<in> set (schedules (db e))" "s_id row = i" "s_revision row = n"
    and pr: "prepareEnable service row active now = Inr transition"
    and u: "applyEnableTransitions [transition] actor e1 = (Inr (), e2)"
    and au: "appendScheduleAudit requester ''schedule.state_changed'' i metadata now e2 = (Inr u, e')"
    by (fastforce simp: enable_work_def op_iff split: if_splits dest!: lockSchedule_Inr)
  from pr have tr: "et_schedule transition = row"
    by (auto simp: prepareEnable_def split: if_splits sum.splits prod.splits)
  from u have "update_schedules (\<lambda>s. (s_id s, s_revision s) \<in> set (map (\<lambda>t. (s_id (et_schedule t), s_revision (et_schedule t))) [transition]) \<and>
             \<not> s_enabled s \<and> s_archived s = None) (enable_row [transition] actor) e1 = (Inr 1, e2)"
    by (simp add: applyEnableTransitions_def bind_op_Inr_iff requireCount_Inr)
  then have "\<exists>s \<in> set (schedules (db e2)). s_id s = i \<and> s_revision s = Suc n"
    by (rule update_schedules_bump) (use row tr in \<open>auto simp: enable_row_def\<close>)
  with row audit_schedules [OF au] show ?thesis by auto
qed

lemma stop_work_revision:
  assumes "stop_work i n actor archive requester e = (Inr u, e')"
  shows "(\<exists>s \<in> set (schedules (db e)). s_id s = i \<and> s_revision s = n) \<and>
    (\<exists>s \<in> set (schedules (db e')). s_id s = i \<and> s_revision s = Suc n)"
proof -
  from assms obtain row k now metadata e1 e2 where row: "row \<in> set (schedules (db e))" "s_id row = i" "s_revision row = n"
    and u: "applyStopTransitions [\<lparr>st_schedule = row, st_occurrenceID = k\<rparr>]
         actor archive now e1 = (Inr (), e2)"
    and au: "appendScheduleAudit requester ''schedule.state_changed'' i metadata now e2 = (Inr u, e')"
    by (fastforce simp: stop_work_def op_iff split: if_splits dest!: lockSchedule_Inr)
  let ?t = "\<lparr>st_schedule = row, st_occurrenceID = k\<rparr>"
  from u obtain e3 where "update_schedules (\<lambda>s. (s_id s, s_revision s) \<in> set (map (\<lambda>t. (s_id (st_schedule t), s_revision (st_schedule t))) [?t]))
      (stop_row archive now actor) e3 = (Inr 1, e2)"
    unfolding applyStopTransitions_def by (simp add: bind_op_Inr_iff requireCount_Inr del: filter.simps) blast
  then have "\<exists>s \<in> set (schedules (db e2)). s_id s = i \<and> s_revision s = Suc n"
    by (rule update_schedules_bump) (use row in \<open>auto simp: stop_row_def\<close>)
  with row audit_schedules [OF au] show ?thesis by auto
qed

lemma tx_get_Inr:
  assumes "bind_op (tx_attempt work) (\<lambda>_. Get i) e = (Inr v, e')"
  obtains u e1 e2 where "db e1 = db e" "work e1 = (Inr u, e2)" "db e' = db e2"
proof -
  from assms obtain u e0 where tx: "tx_attempt work e = (Inr u, e0)" and g: "Get i e0 = (Inr v, e')" by (auto simp: op_iff)
  have "db e' = db e0" using g by (auto simp: Get_def op_iff dest!: lockSchedule_Inr)
  with tx that show thesis by (auto elim!: tx_attempt_InrE)
qed

lemma revised_row:
  assumes "revised service i n e e'"
  shows "(\<exists>s \<in> set (schedules (db e)). s_id s = i \<and> s_revision s = n) \<and>
    (\<exists>s \<in> set (schedules (db e')). s_id s = i \<and> s_revision s = Suc n)"
  using assms unfolding revised_def Update_def Enable_def Disable_def Archive_def stop_def
  by (elim disjE exE conjE tx_get_Inr) (use update_work_revision enable_work_revision stop_work_revision in metis)+

text \<open>
  C12. No update is lost: once an update, enable, disable or archive of a schedule that expected revision
  \<open>n\<close> has succeeded, no later operation that expects the same revision succeeds, whatever happens in
  between.
\<close>

theorem no_lost_update:
  assumes "system_inv (db e)" "revised (service_of catalog lib sha message) i n e e1"
    and "(system_step sha allowed catalog lib message)\<^sup>*\<^sup>* (db e1) (db e2)"
  shows "\<not> revised (service_of catalog lib sha message) i n e2 e3"
proof
  assume "revised (service_of catalog lib sha message) i n e2 e3"
  with revised_row obtain s2 where s2: "s2 \<in> set (schedules (db e2))" "s_id s2 = i" "s_revision s2 = n" by blast
  have "system_step sha allowed catalog lib message (db e) (db e1)"
    using assms(2) unfolding revised_def by (elim disjE exE conjE) (blast intro: system_step.intros)+
  then have inv1: "system_inv (db e1)" using system_history(1) [OF assms(1) r_into_rtranclp] by blast
  from revised_row [OF assms(2)] obtain s1 where s1: "s1 \<in> set (schedules (db e1))" "s_id s1 = i" "s_revision s1 = Suc n" by blast
  note hist = system_history [OF inv1 assms(3)]
  obtain s' where s': "s' \<in> set (schedules (db e2))" "schedule_step s1 s'" by (rule table_evolves_member [OF hist(2) s1(1)])
  have "sched_inv (db e2)" using hist(1) by (simp add: system_inv_def)
  from same_id_schedule [OF this s2(1) s'(1)] s1 s2 s'(2) show False by (auto simp: schedule_step_def)
qed

lemma sample_system_inv: "system_inv (db due_env)"
  by (simp add: system_inv_def linked_def run_inv_empty sched_inv_def fence_inv_def attempt_inv_def occurrence_keys_ok_def
    unique_key_def due_env_def sample_server_def sample_tables_def sample_schedule_def schedule_ok_def)

theorem no_lost_update_witness:
  "let q = Disable 1 1 None None due_env
   in (case fst q of Inl x \<Rightarrow> False | Inr v \<Rightarrow> sc_Revision v = 2) \<and> (\<forall>e3. \<not> revised sample_service 1 1 (snd q) e3)"
proof -
  define q where "q = Disable 1 1 None None due_env"
  have ok: "case fst q of Inl x \<Rightarrow> False | Inr v \<Rightarrow> sc_Revision v = 2" unfolding q_def by code_simp
  then have "revised sample_service 1 1 due_env (snd q)"
    unfolding revised_def q_def by (cases "Disable 1 1 None None due_env") (auto split: sum.splits)
  from no_lost_update [OF sample_system_inv this [unfolded sample_service_def], of "\<lambda>_. True" "snd q"] ok
  show ?thesis unfolding q_def [symmetric] Let_def sample_service_def by blast
qed

lemma conflict_tx:
  assumes "healthy e" "filter (\<lambda>s. s_id s = i) (schedules (db e)) = [row]"
    and "\<And>e1. bind_op db_now (\<lambda>now. bind_op (lockSchedule i) (k now)) e1 = work e1"
    and "\<And>now e2. k now row e2 = (Inl ErrConflict, e2)"
  shows "\<exists>e'. bind_op (tx_attempt work) (\<lambda>_. Get i) e = (Inl ErrConflict, e') \<and> db e' = db e"
proof -
  have w: "work = bind_op db_now (\<lambda>now. bind_op (lockSchedule i) (k now))" using assms(3) by (intro ext) simp
  show ?thesis
    unfolding w using assms(1,2,4)
    by (simp add: bind_op_def tx_attempt_def begin_tx_def query_def stmt_def Let_def healthy_def db_now_def lockSchedule_def)
qed

text \<open>
  An update, enable, disable or archive that names another revision than the stored one is refused with
  \<open>ErrConflict\<close> and changes nothing.
\<close>

theorem stale_revision:
  assumes "healthy e" "filter (\<lambda>s. s_id s = i) (schedules (db e)) = [row]" "s_revision row \<noteq> n"
  shows "(\<exists>e'. Update service i (input\<lparr>ui_ExpectedRevision := n\<rparr>) e = (Inl ErrConflict, e') \<and> db e' = db e) \<and>
     (\<exists>e'. Enable service i n actor requester e = (Inl ErrConflict, e') \<and> db e' = db e) \<and>
     (\<exists>e'. Disable i n actor requester e = (Inl ErrConflict, e') \<and> db e' = db e) \<and>
     (\<exists>e'. Archive i n actor requester e = (Inl ErrConflict, e') \<and> db e' = db e)"
  unfolding Update_def Enable_def Disable_def Archive_def stop_def
  by (intro conjI conflict_tx [OF assms(1,2)]; (subst update_work_def enable_work_def stop_work_def; rule refl)?)
    (simp_all add: assms(3) fail_op_def)

theorem stale_revision_witness:
  "\<exists>e'. Disable 1 5 None None due_env = (Inl ErrConflict, e') \<and> schedules (db e') = [sample_schedule]"
proof -
  have "healthy due_env" "filter (\<lambda>s. s_id s = 1) (schedules (db due_env)) = [sample_schedule]" "s_revision sample_schedule \<noteq> 5"
    by (simp_all add: healthy_def due_env_def sample_server_def sample_tables_def sample_schedule_def)
  from stale_revision [OF this, of sample_service undefined None None]
  show ?thesis by (auto simp: due_env_def sample_server_def sample_tables_def)
qed

section \<open>Bulk selections\<close>

lemma dedup_ids_Inl: "dedup_ids ids submitted = Inl x \<longleftrightarrow> 0 \<in> set submitted \<and> x = ErrInvalidSelection"
  by (induction ids submitted rule: dedup_ids.induct) auto

lemma dedup_ids_Inr:
  "dedup_ids ids submitted = Inr out \<Longrightarrow> distinct ids \<Longrightarrow> 0 \<notin> set ids \<Longrightarrow>
     distinct out \<and> set out = set ids \<union> set submitted \<and> 0 \<notin> set out"
  by (induction ids submitted rule: dedup_ids.induct) (auto split: if_splits)

text \<open>
  C33. A bulk selection is accepted exactly if it is not empty, names no zero identifier and at most 25
  different schedules; the result lists each selected schedule once, in ascending order.
\<close>

theorem normalizeBulkIDs_spec:
  "normalizeBulkIDs submitted =
     (if submitted = [] \<or> 0 \<in> set submitted \<or> card (set submitted) > MaxBulkSelection then Inl ErrInvalidSelection
      else Inr (sorted_list_of_set (set submitted)))"
proof (cases "dedup_ids [] submitted")
  case (Inl x)
  moreover from this have "0 \<in> set submitted" "x = ErrInvalidSelection" by (simp_all add: dedup_ids_Inl)
  ultimately show ?thesis by (auto simp: normalizeBulkIDs_def)
next
  case (Inr out)
  from dedup_ids_Inr [OF this] have out: "distinct out" "set out = set submitted" "0 \<notin> set out" by auto
  then have "sort out = sorted_list_of_set (set submitted)"
    using sorted_list_of_set_sort_remdups [of out] by (simp add: distinct_remdups_id)
  moreover have "length (sort out) = card (set submitted)" using out distinct_card [of out] by simp
  ultimately show ?thesis using Inr out by (simp add: normalizeBulkIDs_def)
qed

section \<open>Retry delays\<close>

text \<open>
  The delay before the next attempt doubles from one minute with every failed attempt and is capped at
  30 minutes; it never shrinks from one attempt to the next.
\<close>

theorem retryDelay_doubles:
  "retryDelay n = (if n = 0 then 0 else minute * min 30 (2 ^ (unat n - 1))) \<and>
   (n \<le> m \<longrightarrow> retryDelay n \<le> retryDelay m)"
proof -
  have eq: "retryDelay n = (if n = 0 then 0 else minute * min 30 (2 ^ (unat n - 1)))" for n
  proof (cases "n = 0 \<or> n \<ge> 6")
    case True
    moreover have "(30::int) \<le> 2 ^ (unat n - 1)" if "n \<ge> 6"
    proof -
      have "6 \<le> unat n" using that by (simp add: word_le_nat_alt)
      then have "(2::int) ^ 5 \<le> 2 ^ (unat n - 1)" by (intro power_increasing) auto
      then show ?thesis by simp
    qed
    ultimately show ?thesis by (auto simp: retryDelay_def)
  next
    case False
    then have "unat n \<noteq> 0" "unat n < 6" by (auto simp: word_le_nat_alt unat_eq_0)
    then have n: "unat n \<in> {1, 2, 3, 4, 5}" by auto
    have "unat (n - 1) = unat n - 1" using False by (simp add: unat_minus_one)
    with False n show ?thesis by (auto simp: retryDelay_def)
  qed
  have "retryDelay n \<le> retryDelay m" if "n \<le> m"
  proof (cases "n = 0")
    case True
    then show ?thesis by (simp add: eq)
  next
    case False
    with that have "m \<noteq> 0" by (metis word_le_0_iff)
    moreover have "unat n - 1 \<le> unat m - 1" using that by (simp add: word_le_nat_alt)
    then have "(2::int) ^ (unat n - 1) \<le> 2 ^ (unat m - 1)" by (intro power_increasing) auto
    ultimately show ?thesis using False by (simp add: eq min_le_iff_disj)
  qed
  with eq show ?thesis by blast
qed

theorem retryDelay_doubles_witness:
  "retryDelay 3 = 4 * minute \<and> retryDelay 3 \<le> retryDelay 9"
  using retryDelay_doubles [of 3 9] by simp

section \<open>Definitions\<close>

lemma trim_left_stops: "strip_prefix ps (trim_left ps s) = None"
  by (induction ps s rule: trim_left.induct) (subst trim_left.simps, auto split: option.splits)

lemma trim_left_fixed: "strip_prefix ps s = None \<Longrightarrow> trim_left ps s = s"
  by (simp add: trim_left.simps)

lemma trim_left_suffix: "\<exists>p. s = p @ trim_left ps s"
proof (induction ps s rule: trim_left.induct)
  case (1 ps s)
  show ?case
  proof (cases "strip_prefix ps s")
    case None
    then show ?thesis by (simp add: trim_left_fixed)
  next
    case (Some t)
    have "\<exists>p. s = p @ t" using Some by (induction ps) (auto split: if_splits intro: append_take_drop_id [symmetric])
    moreover from "1.IH" [OF Some] obtain q where "t = q @ trim_left ps t" by blast
    moreover have "trim_left ps s = trim_left ps t" using Some by (simp add: trim_left.simps [of ps s])
    ultimately show ?thesis by (metis append.assoc)
  qed
qed

lemma strip_prefix_None:
  "strip_prefix ps s = None \<longleftrightarrow> (\<forall>p \<in> set ps. p \<noteq> [] \<longrightarrow> take (length p) s \<noteq> p)"
  by (induction ps) auto

lemma strip_prefix_shortened:
  assumes "strip_prefix ps (t @ u) = None"
  shows "strip_prefix ps t = None"
  unfolding strip_prefix_None
proof (intro ballI impI notI)
  fix p assume p: "p \<in> set ps" "p \<noteq> []" "take (length p) t = p"
  then have "length p \<le> length t" by (metis length_take min.absorb_iff2 min.commute)
  then have "take (length p) (t @ u) = p" using p(3) by simp
  with assms p(1,2) show False unfolding strip_prefix_None by blast
qed

lemma TrimSpace_idem [simp]: "TrimSpace (TrimSpace s) = TrimSpace s"
proof -
  let ?u = "trim_left space_strings s" and ?t = "TrimSpace s"
  obtain p where "rev ?u = p @ trim_left rev_space_strings (rev ?u)" using trim_left_suffix by blast
  then have "?u = ?t @ rev p" unfolding TrimSpace_def by (metis rev_append rev_rev_ident)
  then have "trim_left space_strings ?t = ?t"
    using trim_left_stops [of space_strings s] strip_prefix_shortened trim_left_fixed by metis
  moreover have "trim_left rev_space_strings (rev ?t) = rev ?t"
    unfolding TrimSpace_def by (simp add: trim_left_fixed trim_left_stops)
  ultimately show ?thesis by (metis TrimSpace_def rev_rev_ident)
qed

lemma canonicalPolicy_idem:
  "canonicalPolicy sha kind version payload = Inr p \<Longrightarrow>
     canonicalPolicy sha (po_Kind p) (po_Version p) (po_Payload p) = Inr p"
  by (auto simp: canonicalPolicy_def Let_def unmarshal_unit_def split: if_splits raw_json.splits sum.splits json.splits)

lemma validatePolicy_idem: "validatePolicy sha policy = Inr p \<Longrightarrow> validatePolicy sha p = Inr p"
proof -
  assume v: "validatePolicy sha policy = Inr p"
  then have "canonicalPolicy sha (po_Kind policy) (po_Version policy) (po_Payload policy) = Inr p"
    by (auto simp: validatePolicy_def split: sum.splits if_splits)
  from canonicalPolicy_idem [OF this] show ?thesis by (simp add: validatePolicy_def)
qed

lemma parseCron_trim: "parseCron lib (TrimSpace expression) (TrimSpace timezone) t = parseCron lib expression timezone t"
  by (simp add: parseCron_def)

text \<open>
  Validation of a definition is idempotent: what \<open>validateDefinition\<close> returns is valid as it stands and
  validates to itself, so a stored definition keeps its meaning every time a sweep reads it back.
\<close>

theorem validateDefinition_idem:
  assumes "validateDefinition sha lib catalog definition0 t = Inr (d, parsed)"
  shows "validateDefinition sha lib catalog d t = Inr (d, parsed) \<and> df_Name d \<noteq> [] \<and>
     (\<exists>j. Find catalog (df_JobKey d) = Some j) \<and> cron_Next lib parsed t \<noteq> None"
proof -
  let ?d = "definition0\<lparr>df_Name := TrimSpace (df_Name definition0), df_JobKey := TrimSpace (df_JobKey definition0),
    df_CronExpression := TrimSpace (df_CronExpression definition0), df_Timezone := TrimSpace (df_Timezone definition0)\<rparr>"
  from assms obtain policy j where d: "d = ?d\<lparr>df_Policy := policy\<rparr>" and p: "validatePolicy sha (df_Policy definition0) = Inr policy"
    and j: "Find catalog (df_JobKey d) = Some j" and n: "df_Name d \<noteq> []"
    and c: "parseCron lib (df_CronExpression d) (df_Timezone d) t = Inr parsed"
    by (auto simp: validateDefinition_def Let_def split: if_splits sum.splits option.splits)
  have "cron_Next lib parsed t \<noteq> None"
    using c by (auto simp: parseCron_def Let_def split: if_splits option.splits)
  moreover have "validateDefinition sha lib catalog d t = Inr (d, parsed)"
    using assms validatePolicy_idem [OF p] p unfolding d
    by (auto simp: validateDefinition_def Let_def parseCron_trim split: if_splits sum.splits option.splits)
  ultimately show ?thesis using j n by blast
qed

theorem validateDefinition_idem_witness:
  "case validateDefinition sample_sha sample_cron sample_catalog ((row_definition sample_schedule)\<lparr>df_Name := '' hourly ''\<rparr>) hour of
     Inl x \<Rightarrow> False
   | Inr (d, parsed) \<Rightarrow> df_Name d = ''hourly'' \<and> validateDefinition sample_sha sample_cron sample_catalog d hour = Inr (d, parsed)"
proof -
  let ?v = "validateDefinition sample_sha sample_cron sample_catalog ((row_definition sample_schedule)\<lparr>df_Name := '' hourly ''\<rparr>) hour"
  have "case ?v of Inl x \<Rightarrow> False | Inr (d, parsed) \<Rightarrow> df_Name d = ''hourly''" by code_simp
  then obtain d parsed where "?v = Inr (d, parsed)" "df_Name d = ''hourly''" by (auto split: sum.splits prod.splits)
  with validateDefinition_idem [OF this(1)] show ?thesis by simp
qed

end
