(* ===== verification/Report_Policy.thy ===== *)
theory Report_Policy
  imports Report_Scanner
begin

text \<open>
  The read-only policy of the reporting component (\<^verbatim>\<open>src/internal/reporting/readonly.go\<close>), a check of the tokens the
  scanner finds. Loops over an index are recursions over the tokens from that index on, with the index as an argument
  where the code uses its value.

  Tokens are upper-case identifiers, the marks of the scanner and the UTF-8 encodings of single bytes, so the runes whose lower
  case \<open>ToLower\<close> takes are below 256.

  Shown: the policy looks at a token list only up to the number of \<open>?\<close> marks, so replacing a mark by a list of
  marks keeps a statement acceptable.
\<close>

section \<open>Tokens\<close>

definition strings_Join :: "string list \<Rightarrow> string \<Rightarrow> string" where
  "strings_Join parts sep = (case parts of [] \<Rightarrow> [] | p # ps \<Rightarrow> p @ concat (map (\<lambda>q. sep @ q) ps))"

definition latin_lower :: "rune \<Rightarrow> rune" where
  "latin_lower r = (if 65 \<le> r \<and> r \<le> 90 \<or> 0xC0 \<le> r \<and> r \<le> 0xDE \<and> r \<noteq> 0xD7 then r + 32 else r)"

definition ToLower :: "string \<Rightarrow> string" where
  "ToLower s = strings_Map latin_lower s"

section \<open>The policy\<close>

text \<open>The loop over the tokens: the final depth, unless a token is refused.\<close>

definition lock_functions :: "string list" where
  "lock_functions = [''GET_LOCK'', ''RELEASE_LOCK'', ''RELEASE_ALL_LOCKS'']"

definition refused_at :: "(nat \<rightharpoonup> string) \<Rightarrow> nat \<Rightarrow> string \<Rightarrow> string list \<Rightarrow> bool" where
  "refused_at names i token rest \<longleftrightarrow>
     token = ''FOR'' \<and> rest \<noteq> [] \<and> (hd rest = ''UPDATE'' \<or> hd rest = ''SHARE'') \<or>
     token = ''LOCK'' \<and> 3 \<le> length rest \<and> strings_Join (token # take 3 rest) '' '' = ''LOCK IN SHARE MODE'' \<or>
     (let functionName = (case names i of None \<Rightarrow> token | Some name \<Rightarrow> name)
      in functionName \<in> set lock_functions \<and> rest \<noteq> [] \<and> hd rest = ''('' \<or>
         functionName = ''LAST_INSERT_ID'' \<and> 2 \<le> length rest \<and> hd rest = ''('' \<and> rest ! 1 \<noteq> '')'')"

fun policy_loop :: "(nat \<rightharpoonup> string) \<Rightarrow> nat \<Rightarrow> int \<Rightarrow> string list \<Rightarrow> int option" where
  "policy_loop names i depth [] = Some depth"
| "policy_loop names i depth (token # rest) =
     (if token = '';'' \<or> token = '':='' \<or> token = ''INTO'' then None
      else let depth' = (if token = ''('' then depth + 1 else if token = '')'' then depth - 1 else depth)
        in if token = '')'' \<and> depth' < 0 then None
           else if refused_at names i token rest then None
           else policy_loop names (Suc i) depth' rest)"

fun closing_loop :: "nat \<Rightarrow> int \<Rightarrow> string list \<Rightarrow> nat option" where
  "closing_loop i depth [] = None"
| "closing_loop i depth (token # rest) =
     (if token = ''('' then closing_loop (Suc i) (depth + 1) rest
      else if token = '')'' then (if depth - 1 = 0 then Some i else closing_loop (Suc i) (depth - 1) rest)
      else closing_loop (Suc i) depth rest)"

definition closingParen :: "string list \<Rightarrow> nat \<Rightarrow> nat option" where
  "closingParen tokens start = closing_loop start 0 (drop start tokens)"

lemma closing_loop_bounds: "closing_loop i depth tokens = Some k \<Longrightarrow> i \<le> k \<and> k < i + length tokens"
  by (induction i depth tokens rule: closing_loop.induct) (auto split: if_splits)

lemma closingParen_bounds:
  "closingParen tokens start = Some k \<Longrightarrow> start \<le> k \<and> k < length tokens"
  using closing_loop_bounds [of start 0 "drop start tokens" k] by (cases "start \<le> length tokens") (auto simp: closingParen_def)

text \<open>The loop over the common table expressions is \<open>cte_loop\<close>; \<open>columns_end\<close> is the position after the optional column names.\<close>

definition columns_end :: "string list \<Rightarrow> nat \<Rightarrow> nat option" where
  "columns_end tokens i =
     (if i < length tokens \<and> tokens ! i = ''('' then map_option Suc (closingParen tokens i) else Some i)"

lemma columns_end_bound: "columns_end tokens i = Some j \<Longrightarrow> i \<le> j"
  by (auto simp: columns_end_def split: if_splits dest: closingParen_bounds)

function (sequential) readOnlyQuery :: "string list \<Rightarrow> bool" and cte_loop :: "string list \<Rightarrow> nat \<Rightarrow> bool" where
  "readOnlyQuery tokens =
     (tokens \<noteq> [] \<and>
      (tokens ! 0 = ''SELECT'' \<or>
       tokens ! 0 = ''WITH'' \<and> cte_loop tokens (if 1 < length tokens \<and> tokens ! 1 = ''RECURSIVE'' then 2 else 1)))"
| "cte_loop tokens i =
     (if i < length tokens then
        if tokens ! i \<noteq> ''<quoted>'' \<and> \<not> parameterKeyPattern (ToLower (tokens ! i)) then False
        else case columns_end tokens (i + 1) of
          None \<Rightarrow> False
        | Some j \<Rightarrow>
            if length tokens \<le> j + 1 \<or> tokens ! j \<noteq> ''AS'' \<or> tokens ! (j + 1) \<noteq> ''('' then False
            else case closingParen tokens (j + 1) of
              None \<Rightarrow> False
            | Some k \<Rightarrow>
                if \<not> readOnlyQuery (take (k - (j + 2)) (drop (j + 2) tokens)) then False
                else if k + 1 < length tokens \<and> tokens ! (k + 1) = '','' then cte_loop tokens (k + 2)
                else k + 1 < length tokens \<and> tokens ! (k + 1) = ''SELECT''
      else False)"
  by pat_completeness auto

termination
proof (relation "inv_image (less_than <*lex*> less_than)
    (\<lambda>x. case x of Inl tokens \<Rightarrow> (length tokens, Suc (length tokens)) | Inr (tokens, i) \<Rightarrow> (length tokens, length tokens - i))", goal_cases)
  case 1
  then show ?case by (auto intro!: wf_inv_image wf_lex_prod)
next
  case (2 tokens)
  then show ?case by simp
next
  case (3 tokens i j k)
  then show ?case using closingParen_bounds [of tokens "j + 1" k] by auto
next
  case (4 tokens i j k)
  then show ?case using closingParen_bounds [of tokens "j + 1" k] columns_end_bound [of tokens "i + 1" j] by auto
qed

declare readOnlyQuery.simps [simp del] cte_loop.simps [simp del]

definition ValidateReadOnlyStatement :: "(rune \<Rightarrow> rune) \<Rightarrow> string \<Rightarrow> SQLMode \<Rightarrow> unit result" where
  "ValidateReadOnlyStatement upper statement mode =
     (case scanStatement upper statement mode of
        Inl _ \<Rightarrow> Inl (ErrInvalid [])
      | Inr scan \<Rightarrow>
          if ss_ExecutableComment scan \<or> ss_Tokens scan = [] then Inl (ErrInvalid [])
          else let tokens = (if last (ss_Tokens scan) = '';'' then butlast (ss_Tokens scan) else ss_Tokens scan)
            in case policy_loop (ss_QuotedNames scan) 0 0 tokens of
                 None \<Rightarrow> Inl (ErrInvalid [])
               | Some depth \<Rightarrow> if depth \<noteq> 0 \<or> \<not> readOnlyQuery tokens then Inl (ErrInvalid []) else Inr ())"

section \<open>The policy over suffixes of the token list\<close>

text \<open>The tokens before and after the parenthesis that closes \<open>depth\<close> open ones.\<close>

fun split_paren :: "int \<Rightarrow> string list \<Rightarrow> (string list \<times> string list) option" where
  "split_paren depth [] = None"
| "split_paren depth (token # rest) =
     (if token = '')'' \<and> depth = 1 then Some ([], rest)
      else map_option (apfst (Cons token))
        (split_paren (if token = ''('' then depth + 1 else if token = '')'' then depth - 1 else depth) rest))"

lemma closing_loop_split:
  "closing_loop i depth tokens = map_option (\<lambda>(inner, after). i + length inner) (split_paren depth tokens)"
  by (induction i depth tokens rule: closing_loop.induct)
    (auto simp: option.map_comp comp_def case_prod_unfold)

lemma split_paren_parts: "split_paren depth tokens = Some (inner, after) \<Longrightarrow> tokens = inner @ '')'' # after"
  by (induction depth tokens arbitrary: inner rule: split_paren.induct) (auto split: if_splits)

lemma closingParen_open:
  assumes "drop i tokens = ''('' # rest"
  shows "closingParen tokens i = map_option (\<lambda>(inner, after). i + 1 + length inner) (split_paren 1 rest)"
  unfolding closingParen_def assms by (simp add: closing_loop_split [of "Suc i"])

lemma closingParen_split:
  assumes "drop i tokens = ''('' # rest"
  shows "closingParen tokens i = Some k \<longleftrightarrow>
     (\<exists>after. split_paren 1 rest = Some (take (k - (i + 1)) rest, after) \<and> drop (k + 1) tokens = after \<and> i + 1 \<le> k)"
proof
  assume "closingParen tokens i = Some k"
  then obtain inner after where k: "k = i + 1 + length inner" and s: "split_paren 1 rest = Some (inner, after)"
    by (auto simp: closingParen_open [OF assms])
  have "drop (k + 1) tokens = drop (length inner + 2) (drop i tokens)" by (simp add: k add.commute)
  with split_paren_parts [OF s] assms s k show "\<exists>after. split_paren 1 rest = Some (take (k - (i + 1)) rest, after) \<and>
      drop (k + 1) tokens = after \<and> i + 1 \<le> k" by simp
next
  assume "\<exists>after. split_paren 1 rest = Some (take (k - (i + 1)) rest, after) \<and> drop (k + 1) tokens = after \<and> i + 1 \<le> k"
  then obtain after where s: "split_paren 1 rest = Some (take (k - (i + 1)) rest, after)" and k: "i + 1 \<le> k" by blast
  have "k - (i + 1) \<le> length rest" using split_paren_parts [OF s] by (metis append_take_drop_id length_take linear list.distinct(1) self_append_conv take_all_iff)
  with s k show "closingParen tokens i = Some k" by (simp add: closingParen_open [OF assms])
qed

definition after_columns :: "string list \<Rightarrow> string list option" where
  "after_columns tokens =
     (case tokens of t # rest \<Rightarrow> if t = ''('' then map_option snd (split_paren 1 rest) else Some tokens | [] \<Rightarrow> Some [])"

definition cte_name :: "string \<Rightarrow> bool" where
  "cte_name t \<longleftrightarrow> t = ''<quoted>'' \<or> parameterKeyPattern (ToLower t)"

inductive ro :: "string list \<Rightarrow> bool" and ctes :: "string list \<Rightarrow> bool" where
  select: "ro (''SELECT'' # rest)"
| with_plain: "ctes rest \<Longrightarrow> hd rest \<noteq> ''RECURSIVE'' \<Longrightarrow> ro (''WITH'' # rest)"
| with_recursive: "ctes rest \<Longrightarrow> ro (''WITH'' # ''RECURSIVE'' # rest)"
| cte: "cte_name t \<Longrightarrow> after_columns rest = Some (''AS'' # ''('' # open) \<Longrightarrow> split_paren 1 open = Some (body, e # after) \<Longrightarrow>
    ro body \<Longrightarrow> e = ''SELECT'' \<or> e = '','' \<and> ctes after \<Longrightarrow> ctes (t # rest)"

inductive_cases ctes_NilE: "ctes []"

lemma columns_end_after:
  "i \<le> length tokens \<Longrightarrow> map_option (\<lambda>j. drop j tokens) (columns_end tokens i) = after_columns (drop i tokens)"
proof (cases "drop i tokens")
  case Nil
  then show ?thesis by (simp add: columns_end_def after_columns_def)
next
  case (Cons t rest)
  then have t: "i < length tokens" "tokens ! i = t" by (metis drop_all linorder_not_less list.distinct(1)) (metis Cons drop_all hd_drop_conv_nth linorder_not_less list.distinct(1) list.sel(1))
  show ?thesis
  proof (cases "t = ''(''")
    case True
    have "drop (Suc (i + 1 + length inner)) tokens = after" if "split_paren 1 rest = Some (inner, after)" for inner after
    proof -
      have "drop (Suc (i + 1 + length inner)) tokens = drop (length inner + 2) (drop i tokens)" by (simp add: add.commute)
      with Cons True split_paren_parts [OF that] show ?thesis by simp
    qed
    with True Cons t show ?thesis
      by (cases "split_paren 1 rest") (auto simp: columns_end_def after_columns_def closingParen_open)
  next
    case False
    with Cons t show ?thesis by (simp add: columns_end_def after_columns_def)
  qed
qed

lemma drop_nth: "drop i xs = y # ys \<Longrightarrow> i < length xs \<and> xs ! i = y \<and> drop (Suc i) xs = ys"
  by (metis drop_Suc drop_all hd_drop_conv_nth linorder_not_less list.distinct(1) list.sel(1) list.sel(3) tl_drop)

lemma cte_loop_unfold:
  assumes "drop i tokens = t # rest"
  shows "cte_loop tokens i \<longleftrightarrow> cte_name t \<and> (\<exists>opened body e after k. after_columns rest = Some (''AS'' # ''('' # opened) \<and>
     split_paren 1 opened = Some (body, e # after) \<and> readOnlyQuery body \<and> drop k tokens = after \<and> k \<le> length tokens \<and> i < k \<and>
     (e = ''SELECT'' \<or> e = '','' \<and> cte_loop tokens k))" (is "_ \<longleftrightarrow> ?R")
proof
  have i: "i < length tokens" "tokens ! i = t" "drop (i + 1) tokens = rest" using drop_nth [OF assms] by auto
  have cols: "map_option (\<lambda>j. drop j tokens) (columns_end tokens (i + 1)) = after_columns rest"
    using columns_end_after [of "i + 1" tokens] i by simp
  {
    assume loop: "cte_loop tokens i"
    then obtain j k where name: "cte_name t" and j: "columns_end tokens (i + 1) = Some j" "j + 1 < length tokens"
      "tokens ! j = ''AS''" "tokens ! (j + 1) = ''(''" and k: "closingParen tokens (j + 1) = Some k"
      and body: "readOnlyQuery (take (k - (j + 2)) (drop (j + 2) tokens))" and "k + 1 < length tokens"
      and nxt: "tokens ! (k + 1) = '','' \<and> cte_loop tokens (k + 2) \<or> tokens ! (k + 1) = ''SELECT''"
      using i by (subst (asm) cte_loop.simps) (auto simp: cte_name_def split: if_splits option.splits)
    have d: "drop j tokens = ''AS'' # ''('' # drop (j + 2) tokens"
      using j(2-4) by (metis Cons_nth_drop_Suc Suc_eq_plus1 Suc_lessD add_2_eq_Suc')
    then have dj: "drop (j + 1) tokens = ''('' # drop (j + 2) tokens" using drop_nth by fastforce
    from k obtain after' where s: "split_paren 1 (drop (j + 2) tokens) = Some (take (k - (j + 2)) (drop (j + 2) tokens), after')"
      "drop (k + 1) tokens = after'" "j + 2 \<le> k" unfolding closingParen_split [OF dj] by auto
    have "after' = tokens ! (k + 1) # drop (k + 2) tokens"
      using \<open>k + 1 < length tokens\<close> s(2) by (metis Cons_nth_drop_Suc add_2_eq_Suc' Suc_eq_plus1)
    moreover have "i < k + 2" using columns_end_bound [OF j(1)] s(3) by simp
    ultimately show ?R
      using name cols j(1) d s body nxt \<open>k + 1 < length tokens\<close> by (intro conjI exI [of _ "k + 2"] exI) auto
  }
  assume ?R
  then obtain opened body e after k where name: "cte_name t" and ac: "after_columns rest = Some (''AS'' # ''('' # opened)"
    and sp: "split_paren 1 opened = Some (body, e # after)" and body: "readOnlyQuery body"
    and k: "drop k tokens = after" "k \<le> length tokens" and e: "e = ''SELECT'' \<or> e = '','' \<and> cte_loop tokens k" by blast
  from ac cols obtain j where j: "columns_end tokens (i + 1) = Some j" "drop j tokens = ''AS'' # ''('' # opened" by auto
  have j': "tokens ! j = ''AS''" "drop (j + 1) tokens = ''('' # opened" "tokens ! (j + 1) = ''(''" "j + 1 < length tokens" "drop (j + 2) tokens = opened"
    using drop_nth [OF j(2)] drop_nth [of "Suc j" tokens "''(''" opened] by auto
  have parts: "opened = body @ '')'' # e # after" by (rule split_paren_parts [OF sp])
  let ?c = "j + 2 + length body"
  have c: "closingParen tokens (j + 1) = Some ?c" using closingParen_open [OF j'(2)] sp by simp
  have "drop (?c + 1) tokens = drop (length body + 1) opened"
    unfolding j'(5) [symmetric] drop_drop by (simp only: ac_simps)
  then have ea: "drop (?c + 1) tokens = e # after" using parts by simp
  have "k = ?c + 2"
  proof -
    have "length tokens - k = length after" "length tokens = ?c + 1 + Suc (length after)"
      using k(1) ea drop_nth [OF ea] length_drop [of "?c + 1" tokens] by auto
    then show ?thesis using k(2) by simp
  qed
  then show "cte_loop tokens i"
    using i name j(1) j' c body parts e drop_nth [OF ea]
    by (subst cte_loop.simps) (auto simp: cte_name_def)
qed

lemma cte_loop_end: "length tokens \<le> i \<Longrightarrow> \<not> cte_loop tokens i"
  by (subst cte_loop.simps) simp

lemma after_columns_length: "after_columns tokens = Some rest \<Longrightarrow> length rest \<le> length tokens"
proof (cases tokens)
  case (Cons t r)
  assume "after_columns tokens = Some rest"
  with Cons show ?thesis
    by (auto simp: after_columns_def split: if_splits dest: split_paren_parts)
qed (simp add: after_columns_def)

lemma after_columns_suffix: "after_columns tokens = Some rest \<Longrightarrow> \<exists>p. tokens = p @ rest"
proof (cases tokens)
  case (Cons t r)
  assume "after_columns tokens = Some rest"
  with Cons consider "rest = tokens" | inner where "t = ''(''" "split_paren 1 r = Some (inner, rest)"
    by (auto simp: after_columns_def split: if_splits)
  then show ?thesis
  proof cases
    case 1
    then show ?thesis by simp
  next
    case 2
    with Cons split_paren_parts [OF 2(2)] show ?thesis by (intro exI [of _ "t # inner @ ['')'']"]) simp
  qed
qed (simp add: after_columns_def)

lemma cte_body_shorter:
  assumes "drop i tokens = t # rest" "after_columns rest = Some (''AS'' # ''('' # opened)" "split_paren 1 opened = Some (body, after)"
  shows "length body < length tokens"
proof -
  have "length (t # rest) \<le> length tokens" using arg_cong [OF assms(1), of length] by simp
  with after_columns_length [OF assms(2)] split_paren_parts [OF assms(3)] show ?thesis by simp
qed

lemma cte_loop_ctes:
  assumes body: "\<And>body. length body < length tokens \<Longrightarrow> readOnlyQuery body \<longleftrightarrow> ro body"
  shows "cte_loop tokens i \<longleftrightarrow> ctes (drop i tokens)"
proof (induction "length tokens - i" arbitrary: i rule: less_induct)
  case less
  show ?case
  proof (cases "drop i tokens")
    case Nil
    then show ?thesis using cte_loop_end ctes_NilE by auto
  next
    case (Cons t rest)
    have later: "cte_loop tokens k \<longleftrightarrow> ctes (drop k tokens)" if "i < k" "k \<le> length tokens" for k
      using less [of k] that by auto
    have shorter: "readOnlyQuery b \<longleftrightarrow> ro b"
      if "after_columns rest = Some (''AS'' # ''('' # opened)" "split_paren 1 opened = Some (b, after)" for opened b after
      by (rule body [OF cte_body_shorter [OF Cons that]])
    have position: "\<exists>k. drop k tokens = after \<and> k \<le> length tokens \<and> i < k \<and> (cte_loop tokens k \<longleftrightarrow> ctes after)"
      if c: "after_columns rest = Some (''AS'' # ''('' # opened)" and sp: "split_paren 1 opened = Some (b, e # after)" for opened b e after
    proof -
      obtain p where "rest = p @ ''AS'' # ''('' # opened" using after_columns_suffix [OF c] by blast
      then have "tokens = take i tokens @ t # p @ ''AS'' # ''('' # b @ '')'' # e # after"
        using Cons split_paren_parts [OF sp] by (metis append_take_drop_id)
      moreover have "length (take i tokens) = i" using drop_nth [OF Cons] by simp
      ultimately have "\<exists>q. tokens = q @ after \<and> i < length q"
        by (intro exI [of _ "take i tokens @ t # p @ ''AS'' # ''('' # b @ ['')'', e]"] conjI) simp_all
      then obtain q where "tokens = q @ after" "i < length q" by blast
      then show ?thesis using later [of "length q"] by (intro exI [of _ "length q"]) simp
    qed
    show ?thesis
      unfolding cte_loop_unfold [OF Cons] Cons ctes.simps [of "t # rest"]
      using later shorter position by (auto 0 3) (metis shorter position)+
  qed
qed

lemma readOnlyQuery_ro: "readOnlyQuery tokens \<longleftrightarrow> ro tokens"
proof (induction "length tokens" arbitrary: tokens rule: less_induct)
  case less
  then have loop: "cte_loop tokens i \<longleftrightarrow> ctes (drop i tokens)" for i using cte_loop_ctes by blast
  show ?case
  proof (cases tokens)
    case Nil
    then show ?thesis by (auto simp: readOnlyQuery.simps elim: ro.cases)
  next
    case (Cons t rest)
    show ?thesis
      by (subst readOnlyQuery.simps, subst ro.simps)
        (use loop [of 1] loop [of 2] Cons in \<open>cases rest; auto elim: ctes_NilE\<close>)
  qed
qed

section \<open>Expanding marks\<close>

text \<open>\<open>expands q c xs ys\<close>: \<open>ys\<close> is \<open>xs\<close> with some of the marks \<open>q\<close> replaced by lists \<open>q c q \<dots> c q\<close>.\<close>

inductive expands :: "'a \<Rightarrow> 'a \<Rightarrow> 'a list \<Rightarrow> 'a list \<Rightarrow> bool" for q c where
  nil: "expands q c [] []"
| keep: "expands q c xs ys \<Longrightarrow> expands q c (x # xs) (x # ys)"
| mark: "expands q c xs ys \<Longrightarrow> expands q c (q # xs) (q # concat (replicate n [c, q]) @ ys)"

inductive_cases expands_NilE: "expands q c [] ys"
inductive_cases expands_ConsE: "expands q c (x # xs) ys"

lemma expands_refl: "expands q c xs xs"
  by (induction xs) (auto intro: expands.intros)

lemma expands_append: "expands q c xs ys \<Longrightarrow> expands q c xs' ys' \<Longrightarrow> expands q c (xs @ xs') (ys @ ys')"
  by (induction rule: expands.induct) (auto intro: expands.intros)

lemma expands_map: "expands q c xs ys \<Longrightarrow> expands (f q) (f c) (map f xs) (map f ys)"
proof (induction rule: expands.induct)
  case (mark xs ys n)
  then show ?case using expands.mark [of "f q" "f c" "map f xs" "map f ys" n] by (simp add: map_concat)
qed (auto intro: expands.intros)

lemma expands_hd: "expands q c xs ys \<Longrightarrow> (ys = [] \<longleftrightarrow> xs = []) \<and> (xs \<noteq> [] \<longrightarrow> hd ys = hd xs)"
  by (induction rule: expands.induct) auto

lemma expands_Cons: "expands q c (x # xs) ys \<Longrightarrow> x \<noteq> q \<Longrightarrow> \<exists>ys'. ys = x # ys' \<and> expands q c xs ys'"
  by (auto elim: expands_ConsE)

lemma expands_take: "expands q c xs ys \<Longrightarrow> q \<notin> set (take n ys) \<Longrightarrow> n \<le> length ys \<Longrightarrow> n \<le> length xs \<and> take n xs = take n ys"
proof (induction arbitrary: n rule: expands.induct)
  case (keep xs ys x)
  then show ?case by (cases n) auto
next
  case (mark xs ys m)
  then show ?case by (cases n) auto
qed simp

lemma expands_last: "expands q c xs ys \<Longrightarrow> xs \<noteq> [] \<Longrightarrow> last ys = last xs"
proof (induction rule: expands.induct)
  case (keep xs ys x)
  then show ?case using expands_hd [OF keep.hyps] by auto
next
  case (mark xs ys n)
  have "last (q # concat (replicate n [c, q])) = q" by (induction n) auto
  then show ?case using expands_hd [OF mark.hyps] mark.IH by (cases ys) (auto simp: last_append)
qed simp

lemma expands_butlast: "expands q c xs ys \<Longrightarrow> xs \<noteq> [] \<Longrightarrow> last xs \<noteq> q \<Longrightarrow> expands q c (butlast xs) (butlast ys)"
proof (induction rule: expands.induct)
  case (keep xs ys x)
  then show ?case using expands_hd [OF keep.hyps] by (auto intro: expands.intros)
next
  case (mark xs ys n)
  then have "xs \<noteq> []" by auto
  with mark have "expands q c (butlast xs) (butlast ys)" "ys \<noteq> []" using expands_hd [OF mark.hyps] by auto
  then have "expands q c (q # butlast xs) (q # concat (replicate n [c, q]) @ butlast ys)" by (intro expands.mark)
  then show ?case using \<open>xs \<noteq> []\<close> \<open>ys \<noteq> []\<close> by (simp add: butlast_append)
qed simp

abbreviation expands_tokens :: "string list \<Rightarrow> string list \<Rightarrow> bool" where
  "expands_tokens \<equiv> expands ''?'' '',''"

lemma split_paren_marks:
  "split_paren depth (concat (replicate n ['','', ''?'']) @ rest) = map_option (apfst ((@) (concat (replicate n ['','', ''?''])))) (split_paren depth rest)"
  by (induction n) (auto simp: option.map_comp comp_def apfst_def map_prod_def case_prod_unfold option.map_ident)

lemma split_paren_expands:
  "expands_tokens xs ys \<Longrightarrow> split_paren depth xs = Some (inner, after) \<Longrightarrow>
     \<exists>inner' after'. split_paren depth ys = Some (inner', after') \<and> expands_tokens inner inner' \<and> expands_tokens after after'"
proof (induction arbitrary: depth inner rule: expands.induct)
  case (keep xs ys x)
  show ?case
  proof (cases "x = '')'' \<and> depth = 1")
    case True
    with keep show ?thesis by (auto intro: expands.intros)
  next
    case False
    let ?d = "if x = ''('' then depth + 1 else if x = '')'' then depth - 1 else depth"
    from False keep.prems obtain i where i: "split_paren ?d xs = Some (i, after)" "inner = x # i" by auto
    from keep.IH [OF i(1)] False i(2) show ?thesis by (auto intro: expands.intros)
  qed
next
  case (mark xs ys n)
  from mark.prems obtain i where i: "split_paren depth xs = Some (i, after)" "inner = ''?'' # i" by auto
  from mark.IH [OF i(1)] obtain i' after' where "split_paren depth ys = Some (i', after')" "expands_tokens i i'" "expands_tokens after after'" by blast
  then show ?case using i(2) by (auto simp: split_paren_marks intro: expands.mark)
qed simp

lemma after_columns_expands:
  assumes "expands_tokens xs ys" "after_columns xs = Some rest"
  shows "\<exists>rest'. after_columns ys = Some rest' \<and> expands_tokens rest rest'"
proof (cases xs)
  case Nil
  moreover from Nil have "ys = []" using expands_hd [OF assms(1)] by simp
  ultimately show ?thesis using assms by (auto simp: after_columns_def)
next
  case (Cons t r)
  show ?thesis
  proof (cases "t = ''(''")
    case True
    with assms Cons obtain inner where "split_paren 1 r = Some (inner, rest)" by (auto simp: after_columns_def)
    moreover obtain r' where "ys = ''('' # r'" "expands_tokens r r'" using expands_Cons [of "''?''" "'',''" t r ys] assms(1) Cons True by auto
    ultimately show ?thesis using split_paren_expands [of r r' 1 inner rest] by (auto simp: after_columns_def)
  next
    case False
    then have "rest = xs" using assms(2) Cons by (simp add: after_columns_def)
    moreover have "after_columns ys = Some ys"
      using expands_hd [OF assms(1)] Cons False by (cases ys) (auto simp: after_columns_def)
    ultimately show ?thesis using assms(1) by simp
  qed
qed

lemma cte_name_mark: "\<not> cte_name ''?''"
  by code_simp

lemma ro_expands:
  "ro xs \<Longrightarrow> expands_tokens xs ys \<Longrightarrow> ro ys" "ctes zs \<Longrightarrow> expands_tokens zs ws \<Longrightarrow> ctes ws"
proof (induction arbitrary: ys and ws rule: ro_ctes.inducts)
  case (select rest)
  then show ?case using expands_Cons [OF select] by (auto intro: ro_ctes.intros)
next
  case (with_plain rest)
  then obtain r' where "ys = ''WITH'' # r'" "expands_tokens rest r'" using expands_Cons by fastforce
  moreover have "rest \<noteq> []" using with_plain.hyps(1) by (auto elim: ctes_NilE)
  ultimately show ?case using with_plain expands_hd by (metis ro_ctes.with_plain)
next
  case (with_recursive rest)
  then obtain r' where "ys = ''WITH'' # ''RECURSIVE'' # r'" "expands_tokens rest r'"
    using expands_Cons [of "''?''" "'',''" "''WITH''" "''RECURSIVE'' # rest" ys] expands_Cons [of "''?''" "'',''" "''RECURSIVE''" rest] by auto
  with with_recursive show ?case by (auto intro: ro_ctes.intros)
next
  case (cte t rest opn body e after)
  then have "t \<noteq> ''?''" using cte_name_mark by auto
  with expands_Cons [OF cte.prems] obtain r' where r': "ws = t # r'" "expands_tokens rest r'" by blast
  obtain a where "after_columns r' = Some a" "expands_tokens (''AS'' # ''('' # opn) a"
    using after_columns_expands [OF r'(2) cte.hyps(2)] by blast
  then obtain o' where a: "after_columns r' = Some (''AS'' # ''('' # o')" "expands_tokens opn o'"
    using expands_Cons [of "''?''" "'',''" "''AS''" "''('' # opn" a] expands_Cons [of "''?''" "'',''" "''(''" opn] by auto
  obtain body' after' where s: "split_paren 1 o' = Some (body', after')" "expands_tokens body body'" "expands_tokens (e # after) after'"
    using split_paren_expands [OF a(2) cte.hyps(3)] by blast
  moreover have "e \<noteq> ''?''" using cte.IH by auto
  ultimately obtain after'' where "after' = e # after''" "expands_tokens after after''" using expands_Cons [OF s(3)] by blast
  then show ?case using cte s a r' by (auto intro!: ro_ctes.cte)
qed

text \<open>The tokens with the names of the quoted ones.\<close>

type_synonym named_token = "string \<times> string option"

definition named_tokens :: "statementScan \<Rightarrow> named_token list" where
  "named_tokens scan = map (\<lambda>i. (ss_Tokens scan ! i, ss_QuotedNames scan i)) [0 ..< length (ss_Tokens scan)]"

definition refused :: "named_token \<Rightarrow> named_token list \<Rightarrow> bool" where
  "refused t rest \<longleftrightarrow> refused_at (\<lambda>_. snd t) 0 (fst t) (map fst rest)"

fun policy :: "int \<Rightarrow> named_token list \<Rightarrow> int option" where
  "policy depth [] = Some depth"
| "policy depth (t # rest) =
     (if fst t = '';'' \<or> fst t = '':='' \<or> fst t = ''INTO'' then None
      else let depth' = (if fst t = ''('' then depth + 1 else if fst t = '')'' then depth - 1 else depth)
        in if fst t = '')'' \<and> depth' < 0 then None
           else if refused t rest then None else policy depth' rest)"

definition accepts :: "named_token list \<Rightarrow> bool" where
  "accepts ts \<longleftrightarrow> ts \<noteq> [] \<and>
     (let ts' = (if fst (last ts) = '';'' then butlast ts else ts) in policy 0 ts' = Some 0 \<and> ro (map fst ts'))"

lemma policy_loop_policy:
  "policy_loop names i depth tokens = policy depth (zip tokens (map names [i ..< i + length tokens]))"
proof (induction tokens arbitrary: i depth)
  case (Cons t tokens)
  have "map names [i ..< i + length (t # tokens)] = names i # map names [Suc i ..< Suc i + length tokens]"
    by (simp add: upt_conv_Cons del: upt_Suc)
  moreover have "refused_at names i t tokens \<longleftrightarrow> refused (t, names i) (zip tokens (map names [Suc i ..< Suc i + length tokens]))"
    unfolding refused_def by (simp add: refused_at_def del: upt_Suc)
  ultimately show ?case using Cons by (simp only: zip_Cons_Cons policy_loop.simps policy.simps fst_conv)
qed simp

lemma named_tokens_zip: "named_tokens scan = zip (ss_Tokens scan) (map (ss_QuotedNames scan) [0 ..< length (ss_Tokens scan)])"
  unfolding named_tokens_def by (rule nth_equalityI) simp_all

lemma fst_named_tokens [simp]: "map fst (named_tokens scan) = ss_Tokens scan"
  by (simp add: named_tokens_zip)

lemma ValidateReadOnlyStatement_iff:
  "ValidateReadOnlyStatement upper statement mode = Inr () \<longleftrightarrow>
     (\<exists>scan. scanStatement upper statement mode = Inr scan \<and> \<not> ss_ExecutableComment scan \<and> accepts (named_tokens scan))"
proof (cases "scanStatement upper statement mode")
  case (Inr scan)
  let ?ts = "ss_Tokens scan" and ?ns = "named_tokens scan"
  have empty: "?ns = [] \<longleftrightarrow> ?ts = []" using fst_named_tokens [of scan] by (metis map_is_Nil_conv)
  have lst: "fst (last ?ns) = last ?ts" if "?ts \<noteq> []" using that empty fst_named_tokens [of scan] by (metis last_map)
  have cut: "butlast ?ns = zip (butlast ?ts) (map (ss_QuotedNames scan) [0 ..< length (butlast ?ts)])"
    by (rule nth_equalityI) (simp_all add: named_tokens_zip nth_butlast)
  have "policy_loop (ss_QuotedNames scan) 0 0 ?ts = policy 0 ?ns" "policy_loop (ss_QuotedNames scan) 0 0 (butlast ?ts) = policy 0 (butlast ?ns)"
    unfolding policy_loop_policy cut by (simp_all add: named_tokens_zip)
  then show ?thesis
    using Inr empty lst
    by (auto simp: ValidateReadOnlyStatement_def accepts_def readOnlyQuery_ro Let_def map_butlast split: option.splits)
qed (simp add: ValidateReadOnlyStatement_def)

abbreviation expands_named :: "named_token list \<Rightarrow> named_token list \<Rightarrow> bool" where
  "expands_named \<equiv> expands (''?'', None) ('','', None)"

lemma refused_expands:
  assumes "expands_named xs ys" "refused t ys"
  shows "refused t xs"
proof -
  have tokens: "expands_tokens (map fst xs) (map fst ys)" using expands_map [OF assms(1), of fst] by simp
  note hds = expands_hd [OF tokens]
  have lock: "3 \<le> length xs \<and> take 3 (map fst xs) = take 3 (map fst ys)"
    if "3 \<le> length ys" "strings_Join (''LOCK'' # take 3 (map fst ys)) '' '' = ''LOCK IN SHARE MODE''"
  proof -
    have "CHR ''?'' \<notin> set (strings_Join (''LOCK'' # take 3 (map fst ys)) '' '')" unfolding that(2) by simp
    then have "\<forall>s \<in> set (take 3 (map fst ys)). CHR ''?'' \<notin> set s" by (auto simp: strings_Join_def split: if_splits)
    then have "''?'' \<notin> set (take 3 (map fst ys))" by force
    then show ?thesis using expands_take [OF tokens, of 3] that(1) by simp
  qed
  have second: "2 \<le> length xs \<and> map fst xs ! 1 \<noteq> '')''"
    if two: "2 \<le> length ys" and opened: "hd (map fst ys) = ''(''" and arg: "map fst ys ! 1 \<noteq> '')''"
  proof -
    obtain r where xs: "map fst xs = ''('' # r" using hds two opened by (cases "map fst xs") auto
    then obtain r' where r': "map fst ys = ''('' # r'" "expands_tokens r r'" using expands_Cons [of "''?''" "'',''" "''(''" r "map fst ys"] tokens by auto
    have "length ys = Suc (length r')" using arg_cong [OF r'(1), of length] by simp
    then have "r' \<noteq> []" using two by auto
    then have "r \<noteq> []" "hd r = r' ! 0" using expands_hd [OF r'(2)] by (cases r; cases r'; simp)+
    moreover have "length xs = Suc (length r)" using arg_cong [OF xs, of length] by simp
    ultimately show ?thesis using arg xs r'(1) by (cases r) simp_all
  qed
  let ?f = "case snd t of None \<Rightarrow> fst t | Some name \<Rightarrow> name"
  from assms(2) consider "fst t = ''FOR''" "map fst ys \<noteq> []" "hd (map fst ys) = ''UPDATE'' \<or> hd (map fst ys) = ''SHARE''"
    | "fst t = ''LOCK''" "3 \<le> length ys" "strings_Join (''LOCK'' # take 3 (map fst ys)) '' '' = ''LOCK IN SHARE MODE''"
    | "?f \<in> set lock_functions" "map fst ys \<noteq> []" "hd (map fst ys) = ''(''"
    | "?f = ''LAST_INSERT_ID''" "2 \<le> length ys" "hd (map fst ys) = ''(''" "map fst ys ! 1 \<noteq> '')''"
    unfolding refused_def refused_at_def Let_def by (simp only: length_map) metis
  then show ?thesis
  proof cases
    case 1
    with hds show ?thesis unfolding refused_def refused_at_def by metis
  next
    case 2
    with lock show ?thesis unfolding refused_def refused_at_def by (metis length_map)
  next
    case 3
    with hds show ?thesis unfolding refused_def refused_at_def Let_def by metis
  next
    case 4
    then have "map fst xs \<noteq> []" "hd (map fst xs) = ''(''" using hds by (metis list.size(3) length_map not_numeral_le_zero)+
    with 4 second show ?thesis unfolding refused_def refused_at_def Let_def by (metis length_map)
  qed
qed

lemma policy_marks: "policy depth (concat (replicate n [('','', None), (''?'', None)]) @ ts) = policy depth ts"
  by (induction n) (auto simp: refused_def refused_at_def lock_functions_def)

lemma policy_expands: "expands_named xs ys \<Longrightarrow> policy depth xs = Some d \<Longrightarrow> policy depth ys = Some d"
proof (induction arbitrary: depth rule: expands.induct)
  case (keep xs ys t)
  then show ?case using refused_expands [OF keep.hyps, of t] by (auto simp: Let_def split: if_splits)
next
  case (mark xs ys n)
  then show ?case by (auto simp: policy_marks refused_def refused_at_def lock_functions_def Let_def split: if_splits)
qed simp

lemma accepts_expands:
  assumes "expands_named xs ys" "accepts xs"
  shows "accepts ys"
proof -
  have ne: "xs \<noteq> []" "ys \<noteq> []" "last ys = last xs"
    using assms expands_hd [OF assms(1)] expands_last [OF assms(1)] by (auto simp: accepts_def)
  have "expands_named (if fst (last xs) = '';'' then butlast xs else xs) (if fst (last ys) = '';'' then butlast ys else ys)"
    using ne assms(1) expands_butlast [OF assms(1) ne(1)] by (cases "last xs") auto
  then show ?thesis
    using assms(2) ne(2) policy_expands ro_expands(1) expands_map [where f = fst] unfolding accepts_def Let_def by fastforce
qed

end
