(* ===== verification/Report_Spans.thy ===== *)
theory Report_Spans
  imports Report_Policy
begin

text \<open>
  What a successful scan says about the statement: placeholders and optional blocks are where the scan says, in order and
  disjoint; and rewriting the placeholders of a scanned statement into marks gives a statement with the same tokens, up to
  the number of marks.
\<close>

section \<open>Placeholders\<close>

definition placeholder_at :: "string \<Rightarrow> Placeholder \<Rightarrow> bool" where
  "placeholder_at statement p \<longleftrightarrow> ph_End p \<le> length statement \<and> ph_Start p < ph_End p \<and>
     slice statement (ph_Start p) (ph_End p) = CHR '':'' # ph_Key p \<and> parameterKeyPattern (ph_Key p)"

text \<open>Placeholders in order from a position on.\<close>

fun spans :: "nat \<Rightarrow> Placeholder list \<Rightarrow> bool" where
  "spans position [] = True"
| "spans position (p # ps) = (position \<le> ph_Start p \<and> ph_Start p < ph_End p \<and> spans (ph_End p) ps)"

lemma spans_mono: "spans k ps \<Longrightarrow> i \<le> k \<Longrightarrow> spans i ps"
  by (cases ps) auto

definition scanned :: "scanner \<Rightarrow> Placeholder list" where
  "scanned lx = ss_Placeholders (lx_scan lx)"

lemma HasPrefix_Cons: "HasPrefix s (c # p) \<longleftrightarrow> (\<exists>r. s = c # r \<and> HasPrefix r p)"
  by (cases s) (auto simp: HasPrefix_def)

lemma HasPrefix_Nil [simp]: "HasPrefix s []"
  by (simp add: HasPrefix_def)

lemma identifier_length_le: "identifier_length s \<le> length s"
  unfolding identifier_length_def by (rule length_takeWhile_le)

text \<open>A step either leaves the placeholders alone or reads exactly one.\<close>

lemma scan_step_placeholders:
  assumes step: "scan_step upper statement mode lx = Inr lx'" and i: "lx_index lx < length statement"
  shows "scanned lx' = scanned lx \<or>
    (\<exists>p. scanned lx' = scanned lx @ [p] \<and> ph_Start p = lx_index lx \<and> ph_End p = lx_index lx' \<and> placeholder_at statement p \<and>
       lx_state lx = Normal)"
proof (cases "lx_state lx = Normal \<and> hd (drop (lx_index lx) statement) = CHR '':'' \<and>
    \<not> HasPrefix (drop (lx_index lx) statement) '':='' \<and> identifier_length (drop 1 (drop (lx_index lx) statement)) \<noteq> 0")
  case True
  let ?rest = "drop (lx_index lx) statement"
  let ?n = "identifier_length (drop 1 ?rest)"
  have rest: "?rest = CHR '':'' # drop 1 ?rest" using True i by (cases ?rest) auto
  have le: "?n < length ?rest" using identifier_length_le [of "drop 1 ?rest"] i by simp
  have pre: "\<not> HasPrefix ?rest ''[[''" "\<not> HasPrefix ?rest '']]''" by (subst rest, simp add: HasPrefix_Cons)+
  have "isIdentifierByte (CHR '':'') = False" by code_simp
  then have "scan_step upper statement mode lx = colon_step ?rest lx"
    using True pre by (simp add: scan_step_def normal_step_def)
  then have lx': "parameterKeyPattern (take ?n (drop 1 ?rest))"
    "lx' = advance Normal (?n + 1) (mark_sql (add_placeholder
       \<lparr>ph_Key = take ?n (drop 1 ?rest), ph_Start = lx_index lx, ph_End = lx_index lx + ?n + 1\<rparr> (emit ''?'' lx)))"
    using step True by (simp_all add: colon_step_def Let_def split: if_splits)
  let ?p = "\<lparr>ph_Key = take ?n (drop 1 ?rest), ph_Start = lx_index lx, ph_End = lx_index lx + ?n + 1\<rparr>"
  have "slice statement (ph_Start ?p) (ph_End ?p) = take (?n + 1) ?rest" by (simp add: slice_def)
  also have "\<dots> = CHR '':'' # ph_Key ?p" by (subst rest) simp
  finally have "placeholder_at statement ?p" using lx'(1) le by (simp add: placeholder_at_def)
  then show ?thesis using True lx'(2) by (intro disjI2 exI [of _ ?p]) (simp add: scanned_def)
next
  case False
  then show ?thesis
    using step i by (auto simp: scanned_def scan_steps split: lexical.splits if_splits option.splits)
qed

lemma scan_loop_placeholders:
  assumes "scan_loop upper statement mode lx = Inr lx'"
  shows "\<exists>ps. scanned lx' = scanned lx @ ps \<and> spans (lx_index lx) ps \<and> list_all (placeholder_at statement) ps"
  using assms
proof (induction upper statement mode lx rule: scan_loop.induct)
  case (1 upper statement mode lx)
  show ?case
  proof (cases "lx_index lx < length statement")
    case True
    with "1.prems" obtain lx1 where s: "scan_step upper statement mode lx = Inr lx1" and l: "scan_loop upper statement mode lx1 = Inr lx'"
      by (subst (asm) scan_loop.simps) (auto split: sum.splits)
    from "1.IH" [OF True s l] obtain ps where ps: "scanned lx' = scanned lx1 @ ps" "spans (lx_index lx1) ps" "list_all (placeholder_at statement) ps"
      by blast
    have less: "lx_index lx < lx_index lx1" by (rule scan_step_progress [OF s True])
    from scan_step_placeholders [OF s True] show ?thesis
    proof
      assume "scanned lx1 = scanned lx"
      with ps less show ?thesis by (auto intro: spans_mono)
    next
      assume "\<exists>p. scanned lx1 = scanned lx @ [p] \<and> ph_Start p = lx_index lx \<and> ph_End p = lx_index lx1 \<and> placeholder_at statement p \<and>
        lx_state lx = Normal"
      then obtain p where "scanned lx1 = scanned lx @ [p]" "ph_Start p = lx_index lx" "ph_End p = lx_index lx1" "placeholder_at statement p" by blast
      with ps less show ?thesis by (intro exI [of _ "p # ps"]) simp
    qed
  next
    case False
    with "1.prems" show ?thesis by (subst (asm) scan_loop.simps) auto
  qed
qed

section \<open>Optional blocks\<close>

definition block_at :: "string \<Rightarrow> optionalBlock \<Rightarrow> bool" where
  "block_at statement b \<longleftrightarrow> ob_ContentStart b = ob_Start b + 2 \<and> ob_ContentStart b \<le> ob_ContentEnd b \<and> ob_End b = ob_ContentEnd b + 2 \<and>
     ob_End b \<le> length statement \<and> slice statement (ob_Start b) (ob_ContentStart b) = ''[['' \<and>
     slice statement (ob_ContentEnd b) (ob_End b) = '']]''"

text \<open>The blocks found and the open one, with the placeholders each contains.\<close>

definition in_span :: "nat \<Rightarrow> nat \<Rightarrow> Placeholder \<Rightarrow> bool" where
  "in_span a b p \<longleftrightarrow> a \<le> ph_Start p \<and> ph_End p \<le> b"

definition blocks_inv :: "string \<Rightarrow> scanner \<Rightarrow> bool" where
  "blocks_inv statement lx \<longleftrightarrow>
     (\<forall>b \<in> set (ss_OptionalBlocks (lx_scan lx)). block_at statement b \<and> ob_Placeholders b = filter (in_span (ob_Start b) (ob_End b)) (scanned lx)) \<and>
     sorted_wrt (\<lambda>b c. ob_End b \<le> ob_Start c) (ss_OptionalBlocks (lx_scan lx)) \<and>
     (\<forall>p \<in> set (scanned lx). ph_Start p < ph_End p \<and> ph_End p \<le> lx_index lx) \<and>
     (case lx_openBlock lx of
        None \<Rightarrow> \<forall>b \<in> set (ss_OptionalBlocks (lx_scan lx)). ob_End b \<le> lx_index lx
      | Some c \<Rightarrow> (\<forall>b \<in> set (ss_OptionalBlocks (lx_scan lx)). ob_End b \<le> ob_Start c) \<and> ob_ContentStart c = ob_Start c + 2 \<and>
          ob_ContentStart c \<le> lx_index lx \<and> slice statement (ob_Start c) (ob_ContentStart c) = ''[['' \<and>
          ob_Placeholders c = filter (\<lambda>p. ob_Start c \<le> ph_Start p) (scanned lx))"

lemma scan_step_blocks:
  assumes step: "scan_step upper statement mode lx = Inr lx'" and i: "lx_index lx < length statement"
  obtains (still) "scanned lx' = scanned lx" "ss_OptionalBlocks (lx_scan lx') = ss_OptionalBlocks (lx_scan lx)" "lx_openBlock lx' = lx_openBlock lx"
  | (placeholder) p where "scanned lx' = scanned lx @ [p]" "ph_Start p = lx_index lx" "ph_End p = lx_index lx'"
      "ss_OptionalBlocks (lx_scan lx') = ss_OptionalBlocks (lx_scan lx)"
      "lx_openBlock lx' = map_option (\<lambda>b. b\<lparr>ob_Placeholders := ob_Placeholders b @ [p]\<rparr>) (lx_openBlock lx)"
  | (opened) "HasPrefix (drop (lx_index lx) statement) ''[[''" "open_block lx = Inr lx'"
  | (closed) "HasPrefix (drop (lx_index lx) statement) '']]''" "close_block lx = Inr lx'"
proof -
  show thesis
    using step still placeholder opened closed
    by (simp add: scanned_def scan_step_def normal_step_def colon_step_def slash_step_def string_step_def identifier_step_def Let_def
        split: lexical.splits if_splits) (auto simp: scanned_def)
qed

lemma filter_snoc_out: "\<not> P x \<Longrightarrow> filter P (xs @ [x]) = filter P xs"
  by simp

lemma slice_prefix: "HasPrefix (drop i s) p \<Longrightarrow> slice s i (i + length p) = p"
  by (simp add: HasPrefix_def slice_def)

lemma scan_step_blocks_inv:
  assumes step: "scan_step upper statement mode lx = Inr lx'" and i: "lx_index lx < length statement" and inv: "blocks_inv statement lx"
  shows "blocks_inv statement lx'"
proof -
  have less: "lx_index lx < lx_index lx'" by (rule scan_step_progress [OF step i])
  from step i show ?thesis
  proof (cases rule: scan_step_blocks)
    case still
    with inv less show ?thesis unfolding blocks_inv_def by (fastforce split: option.splits)
  next
    case (placeholder p)
    have "\<not> in_span (ob_Start b) (ob_End b) p" if "b \<in> set (ss_OptionalBlocks (lx_scan lx))" for b
      using that inv placeholder less by (auto simp: blocks_inv_def in_span_def split: option.splits)
    with inv less placeholder show ?thesis unfolding blocks_inv_def by (fastforce split: option.splits)
  next
    case opened
    from slice_prefix [OF opened(1)] have "slice statement (lx_index lx) (lx_index lx + 2) = ''[[''" by simp
    moreover have "filter (\<lambda>p. lx_index lx \<le> ph_Start p) (scanned lx) = []"
      using inv by (auto simp: blocks_inv_def filter_empty_conv)
    moreover have "\<forall>p \<in> set (scanned lx). ph_End p \<le> Suc (Suc (lx_index lx))"
      using inv by (auto simp: blocks_inv_def intro: le_SucI)
    ultimately show ?thesis using inv opened(2) unfolding blocks_inv_def
      by (auto simp: open_block_def scanned_def split: if_splits option.splits)
  next
    case closed
    from slice_prefix [OF closed(1)] have "slice statement (lx_index lx) (lx_index lx + 2) = '']]''" by simp
    moreover have "lx_index lx + 2 \<le> length statement" using HasPrefix_length [OF closed(1)] by simp
    moreover have "filter (\<lambda>p. c \<le> ph_Start p) (scanned lx) = filter (in_span c (lx_index lx + 2)) (scanned lx)" for c
      using inv by (intro filter_cong) (auto simp: blocks_inv_def in_span_def)
    moreover have "\<forall>p \<in> set (scanned lx). ph_End p \<le> Suc (Suc (lx_index lx))"
      using inv by (auto simp: blocks_inv_def intro: le_SucI)
    moreover have "\<forall>b \<in> set (ss_OptionalBlocks (lx_scan lx)). ob_ContentEnd b \<le> lx_index lx"
      using inv by (fastforce simp: blocks_inv_def block_at_def split: option.splits)
    ultimately show ?thesis using inv closed(2) unfolding blocks_inv_def
      by (auto simp: close_block_def scanned_def block_at_def sorted_wrt_append split: if_splits option.splits)
  qed
qed

lemma scan_loop_blocks_inv:
  "scan_loop upper statement mode lx = Inr lx' \<Longrightarrow> blocks_inv statement lx \<Longrightarrow> blocks_inv statement lx'"
proof (induction upper statement mode lx rule: scan_loop.induct)
  case (1 upper statement mode lx)
  show ?case
  proof (cases "lx_index lx < length statement")
    case True
    with "1.prems" obtain lx1 where s: "scan_step upper statement mode lx = Inr lx1" and l: "scan_loop upper statement mode lx1 = Inr lx'"
      by (subst (asm) scan_loop.simps) (auto split: sum.splits)
    from "1.IH" [OF True s l scan_step_blocks_inv [OF s True "1.prems"(2)]] show ?thesis .
  next
    case False
    with "1.prems" show ?thesis by (subst (asm) scan_loop.simps) auto
  qed
qed

section \<open>Rewriting placeholders into marks\<close>

text \<open>\<open>rewritten s sz i ps\<close> is the text from position \<open>i\<close> on, with each placeholder \<open>p\<close> replaced by \<open>sz p + 1\<close> marks.\<close>

definition mark_list :: "nat \<Rightarrow> string" where
  "mark_list n = CHR ''?'' # concat (replicate n '',?'')"

fun rewritten :: "string \<Rightarrow> (Placeholder \<Rightarrow> nat) \<Rightarrow> nat \<Rightarrow> Placeholder list \<Rightarrow> string" where
  "rewritten statement sz i [] = drop i statement"
| "rewritten statement sz i (p # ps) =
     slice statement i (ph_Start p) @ mark_list (sz p) @ rewritten statement sz (ph_End p) ps"

text \<open>Two texts that agree up to a placeholder of the first, which is a mark in the second, or to the end.\<close>

definition agree :: "nat \<Rightarrow> string \<Rightarrow> string \<Rightarrow> bool" where
  "agree m r r' \<longleftrightarrow> take m r = take m r' \<and> m \<le> length r \<and> m \<le> length r' \<and>
     (drop m r = [] \<and> drop m r' = [] \<or> drop m r \<noteq> [] \<and> drop m r' \<noteq> [] \<and> r ! m = CHR '':'' \<and> r' ! m = CHR ''?'')"

lemma agree_Suc: "agree (Suc m) r r' \<Longrightarrow> \<exists>c t t'. r = c # t \<and> r' = c # t' \<and> agree m t t'"
  by (cases r; cases r') (auto simp: agree_def)

lemma agree_0: "agree 0 r r' \<Longrightarrow> r = [] \<and> r' = [] \<or> (\<exists>t t'. r = CHR '':'' # t \<and> r' = CHR ''?'' # t')"
  by (cases r; cases r') (auto simp: agree_def)

lemma agree_prefix: "agree m r r' \<Longrightarrow> CHR '':'' \<notin> set p \<Longrightarrow> CHR ''?'' \<notin> set p \<Longrightarrow> HasPrefix r p \<longleftrightarrow> HasPrefix r' p"
proof (induction p arbitrary: m r r')
  case (Cons c p)
  show ?case
  proof (cases m)
    case 0
    with Cons agree_0 [of r r'] show ?thesis by (auto simp: HasPrefix_Cons)
  next
    case (Suc k)
    with Cons.prems agree_Suc obtain x t t' where "r = x # t" "r' = x # t'" "agree k t t'" by blast
    with Cons show ?thesis by (auto simp: HasPrefix_Cons)
  qed
qed simp

lemma agree_identifier: "agree m r r' \<Longrightarrow> takeWhile isIdentifierByte r = takeWhile isIdentifierByte r' \<and> identifier_length r \<le> m"
proof (induction m arbitrary: r r')
  case 0
  have "\<not> isIdentifierByte (CHR '':'')" "\<not> isIdentifierByte (CHR ''?'')" by code_simp+
  with agree_0 [OF 0] show ?case by (auto simp: identifier_length_def)
next
  case (Suc m)
  from agree_Suc [OF Suc.prems] obtain c t t' where "r = c # t" "r' = c # t'" "agree m t t'" by blast
  with Suc.IH [of t t'] show ?case by (auto simp: identifier_length_def)
qed

lemma agree_white:
  "agree m r r' \<Longrightarrow> 0 < m \<Longrightarrow> HasPrefix r ''--'' \<and> 2 < length r \<and> isCommentWhitespace (r ! 2) \<longleftrightarrow>
     HasPrefix r' ''--'' \<and> 2 < length r' \<and> isCommentWhitespace (r' ! 2)"
proof -
  assume a: "agree m r r'" and "0 < m"
  have no: "\<not> isCommentWhitespace (CHR '':'')" "\<not> isCommentWhitespace (CHR ''?'')" by code_simp+
  have pre: "HasPrefix r ''--'' \<longleftrightarrow> HasPrefix r' ''--''" by (rule agree_prefix [OF a]) simp_all
  show ?thesis
  proof (cases "HasPrefix r ''--'' \<and> HasPrefix r' ''--''")
    case True
    then obtain t t' where r: "r = CHR ''-'' # CHR ''-'' # t" "r' = CHR ''-'' # CHR ''-'' # t'" by (auto simp: HasPrefix_Cons)
    with a \<open>0 < m\<close> obtain k where "m = Suc (Suc k)" "agree k t t'"
      by (cases m; cases "m - 1") (auto simp: agree_def)
    then show ?thesis using r no agree_0 [of t t'] agree_Suc [of "k - 1" t t'] by (cases k) (auto simp: HasPrefix_Cons)
  qed (use pre in auto)
qed

lemma agree_drop: "agree m r r' \<Longrightarrow> k \<le> m \<Longrightarrow> agree (m - k) (drop k r) (drop k r')"
  by (auto simp: agree_def drop_take [symmetric] nth_drop) 

lemma rewritten_agree:
  assumes "spans i ps" "list_all (placeholder_at statement) ps" "i \<le> length statement"
  shows "agree (case ps of [] \<Rightarrow> length statement - i | p # _ \<Rightarrow> ph_Start p - i) (drop i statement) (rewritten statement sz i ps)"
proof (cases ps)
  case Nil
  then show ?thesis by (simp add: agree_def)
next
  case (Cons p qs)
  with assms have p: "i \<le> ph_Start p" "ph_Start p < ph_End p" "ph_End p \<le> length statement"
    "slice statement (ph_Start p) (ph_End p) = CHR '':'' # ph_Key p" by (auto simp: placeholder_at_def)
  have "drop (ph_Start p) statement \<noteq> []" "statement ! ph_Start p = CHR '':''"
  proof -
    show "drop (ph_Start p) statement \<noteq> []" using p by simp
    then obtain c t where d: "drop (ph_Start p) statement = c # t" by (cases "drop (ph_Start p) statement") auto
    then have "c = CHR '':''" using p by (cases "ph_End p - ph_Start p") (auto simp: slice_def)
    then show "statement ! ph_Start p = CHR '':''" using drop_nth [OF d] by simp
  qed
  with p Cons show ?thesis by (auto simp: agree_def slice_def mark_list_def nth_append)
qed

lemma rewritten_advance:
  assumes "spans k ps" "i \<le> k" "k \<le> length statement"
  shows "drop (k - i) (rewritten statement sz i ps) = rewritten statement sz k ps"
proof (cases ps)
  case Nil
  with assms show ?thesis by simp
next
  case (Cons p qs)
  with assms have "k \<le> ph_Start p" by simp
  with assms Cons show ?thesis by (auto simp: slice_def drop_take)
qed

text \<open>Scanner states of a statement and of its rewriting.\<close>

definition names_bound :: "scanner \<Rightarrow> bool" where
  "names_bound lx \<longleftrightarrow> (\<forall>i. length (ss_Tokens (lx_scan lx)) \<le> i \<longrightarrow> ss_QuotedNames (lx_scan lx) i = None)"

definition alike :: "scanner \<Rightarrow> scanner \<Rightarrow> bool" where
  "alike lx lx' \<longleftrightarrow>
     (lx_openBlock lx' = None \<longleftrightarrow> lx_openBlock lx = None) \<and> lx_blockHasSQL lx' = lx_blockHasSQL lx \<and>
     ss_ExecutableComment (lx_scan lx') = ss_ExecutableComment (lx_scan lx) \<and> scanned lx' = [] \<and>
     expands_named (named_tokens (lx_scan lx)) (named_tokens (lx_scan lx')) \<and> names_bound lx \<and> names_bound lx'"

lemma named_emit:
  "names_bound lx \<Longrightarrow> named_tokens (lx_scan (emit t lx)) = named_tokens (lx_scan lx) @ [(t, None)]"
  by (rule nth_equalityI) (auto simp: named_tokens_def names_bound_def nth_append less_Suc_eq)

lemma names_bound_emit: "names_bound lx \<Longrightarrow> names_bound (emit t lx)"
  by (simp add: names_bound_def)

lemma alike_emit: "alike lx lx' \<Longrightarrow> alike (emit t lx) (emit t lx')"
  using expands_append [OF _ expands_refl] by (auto simp: alike_def named_emit names_bound_emit scanned_def simp del: emit_simps(6))
    (auto simp: names_bound_def)

lemma alike_fields:
  assumes "alike lx lx'"
  shows "lx_scan x = lx_scan lx \<Longrightarrow> lx_scan y = lx_scan lx' \<Longrightarrow> lx_openBlock y = None \<longleftrightarrow> lx_openBlock x = None \<Longrightarrow>
     lx_blockHasSQL y = lx_blockHasSQL x \<Longrightarrow> alike x y"
  using assms by (simp add: alike_def scanned_def names_bound_def)

lemma alike_mark: "alike lx lx' \<Longrightarrow> alike (mark_sql lx) (mark_sql lx')"
  by (rule alike_fields, assumption) (auto simp: alike_def)

lemma alike_advance: "alike lx lx' \<Longrightarrow> alike (advance st n lx) (advance st' n' lx')"
  by (rule alike_fields, assumption) (auto simp: alike_def)

lemma alike_start: "alike lx lx' \<Longrightarrow> alike (lx\<lparr>lx_quotedStart := a\<rparr>) (lx'\<lparr>lx_quotedStart := b\<rparr>)"
  by (rule alike_fields, assumption) (auto simp: alike_def)

lemma alike_comment:
  "alike lx lx' \<Longrightarrow> alike (lx\<lparr>lx_scan := (lx_scan lx)\<lparr>ss_ExecutableComment := b\<rparr>\<rparr>) (lx'\<lparr>lx_scan := (lx_scan lx')\<lparr>ss_ExecutableComment := b\<rparr>\<rparr>)"
  by (simp add: alike_def scanned_def names_bound_def named_tokens_def)

lemma alike_open: "alike lx lx' \<Longrightarrow> open_block lx = Inr lx1 \<Longrightarrow> \<exists>lx1'. open_block lx' = Inr lx1' \<and> alike lx1 lx1'"
  by (auto simp: open_block_def alike_def scanned_def names_bound_def split: if_splits)

lemma alike_close: "alike lx lx' \<Longrightarrow> close_block lx = Inr lx1 \<Longrightarrow> \<exists>lx1'. close_block lx' = Inr lx1' \<and> alike lx1 lx1'"
  by (auto simp: close_block_def alike_def scanned_def names_bound_def named_tokens_def split: if_splits option.splits)

lemma named_record:
  assumes "ss_Tokens (lx_scan lx) \<noteq> []"
  shows "named_tokens (lx_scan (record_name u s q lx)) = butlast (named_tokens (lx_scan lx)) @
    [(fst (last (named_tokens (lx_scan lx))), Some (ToUpper u (undouble q (slice s (lx_quotedStart lx + 1) (lx_index lx)))))]"
  using assms
  by (intro nth_equalityI) (auto simp: named_tokens_def record_name_def nth_append nth_butlast last_conv_nth less_Suc_eq)

lemma names_bound_record: "names_bound lx \<Longrightarrow> ss_Tokens (lx_scan lx) \<noteq> [] \<Longrightarrow> names_bound (record_name u s q lx)"
  by (cases "ss_Tokens (lx_scan lx)") (auto simp: names_bound_def record_name_def)

text \<open>The text read since the quote of an identifier is the same.\<close>

definition quoted_alike :: "string \<Rightarrow> string \<Rightarrow> scanner \<Rightarrow> scanner \<Rightarrow> bool" where
  "quoted_alike s s' lx lx' \<longleftrightarrow> lx_quotedStart lx < lx_index lx \<and> lx_quotedStart lx' < lx_index lx' \<and>
     slice s (lx_quotedStart lx + 1) (lx_index lx) = slice s' (lx_quotedStart lx' + 1) (lx_index lx') \<and>
     ss_Tokens (lx_scan lx) \<noteq> [] \<and> ss_Tokens (lx_scan lx') \<noteq> [] \<and>
     last (named_tokens (lx_scan lx)) = (''<quoted>'', None) \<and> last (named_tokens (lx_scan lx')) = (''<quoted>'', None)"

lemma alike_record:
  assumes "alike lx lx'" "quoted_alike s s' lx lx'"
  shows "alike (record_name u s q lx) (record_name u s' q lx')"
proof -
  have ne: "named_tokens (lx_scan lx) \<noteq> []" using assms(2) by (auto simp: quoted_alike_def named_tokens_def)
  have "expands_named (butlast (named_tokens (lx_scan lx))) (butlast (named_tokens (lx_scan lx')))"
    using assms expands_butlast [OF _ ne] by (auto simp: alike_def quoted_alike_def)
  then have "expands_named (named_tokens (lx_scan (record_name u s q lx))) (named_tokens (lx_scan (record_name u s' q lx')))"
    using assms(2) by (auto simp: named_record quoted_alike_def intro!: expands_append expands_refl)
  moreover have "names_bound (record_name u s q lx)" "names_bound (record_name u s' q lx')"
    using assms by (auto simp: alike_def quoted_alike_def intro: names_bound_record)
  ultimately show ?thesis using assms(1) by (simp add: alike_def scanned_def)
qed

lemma slice_extend: "a \<le> i \<Longrightarrow> slice s a (i + n) = slice s a i @ take n (drop i s)"
proof -
  assume "a \<le> i"
  then have "i + n - a = (i - a) + n" "drop (i - a) (drop a s) = drop i s" by simp_all
  then show ?thesis by (simp only: slice_def take_add)
qed

lemma quoted_advance:
  assumes "quoted_alike s s' lx lx'" "take n (drop (lx_index lx) s) = take n (drop (lx_index lx') s')"
  shows "quoted_alike s s' (advance st n lx) (advance st n lx')"
  using assms slice_extend [of "lx_quotedStart lx + 1" "lx_index lx" s n] slice_extend [of "lx_quotedStart lx' + 1" "lx_index lx'" s' n]
  by (simp add: quoted_alike_def)

lemma quoted_begin:
  assumes "alike lx lx'"
  shows "quoted_alike s s' (advance st 1 ((mark_sql (emit ''<quoted>'' lx))\<lparr>lx_quotedStart := lx_index lx\<rparr>))
    (advance st' 1 ((mark_sql (emit ''<quoted>'' lx'))\<lparr>lx_quotedStart := lx_index lx'\<rparr>))"
  using assms named_emit [of lx "''<quoted>''"] named_emit [of lx' "''<quoted>''"] by (simp add: quoted_alike_def alike_def slice_def)

lemma agree_take: "agree m r r' \<Longrightarrow> n \<le> m \<Longrightarrow> take n r = take n r'"
proof -
  assume "agree m r r'" "n \<le> m"
  then have "take n (take m r) = take n (take m r')" by (simp add: agree_def)
  with \<open>n \<le> m\<close> show ?thesis by (simp add: min_def)
qed

definition in_identifier :: "scanner \<Rightarrow> bool" where
  "in_identifier lx \<longleftrightarrow> lx_state lx = DoubleIdentifier \<or> lx_state lx = BacktickIdentifier"

definition matched :: "string \<Rightarrow> string \<Rightarrow> scanner \<Rightarrow> scanner \<Rightarrow> bool" where
  "matched s s' lx lx' \<longleftrightarrow> alike lx lx' \<and> lx_state lx' = lx_state lx \<and> (in_identifier lx \<longrightarrow> quoted_alike s s' lx lx')"

lemma matched_advance: "alike lx lx' \<Longrightarrow> st \<noteq> DoubleIdentifier \<Longrightarrow> st \<noteq> BacktickIdentifier \<Longrightarrow> matched s s' (advance st n lx) (advance st n' lx')"
  by (simp add: matched_def in_identifier_def alike_advance)

lemmas alike_intros = alike_emit alike_mark alike_comment alike_start alike_advance

lemma colon_alike:
  assumes "colon_step r lx = Inr lx1" "scanned lx1 = scanned lx" "r = CHR '':'' # t" "r' = CHR '':'' # t'" "agree m t t'" "alike lx lx'"
  shows "\<exists>lx1'. colon_step r' lx' = Inr lx1' \<and> matched s s' lx1 lx1' \<and> lx_index lx1' + lx_index lx = lx_index lx1 + lx_index lx'"
proof -
  have eq: "HasPrefix t ''='' \<longleftrightarrow> HasPrefix t' ''=''" by (rule agree_prefix [OF assms(5)]) simp_all
  have n: "identifier_length t = identifier_length t'" using agree_identifier [OF assms(5)] by (simp add: identifier_length_def)
  show ?thesis
    using assms(1,2) n unfolding assms(3,4)
    by (auto simp: colon_step_def HasPrefix_Cons [of _ "CHR '':''"] eq Let_def scanned_def
        intro!: matched_advance alike_emit assms(6) split: if_splits)
qed

lemma slash_alike:
  assumes "agree m r r'" "alike lx lx'"
  shows "matched s s' (slash_step r lx) (slash_step r' lx')"
    "lx_index (slash_step r' lx') + lx_index lx = lx_index (slash_step r lx) + lx_index lx'"
proof -
  have "HasPrefix r ''/*'' \<longleftrightarrow> HasPrefix r' ''/*''" "HasPrefix r ''/*!'' \<longleftrightarrow> HasPrefix r' ''/*!''" "HasPrefix r ''/*M!'' \<longleftrightarrow> HasPrefix r' ''/*M!''"
    by (rule agree_prefix [OF assms(1)]; simp)+
  then show "matched s s' (slash_step r lx) (slash_step r' lx')"
    "lx_index (slash_step r' lx') + lx_index lx = lx_index (slash_step r lx) + lx_index lx'"
    using assms(2) by (auto simp: slash_step_def intro!: matched_advance alike_mark alike_comment)
qed

lemma block_indices:
  "open_block lx = Inr lx1 \<Longrightarrow> lx_index lx1 = lx_index lx + 2 \<and> lx_state lx1 = Normal"
  "close_block lx = Inr lx1 \<Longrightarrow> lx_index lx1 = lx_index lx + 2 \<and> lx_state lx1 = Normal"
  by (auto simp: open_block_def close_block_def split: if_splits option.splits)

lemma normal_alike:
  assumes step: "normal_step u mode r lx = Inr lx1" and sc: "scanned lx1 = scanned lx" and ag: "agree (Suc m) r r'"
    and al: "alike lx lx'"
  shows "\<exists>lx1'. normal_step u mode r' lx' = Inr lx1' \<and> matched s s' lx1 lx1' \<and> lx_index lx1' + lx_index lx = lx_index lx1 + lx_index lx'"
proof -
  obtain c t t' where r: "r = c # t" "r' = c # t'" "agree m t t'" using agree_Suc [OF ag] by blast
  have ident: "takeWhile isIdentifierByte r = takeWhile isIdentifierByte r'" "identifier_length r' = identifier_length r" "identifier_length r \<le> Suc m"
    using agree_identifier [OF ag] by (auto simp: identifier_length_def)
  have pre: "HasPrefix r' ''[['' \<longleftrightarrow> HasPrefix r ''[[''" "HasPrefix r' '']]'' \<longleftrightarrow> HasPrefix r '']]''"
    by (rule agree_prefix [OF ag, symmetric]; simp)+
  consider (word) "isIdentifierByte c" | (opn) "\<not> isIdentifierByte c" "HasPrefix r ''[[''"
    | (cls) "\<not> isIdentifierByte c" "\<not> HasPrefix r ''[[''" "HasPrefix r '']]''"
    | (other) "\<not> isIdentifierByte c" "\<not> HasPrefix r ''[[''" "\<not> HasPrefix r '']]''" by blast
  then show ?thesis
  proof cases
    case word
    then show ?thesis
      using step ident agree_take [OF ag ident(3)] r(1,2) by (auto simp: normal_step_def Let_def intro!: matched_advance alike_mark alike_emit al)
  next
    case opn
    then have "open_block lx = Inr lx1" using step r(1) by (simp add: normal_step_def)
    moreover from alike_open [OF al this] obtain lx1' where "open_block lx' = Inr lx1'" "alike lx1 lx1'" by blast
    moreover have "normal_step u mode r' lx' = open_block lx'" using opn pre r(2) by (simp add: normal_step_def)
    ultimately show ?thesis using block_indices(1) [of lx lx1] block_indices(1) [of lx' lx1'] by (auto simp: matched_def in_identifier_def)
  next
    case cls
    then have "close_block lx = Inr lx1" using step r(1) by (simp add: normal_step_def)
    moreover from alike_close [OF al this] obtain lx1' where "close_block lx' = Inr lx1'" "alike lx1 lx1'" by blast
    moreover have "normal_step u mode r' lx' = close_block lx'" using cls pre r(2) by (simp add: normal_step_def)
    ultimately show ?thesis using block_indices(2) [of lx lx1] block_indices(2) [of lx' lx1'] by (auto simp: matched_def in_identifier_def)
  next
    case other
    then have other': "\<not> HasPrefix r' ''[[''" "\<not> HasPrefix r' '']]''" using pre by simp_all
    show ?thesis
    proof (cases "c = CHR '':''")
      case True
      then have "colon_step r lx = Inr lx1" "normal_step u mode r' lx' = colon_step r' lx'"
        using step other other' r(1,2) by (simp_all add: normal_step_def)
      with colon_alike [OF _ sc _ _ r(3) al] True r(1,2) show ?thesis by simp
    next
      case colon: False
      show ?thesis
      proof (cases "c = CHR ''/''")
        case True
        then have "lx1 = slash_step r lx" "normal_step u mode r' lx' = Inr (slash_step r' lx')"
          using step other other' r(1,2) by (simp_all add: normal_step_def)
        with slash_alike [OF ag al] show ?thesis by simp
      next
        case False
        have qm: "matched s s' (advance st 1 ((mark_sql (emit ''<quoted>'' lx))\<lparr>lx_quotedStart := lx_index lx\<rparr>))
            (advance st 1 ((mark_sql (emit ''<quoted>'' lx'))\<lparr>lx_quotedStart := lx_index lx'\<rparr>))" for st
          unfolding matched_def using quoted_begin [OF al] al by (auto intro!: alike_intros)
        let ?quotes = "{CHR 0x27, CHR 0x22, CHR 0x60, CHR ''#'', CHR ''-''}"
        note steps = step other other' r(1,2) False colon
        consider "c = CHR 0x27" | "c = CHR 0x22" | "c = CHR 0x60" | "c = CHR ''#''" | (dash) "c = CHR ''-''"
          | "c \<notin> ?quotes" "isCommentWhitespace c" | "c \<notin> ?quotes" "\<not> isCommentWhitespace c" by blast
        then show ?thesis
        proof cases
          case dash
          have "normal_step u mode x l = Inr (if HasPrefix x ''--'' \<and> 2 < length x \<and> isCommentWhitespace (x ! 2)
              then advance LineComment 3 l else advance Normal 1 (mark_sql l))" if "x = r \<or> x = r'" for x l
            using that other other' r(1,2) dash by (elim disjE) (simp_all add: normal_step_def Let_def)
          then have "normal_step u mode r lx = Inr (if HasPrefix r ''--'' \<and> 2 < length r \<and> isCommentWhitespace (r ! 2)
              then advance LineComment 3 lx else advance Normal 1 (mark_sql lx))"
            "normal_step u mode r' lx' = Inr (if HasPrefix r ''--'' \<and> 2 < length r \<and> isCommentWhitespace (r ! 2)
              then advance LineComment 3 lx' else advance Normal 1 (mark_sql lx'))"
            using agree_white [OF ag] by simp_all
          with step show ?thesis by (auto intro!: matched_advance alike_mark al split: if_splits)
        qed (use steps in \<open>auto simp: normal_step_def Let_def intro!: matched_advance alike_mark alike_emit al
            qm [unfolded One_nat_def] split: if_splits\<close>)
      qed
    qed
  qed
qed

lemma string_alike:
  assumes "agree (Suc m) r r'" "alike lx lx'" "lx_state lx' = lx_state lx" "\<not> in_identifier lx" "q \<noteq> CHR '':''" "q \<noteq> CHR ''?''"
  shows "matched s s' (string_step mode q r lx) (string_step mode q r' lx')"
    "lx_index (string_step mode q r' lx') + lx_index lx = lx_index (string_step mode q r lx) + lx_index lx'"
proof -
  obtain c t t' where r: "r = c # t" "r' = c # t'" "agree m t t'" using agree_Suc [OF assms(1)] by blast
  have pre: "HasPrefix r' [q, q] \<longleftrightarrow> HasPrefix r [q, q]" by (rule agree_prefix [OF assms(1), symmetric]) (use assms(5,6) in auto)
  have len: "t' = [] \<longleftrightarrow> t = []" using r(3) by (auto simp: agree_def)
  have keep: "matched s s' (advance (lx_state lx) n lx) (advance (lx_state lx') n lx')" for n
    using assms(3,4) by (auto simp: matched_def in_identifier_def intro: alike_advance assms(2))
  have "matched s s' (advance Normal n lx) (advance Normal n lx')" for n by (rule matched_advance) (use assms(2) in simp_all)
  with keep show "matched s s' (string_step mode q r lx) (string_step mode q r' lx')"
    using r(1,2) len pre by (auto simp: string_step_def)
  show "lx_index (string_step mode q r' lx') + lx_index lx = lx_index (string_step mode q r lx) + lx_index lx'"
    using r(1,2) len pre by (auto simp: string_step_def)
qed

lemma identifier_alike:
  assumes "agree (Suc m) (drop (lx_index lx) s) (drop (lx_index lx') s')" "alike lx lx'" "lx_state lx' = lx_state lx"
    "quoted_alike s s' lx lx'" "q \<noteq> CHR '':''" "q \<noteq> CHR ''?''"
    "lx_index (identifier_step u s q (drop (lx_index lx) s) lx) \<le> lx_index lx + Suc m"
  shows "matched s s' (identifier_step u s q (drop (lx_index lx) s) lx) (identifier_step u s' q (drop (lx_index lx') s') lx')"
    "lx_index (identifier_step u s' q (drop (lx_index lx') s') lx') + lx_index lx = lx_index (identifier_step u s q (drop (lx_index lx) s) lx) + lx_index lx'"
proof -
  let ?r = "drop (lx_index lx) s" and ?r' = "drop (lx_index lx') s'"
  have hd: "hd ?r' = hd ?r" using agree_Suc [OF assms(1)] by fastforce
  have pre: "HasPrefix ?r' [q, q] \<longleftrightarrow> HasPrefix ?r [q, q]" by (rule agree_prefix [OF assms(1), symmetric]) (use assms(5,6) in auto)
  have keep: "matched s s' (advance (lx_state lx) n lx) (advance (lx_state lx') n lx')" if "n \<le> Suc m" for n
    using quoted_advance [OF assms(4) agree_take [OF assms(1) that]] assms(2,3) by (simp add: matched_def alike_advance)
  have "matched s s' (advance Normal n (record_name u s q lx)) (advance Normal n (record_name u s' q lx'))" for n
    by (rule matched_advance) (use alike_record [OF assms(2,4)] in simp_all)
  with keep assms(7) show "matched s s' (identifier_step u s q ?r lx) (identifier_step u s' q ?r' lx')"
    using hd pre by (auto simp: identifier_step_def split: if_splits)
  show "lx_index (identifier_step u s' q ?r' lx') + lx_index lx = lx_index (identifier_step u s q ?r lx) + lx_index lx'"
    using hd pre by (auto simp: identifier_step_def)
qed

lemma step_alike:
  assumes step: "scan_step u s mode lx = Inr lx1" and sc: "scanned lx1 = scanned lx"
    and ag: "agree (Suc m) (drop (lx_index lx) s) (drop (lx_index lx') s')" and le: "lx_index lx1 \<le> lx_index lx + Suc m"
    and mt: "matched s s' lx lx'"
  shows "\<exists>lx1'. scan_step u s' mode lx' = Inr lx1' \<and> matched s s' lx1 lx1' \<and> lx_index lx1' + lx_index lx = lx_index lx1 + lx_index lx'"
proof -
  have al: "alike lx lx'" "lx_state lx' = lx_state lx" using mt by (simp_all add: matched_def)
  have hd: "hd (drop (lx_index lx') s') = hd (drop (lx_index lx) s)" using agree_Suc [OF ag] by fastforce
  show ?thesis
  proof (cases "lx_state lx")
    case Normal
    then show ?thesis using normal_alike [OF _ sc ag al(1)] step al(2) by (simp add: scan_step_def)
  next
    case SingleString
    then show ?thesis using string_alike(1) [OF ag al, where q = "CHR 0x27" and s = s and s' = s' and mode = mode]
        string_alike(2) [OF ag al, where q = "CHR 0x27" and mode = mode] step al(2) by (auto simp: scan_step_def in_identifier_def)
  next
    case DoubleString
    then show ?thesis using string_alike(1) [OF ag al, where q = "CHR 0x22" and s = s and s' = s' and mode = mode]
        string_alike(2) [OF ag al, where q = "CHR 0x22" and mode = mode] step al(2) by (auto simp: scan_step_def in_identifier_def)
  next
    case DoubleIdentifier
    then have "quoted_alike s s' lx lx'" using mt by (simp add: matched_def in_identifier_def)
    with DoubleIdentifier show ?thesis using identifier_alike [OF ag al, where q = "CHR 0x22" and u = u] step al(2) le by (auto simp: scan_step_def)
  next
    case BacktickIdentifier
    then have "quoted_alike s s' lx lx'" using mt by (simp add: matched_def in_identifier_def)
    with BacktickIdentifier show ?thesis using identifier_alike [OF ag al, where q = "CHR 0x60" and u = u] step al(2) le by (auto simp: scan_step_def)
  next
    case LineComment
    then show ?thesis using step al hd by (auto simp: scan_step_def intro!: matched_advance)
  next
    case BlockComment
    have "HasPrefix (drop (lx_index lx') s') ''*/'' \<longleftrightarrow> HasPrefix (drop (lx_index lx) s) ''*/''"
      by (rule agree_prefix [OF ag, symmetric]) simp_all
    with BlockComment show ?thesis using step al by (auto simp: scan_step_def intro!: matched_advance)
  qed
qed

lemma colon_bound: "colon_step r lx = Inr lx1 \<Longrightarrow> r \<noteq> [] \<Longrightarrow> lx_index lx1 \<le> lx_index lx + length r"
proof -
  assume step: "colon_step r lx = Inr lx1" and "r \<noteq> []"
  then have n: "Suc (identifier_length (drop 1 r)) \<le> length r" using identifier_length_le [of "drop 1 r"] by (cases r) simp_all
  show ?thesis
  proof (cases "HasPrefix r '':=''")
    case True
    with HasPrefix_length [OF True] step show ?thesis by (simp add: colon_step_def) auto
  next
    case False
    with n step show ?thesis by (simp add: colon_step_def Let_def split: if_splits) auto
  qed
qed

lemma slash_bound: "r \<noteq> [] \<Longrightarrow> lx_index (slash_step r lx) \<le> lx_index lx + length r"
  using HasPrefix_length [of r "''/*''"] by (cases r) (auto simp: slash_step_def)

lemma normal_bound:
  assumes "normal_step u mode r lx = Inr lx1" "r \<noteq> []"
  shows "lx_index lx1 \<le> lx_index lx + length r"
proof (cases "HasPrefix r ''[['' \<or> HasPrefix r '']]''")
  case True
  then have "2 \<le> length r" using HasPrefix_length by fastforce
  then show ?thesis
    using assms True identifier_length_le [of r] by (auto simp: normal_step_def Let_def open_block_def close_block_def split: if_splits option.splits)
next
  case False
  have "1 \<le> length r" using assms(2) by (cases r) auto
  moreover have "HasPrefix r ''--'' \<and> 2 < length r \<and> isCommentWhitespace (r ! 2) \<longrightarrow> 3 \<le> length r" by simp
  moreover have "lx_index (slash_step r lx) \<le> lx_index lx + length r" by (rule slash_bound [OF assms(2)])
  moreover have "colon_step r lx = Inr lx1 \<Longrightarrow> lx_index lx1 \<le> lx_index lx + length r" using colon_bound assms(2) by blast
  ultimately show ?thesis
    using False assms(1) identifier_length_le [of r] unfolding normal_step_def Let_def
    by (simp split: if_splits) auto
qed

lemma scan_step_bound:
  assumes "scan_step u s mode lx = Inr lx1" "lx_index lx < length s"
  shows "lx_index lx1 \<le> length s"
proof -
  let ?r = "drop (lx_index lx) s"
  have r: "?r \<noteq> []" using assms(2) by simp
  then have "1 \<le> length ?r" using assms(2) by simp
  have two: "HasPrefix ?r [a, b] \<Longrightarrow> 2 \<le> length ?r" for a b using HasPrefix_length [of ?r "[a, b]"] by simp
  have strs: "lx_index (string_step mode q ?r lx) \<le> lx_index lx + length ?r" for q
    using two [of q q] \<open>1 \<le> length ?r\<close> by (auto simp: string_step_def)
  have ids: "lx_index (identifier_step u s q ?r lx) \<le> lx_index lx + length ?r" for q
    using two [of q q] \<open>1 \<le> length ?r\<close> by (auto simp: identifier_step_def)
  have "lx_index lx1 \<le> lx_index lx + length ?r"
  proof (cases "lx_state lx")
    case Normal
    then have "normal_step u mode ?r lx = Inr lx1" using assms(1) by (simp add: scan_step_def)
    from normal_bound [OF this r] show ?thesis .
  next
    case BlockComment
    with assms two [of "CHR ''*''" "CHR ''/''"] \<open>1 \<le> length ?r\<close> show ?thesis by (auto simp: scan_step_def split: if_splits)
  qed (use assms strs ids \<open>1 \<le> length ?r\<close> in \<open>auto simp: scan_step_def Let_def\<close>)
  then show ?thesis using assms(2) by simp
qed

lemma mark_step:
  assumes "lx_state lx = Normal" "drop (lx_index lx) s = c # r" "c = CHR ''?'' \<or> c = CHR '',''"
  shows "scan_step u s mode lx = Inr (advance Normal 1 (mark_sql (emit [c] lx)))" "lx_index lx < length s"
    "drop (lx_index lx + 1) s = r"
proof -
  have "byte_string (CHR ''?'') = ''?''" "byte_string (CHR '','') = '',''" by (simp_all add: byte_string_ascii)
  moreover have "\<not> isIdentifierByte (CHR ''?'')" "\<not> isIdentifierByte (CHR '','')" "\<not> isCommentWhitespace (CHR ''?'')" "\<not> isCommentWhitespace (CHR '','')"
    by code_simp+
  ultimately show "scan_step u s mode lx = Inr (advance Normal 1 (mark_sql (emit [c] lx)))"
    using assms by (auto simp: scan_step_def normal_step_def HasPrefix_Cons)
  show "lx_index lx < length s" "drop (lx_index lx + 1) s = r" using drop_nth [OF assms(2)] by simp_all
qed

lemma more_marks:
  assumes "lx_state lx = Normal" "names_bound lx" "lx_openBlock lx = None \<or> lx_blockHasSQL lx"
    "drop (lx_index lx) s = concat (replicate n '',?'') @ r"
  shows "\<exists>lx'. scan_loop u s mode lx = scan_loop u s mode lx' \<and> lx_index lx' = lx_index lx + 2 * n \<and> lx_state lx' = Normal \<and>
     lx_openBlock lx' = lx_openBlock lx \<and> lx_blockHasSQL lx' = lx_blockHasSQL lx \<and>
     ss_ExecutableComment (lx_scan lx') = ss_ExecutableComment (lx_scan lx) \<and> scanned lx' = scanned lx \<and> names_bound lx' \<and>
     named_tokens (lx_scan lx') = named_tokens (lx_scan lx) @ concat (replicate n [('','', None), (''?'', None)])"
  using assms
proof (induction n arbitrary: lx)
  case 0
  then show ?case by auto
next
  case (Suc n)
  let ?a = "advance Normal 1 (mark_sql (emit '','' lx))"
  let ?b = "advance Normal 1 (mark_sql (emit ''?'' ?a))"
  have d: "drop (lx_index lx) s = CHR '','' # CHR ''?'' # concat (replicate n '',?'') @ r" using Suc.prems(4) by simp
  note one = mark_step(1) [OF Suc.prems(1) d, where u = u and mode = mode, simplified] mark_step(2,3) [OF Suc.prems(1) d, simplified]
  have da: "drop (lx_index ?a) s = CHR ''?'' # concat (replicate n '',?'') @ r" using one(3) by simp
  have sa: "lx_state ?a = Normal" by simp
  note two = mark_step(1) [OF sa da, where u = u and mode = mode, simplified] mark_step(2,3) [OF sa da, simplified]
  have nb: "names_bound ?a" "names_bound ?b" using Suc.prems(2) by (simp_all add: names_bound_def)
  have named: "named_tokens (lx_scan ?b) = named_tokens (lx_scan lx) @ [('','', None), (''?'', None)]"
    using named_emit [OF Suc.prems(2), of "'',''"] named_emit [OF nb(1), of "''?''"] by simp
  have loops: "scan_loop u s mode lx = scan_loop u s mode ?b"
    using one two scan_loop.simps [of u s mode lx] scan_loop.simps [of u s mode ?a] by simp
  have "lx_blockHasSQL ?b = lx_blockHasSQL lx" "drop (lx_index ?b) s = concat (replicate n '',?'') @ r" "lx_openBlock ?b = None \<or> lx_blockHasSQL ?b"
    using Suc.prems(3) two(3) by auto
  with Suc.IH [OF _ nb(2)] loops named show ?case by (fastforce simp: scanned_def)
qed

lemma placeholder_step:
  assumes "scan_step u s mode lx = Inr lx1" "scanned lx1 = scanned lx @ [p]"
  shows "lx1 = advance Normal (lx_index lx1 - lx_index lx) (mark_sql (add_placeholder p (emit ''?'' lx)))" "lx_state lx = Normal"
  using assms by (simp_all add: scanned_def scan_steps split: lexical.splits if_splits option.splits) (auto simp: scanned_def)

lemma alike_placeholder:
  assumes "alike lx lx'" "lx_state lx' = Normal" "drop (lx_index lx') s = mark_list n @ r"
  shows "\<exists>lx2. scan_loop u s mode lx' = scan_loop u s mode lx2 \<and> lx_index lx2 = lx_index lx' + length (mark_list n) \<and>
     matched s0 s (advance Normal k (mark_sql (add_placeholder p (emit ''?'' lx)))) lx2"
proof -
  have d: "drop (lx_index lx') s = CHR ''?'' # concat (replicate n '',?'') @ r" using assms(3) by (simp add: mark_list_def)
  let ?a = "advance Normal 1 (mark_sql (emit ''?'' lx'))"
  note one = mark_step(1) [OF assms(2) d, where u = u and mode = mode, simplified] mark_step(2,3) [OF assms(2) d, simplified]
  have loop: "scan_loop u s mode lx' = scan_loop u s mode ?a" using one scan_loop.simps [of u s mode lx'] by simp
  have nb: "names_bound lx" "names_bound lx'" "names_bound ?a" using assms(1) by (simp_all add: alike_def names_bound_def)
  have p1: "lx_state ?a = Normal" and p2: "lx_openBlock ?a = None \<or> lx_blockHasSQL ?a" by auto
  have p3: "drop (lx_index ?a) s = concat (replicate n '',?'') @ r" using one(3) by simp
  obtain lx2 where lx2: "scan_loop u s mode ?a = scan_loop u s mode lx2" "lx_index lx2 = lx_index ?a + 2 * n" "lx_state lx2 = Normal"
    "lx_openBlock lx2 = lx_openBlock ?a" "lx_blockHasSQL lx2 = lx_blockHasSQL ?a"
    "ss_ExecutableComment (lx_scan lx2) = ss_ExecutableComment (lx_scan ?a)" "scanned lx2 = scanned ?a" "names_bound lx2"
    "named_tokens (lx_scan lx2) = named_tokens (lx_scan ?a) @ concat (replicate n [('','', None), (''?'', None)])"
    using more_marks [OF p1 nb(3) p2 p3, of u mode] by blast
  let ?b = "advance Normal k (mark_sql (add_placeholder p (emit ''?'' lx)))"
  have "named_tokens (lx_scan ?b) = named_tokens (lx_scan lx) @ [(''?'', None)]"
    using named_emit [OF nb(1), of "''?''"] by (simp add: named_tokens_def)
  moreover have "named_tokens (lx_scan lx2) = named_tokens (lx_scan lx') @ (''?'', None) # concat (replicate n [('','', None), (''?'', None)]) @ []"
    using lx2(9) named_emit [OF nb(2), of "''?''"] by simp
  ultimately have "expands_named (named_tokens (lx_scan ?b)) (named_tokens (lx_scan lx2))"
    using assms(1) by (auto simp: alike_def intro!: expands_append expands.mark expands.nil simp del: append_Nil2)
  moreover have "names_bound ?b" using nb(1) by (simp add: names_bound_def)
  ultimately have "alike ?b lx2" using assms(1) lx2(4-8) by (auto simp: alike_def scanned_def)
  moreover have "length (mark_list n) = 1 + 2 * n" by (induction n) (simp_all add: mark_list_def)
  ultimately show ?thesis using loop lx2(1-3) by (intro exI [of _ lx2]) (simp add: matched_def in_identifier_def)
qed

lemma loop_alike:
  assumes "scan_loop u s mode lx = Inr lxf" "scanned lxf = scanned lx @ ps" "matched s s' lx lx'"
    "drop (lx_index lx') s' = rewritten s sz (lx_index lx) ps"
  shows "\<exists>lxf'. scan_loop u s' mode lx' = Inr lxf' \<and> matched s s' lxf lxf'"
  using assms
proof (induction u s mode lx arbitrary: lx' ps rule: scan_loop.induct)
  case (1 u s mode lx)
  show ?case
  proof (cases "lx_index lx < length s")
    case False
    with "1.prems"(1) have "lxf = lx" by (subst (asm) scan_loop.simps) auto
    moreover from this "1.prems"(2,4) False have "drop (lx_index lx') s' = []" by simp
    ultimately show ?thesis using "1.prems"(3) by (subst scan_loop.simps) auto
  next
    case True
    with "1.prems"(1) obtain lx1 where st: "scan_step u s mode lx = Inr lx1" and l: "scan_loop u s mode lx1 = Inr lxf"
      by (subst (asm) scan_loop.simps) (auto split: sum.splits)
    obtain qs where qs: "scanned lxf = scanned lx1 @ qs" "spans (lx_index lx1) qs" "list_all (placeholder_at s) qs"
      using scan_loop_placeholders [OF l] by blast
    have less: "lx_index lx < lx_index lx1" "lx_index lx1 \<le> length s"
      using scan_step_progress [OF st True] scan_step_bound [OF st True] by auto
    from scan_step_placeholders [OF st True] consider "scanned lx1 = scanned lx"
      | p where "scanned lx1 = scanned lx @ [p]" "ph_Start p = lx_index lx" "ph_End p = lx_index lx1" by blast
    then show ?thesis
    proof cases
      case 1
      then have ps: "ps = qs" using qs(1) "1.prems"(2) by simp
      let ?m = "case ps of [] \<Rightarrow> length s - lx_index lx | p # _ \<Rightarrow> ph_Start p - lx_index lx"
      have ag: "agree ?m (drop (lx_index lx) s) (drop (lx_index lx') s')"
        unfolding "1.prems"(4) by (rule rewritten_agree) (use qs ps less in \<open>auto intro: spans_mono\<close>)
      have m: "lx_index lx1 \<le> lx_index lx + ?m" "0 < ?m" using qs(2) ps less by (auto split: list.splits)
      then obtain k where k: "?m = Suc k" by (cases ?m) auto
      from step_alike [OF st 1 ag [unfolded k] _ "1.prems"(3)] m(1) k obtain lx1' where
        s1: "scan_step u s' mode lx' = Inr lx1'" "matched s s' lx1 lx1'" "lx_index lx1' + lx_index lx = lx_index lx1 + lx_index lx'" by auto
      have "lx_index lx' < length s'" using ag m(2) by (auto simp: agree_def)
      then have loop: "scan_loop u s' mode lx' = scan_loop u s' mode lx1'" using s1(1) by (subst scan_loop.simps) simp
      have "lx_index lx1' = (lx_index lx1 - lx_index lx) + lx_index lx'" using s1(3) less by simp
      then have "drop (lx_index lx1') s' = drop (lx_index lx1 - lx_index lx) (drop (lx_index lx') s')" by simp
      also have "\<dots> = rewritten s sz (lx_index lx1) qs"
        unfolding "1.prems"(4) ps by (rule rewritten_advance) (use qs less in auto)
      finally show ?thesis using "1.IH" [OF True st l qs(1) s1(2)] loop by simp
    next
      case (2 p)
      then have ps: "ps = p # qs" using qs(1) "1.prems"(2) by simp
      have d: "drop (lx_index lx') s' = mark_list (sz p) @ rewritten s sz (lx_index lx1) qs"
        using "1.prems"(4) ps 2 by (simp add: slice_def)
      have al: "alike lx lx'" "lx_state lx' = Normal"
        using "1.prems"(3) placeholder_step(2) [OF st 2(1)] by (simp_all add: matched_def)
      from alike_placeholder [OF al d, of u mode s "lx_index lx1 - lx_index lx" p] obtain lx2 where
        "scan_loop u s' mode lx' = scan_loop u s' mode lx2" "lx_index lx2 = lx_index lx' + length (mark_list (sz p))" "matched s s' lx1 lx2"
        using placeholder_step(1) [OF st 2(1)] by auto
      moreover from this(2) have "drop (lx_index lx2) s' = rewritten s sz (lx_index lx1) qs"
        using d by (metis add.commute append_eq_conv_conj drop_drop)
      ultimately show ?thesis using "1.IH" [OF True st l qs(1)] by metis
    qed
  qed
qed

lemma scan_rewritten:
  assumes "scanStatement u s mode = Inr scan"
  shows "\<exists>scan'. scanStatement u (rewritten s sz 0 (ss_Placeholders scan)) mode = Inr scan' \<and> ss_Placeholders scan' = [] \<and>
     ss_ExecutableComment scan' = ss_ExecutableComment scan \<and> expands_named (named_tokens scan) (named_tokens scan')"
proof -
  let ?s' = "rewritten s sz 0 (ss_Placeholders scan)"
  from assms obtain lx where lx: "scan_loop u s mode scan_start = Inr lx" "lx_state lx = Normal \<or> lx_state lx = LineComment"
    "lx_openBlock lx = None" "scan = lx_scan lx" by (auto simp: scanStatement_def split: sum.splits if_splits)
  have "alike scan_start scan_start" by (simp add: alike_def scan_start_def scanned_def named_tokens_def names_bound_def expands.nil)
  then have "matched s ?s' scan_start scan_start" by (simp add: matched_def in_identifier_def scan_start_def)
  moreover have "scanned lx = scanned scan_start @ ss_Placeholders scan" using lx(4) by (simp add: scanned_def scan_start_def)
  ultimately obtain lx' where "scan_loop u ?s' mode scan_start = Inr lx'" "matched s ?s' lx lx'"
    using loop_alike [OF lx(1), of "ss_Placeholders scan" ?s' scan_start sz] by (auto simp: scan_start_def)
  then show ?thesis using lx by (auto simp: scanStatement_def matched_def alike_def scanned_def)
qed

section \<open>Properties\<close>

text \<open>
  C38. What a successful scan reports is really in the statement: every placeholder is a colon followed by its key, a valid one, and
  every optional block is enclosed in double brackets; placeholders are in order and do not overlap, nor do blocks, and
  the placeholders a block lists are exactly those inside it.
\<close>

theorem scanStatement_structure:
  assumes "scanStatement upper statement mode = Inr scan"
  shows "list_all (placeholder_at statement) (ss_Placeholders scan) \<and> spans 0 (ss_Placeholders scan) \<and>
    list_all (block_at statement) (ss_OptionalBlocks scan) \<and> sorted_wrt (\<lambda>b c. ob_End b \<le> ob_Start c) (ss_OptionalBlocks scan) \<and>
    list_all (\<lambda>b. ob_Placeholders b = filter (in_span (ob_Start b) (ob_End b)) (ss_Placeholders scan)) (ss_OptionalBlocks scan)"
proof -
  from assms obtain lx where lx: "scan_loop upper statement mode scan_start = Inr lx" "scan = lx_scan lx"
    by (auto simp: scanStatement_def split: sum.splits if_splits)
  have "blocks_inv statement scan_start" by (simp add: blocks_inv_def scan_start_def scanned_def)
  with scan_loop_blocks_inv [OF lx(1)] have "blocks_inv statement lx" by blast
  moreover have "list_all (placeholder_at statement) (ss_Placeholders scan) \<and> spans 0 (ss_Placeholders scan)"
    using scan_loop_placeholders [OF lx(1)] lx(2) by (auto simp: scanned_def scan_start_def)
  ultimately show ?thesis using lx(2) by (simp add: blocks_inv_def scanned_def list_all_iff)
qed

theorem scanStatement_structure_witness:
  "\<exists>scan. scanStatement id ''a[[:b]]'' \<lparr>sm_ANSIQuotes = False, sm_NoBackslashEscapes = False\<rparr> = Inr scan \<and>
     ss_Placeholders scan = [\<lparr>ph_Key = ''b'', ph_Start = 3, ph_End = 5\<rparr>] \<and> list_all (placeholder_at ''a[[:b]]'') (ss_Placeholders scan) \<and>
     list_all (block_at ''a[[:b]]'') (ss_OptionalBlocks scan) \<and> length (ss_OptionalBlocks scan) = 1"
proof -
  let ?m = "\<lparr>sm_ANSIQuotes = False, sm_NoBackslashEscapes = False\<rparr>"
  have "map_sum id (\<lambda>scan. (ss_Placeholders scan, length (ss_OptionalBlocks scan))) (scanStatement id ''a[[:b]]'' ?m)
    = Inr ([\<lparr>ph_Key = ''b'', ph_Start = 3, ph_End = 5\<rparr>], 1)" by code_simp
  then obtain scan where "scanStatement id ''a[[:b]]'' ?m = Inr scan" "ss_Placeholders scan = [\<lparr>ph_Key = ''b'', ph_Start = 3, ph_End = 5\<rparr>]"
    "length (ss_OptionalBlocks scan) = 1" by (cases "scanStatement id ''a[[:b]]'' ?m") auto
  with scanStatement_structure [of id "''a[[:b]]''" ?m scan] show ?thesis by blast
qed

end
