(* ===== verification/Report_Binding.thy ===== *)
theory Report_Binding
  imports Run_Parameters Report_Spans
begin

text \<open>
  Binding of report parameters into SQL (\<^verbatim>\<open>src/internal/reporting/parameters.go\<close>, the part that reads statements):
  the references of a statement are checked against the parameters, optional blocks are kept or dropped, and every
  placeholder becomes one or more \<open>?\<close> marks with their arguments.

  A value of type \<open>any\<close> is \<open>go_any\<close>, a Go map an association list.

  Shown: the text of the query depends on the values only through which are provided and how many options are
  selected, never on their contents; the query sent to the database is itself accepted by the read-only policy, and its
  arguments are exactly the values of its placeholders.
\<close>

section \<open>Data\<close>

datatype ParameterType = ParameterText | ParameterInteger | ParameterDecimal | ParameterDate | ParameterDatetime | ParameterBoolean
  | ParameterSingleOption | ParameterMultipleOption | OtherParameterType string

datatype OptionSource = OptionSourceUnset | OptionSourceStatic | OptionSourceDynamic | OtherOptionSource string

record ParameterOption =
  po_Value :: string
  po_Label :: string
  po_DisplayOrder :: "16 word"

record Parameter =
  pa_Key :: string
  pa_Label :: string
  pa_Type :: ParameterType
  pa_OptionSource :: OptionSource
  pa_DynamicOptionSQL :: string
  pa_Required :: bool
  pa_DefaultValue :: raw_json
  pa_DisplayOrder :: "16 word"
  pa_Options :: "ParameterOption list"

datatype go_any = AnyNil | AnyString string | AnyInt64 "64 word" | AnyBool bool

record NormalizedValue =
  nv_Scalar :: go_any
  nv_Multi :: "go_any list"
  nv_OptionLabels :: "(string \<times> string) list"

type_synonym bindings = "(string \<times> NormalizedValue) list"

definition Provided :: "NormalizedValue \<Rightarrow> bool" where
  "Provided value \<longleftrightarrow> nv_Scalar value \<noteq> AnyNil \<or> nv_Multi value \<noteq> []"

section \<open>References\<close>

definition HasSuffix :: "string \<Rightarrow> string \<Rightarrow> bool" where
  "HasSuffix s p = (length p \<le> length s \<and> drop (length s - length p) s = p)"

definition splitPlaceholderKey :: "string \<Rightarrow> string \<times> bool" where
  "splitPlaceholderKey key =
     (if HasSuffix key ''__count'' then (take (length key - 7) key, True) else (key, False))"

text \<open>The map from keys to parameters; a later parameter replaces an earlier one of the same key.\<close>

definition definitions_of :: "Parameter list \<Rightarrow> (string \<rightharpoonup> Parameter)" where
  "definitions_of parameters = fold (\<lambda>p m. m(pa_Key p \<mapsto> p)) parameters Map.empty"

text \<open>The check of one reference that all three loops share.\<close>

definition check_reference :: "string \<Rightarrow> (string \<rightharpoonup> Parameter) \<Rightarrow> Placeholder \<Rightarrow> Parameter result" where
  "check_reference unknown definitions placeholder =
     (let (key, count) = splitPlaceholderKey (ph_Key placeholder)
      in case definitions key of
           None \<Rightarrow> Inl (ErrInvalid unknown)
         | Some parameter \<Rightarrow>
             if count \<and> pa_Type parameter \<noteq> ParameterMultipleOption
             then Inl (ErrInvalid ''count is only valid for multiple options'') else Inr parameter)"

fun validate_loop :: "(string \<rightharpoonup> Parameter) \<Rightarrow> Placeholder list \<Rightarrow> unit result" where
  "validate_loop definitions [] = Inr ()"
| "validate_loop definitions (placeholder # placeholders) =
     (case check_reference ''SQL references unknown parameter'' definitions placeholder of Inl x \<Rightarrow> Inl x | Inr _ \<Rightarrow> validate_loop definitions placeholders)"

definition validateReferences :: "Placeholder list \<Rightarrow> Parameter list \<Rightarrow> unit result" where
  "validateReferences placeholders parameters = validate_loop (definitions_of parameters) placeholders"

record validatedOptionalBlock =
  vb_Block :: optionalBlock
  vb_OptionalKeys :: "string list"

text \<open>The optional keys of one block, in order and once each.\<close>

fun block_keys :: "(string \<rightharpoonup> Parameter) \<Rightarrow> string list \<Rightarrow> Placeholder list \<Rightarrow> string list result" where
  "block_keys definitions keys [] = Inr keys"
| "block_keys definitions keys (placeholder # placeholders) =
     (case check_reference ''optional SQL block references unknown parameter'' definitions placeholder of
        Inl x \<Rightarrow> Inl x
      | Inr parameter \<Rightarrow>
          let key = fst (splitPlaceholderKey (ph_Key placeholder))
          in if pa_Required parameter \<or> key \<in> set keys then block_keys definitions keys placeholders
             else block_keys definitions (keys @ [key]) placeholders)"

fun validate_blocks :: "(string \<rightharpoonup> Parameter) \<Rightarrow> optionalBlock list \<Rightarrow> validatedOptionalBlock list result" where
  "validate_blocks definitions [] = Inr []"
| "validate_blocks definitions (block # blocks) =
     (case block_keys definitions [] (ob_Placeholders block) of
        Inl x \<Rightarrow> Inl x
      | Inr keys \<Rightarrow>
          if keys = [] then Inl (ErrInvalid ''optional SQL block must reference at least one optional parameter'')
          else case validate_blocks definitions blocks of
            Inl x \<Rightarrow> Inl x
          | Inr rest \<Rightarrow> Inr (\<lparr>vb_Block = block, vb_OptionalKeys = keys\<rparr> # rest))"

fun check_outside :: "(string \<rightharpoonup> Parameter) \<Rightarrow> nat list \<Rightarrow> Placeholder list \<Rightarrow> unit result" where
  "check_outside definitions inside [] = Inr ()"
| "check_outside definitions inside (placeholder # placeholders) =
     (if ph_Start placeholder \<in> set inside then check_outside definitions inside placeholders
      else case check_reference ''SQL references unknown parameter'' definitions placeholder of
        Inl x \<Rightarrow> Inl x
      | Inr parameter \<Rightarrow>
          if \<not> pa_Required parameter then Inl (ErrInvalid ''optional parameter is referenced outside an optional SQL block'')
          else check_outside definitions inside placeholders)"

definition scanAndValidateStatement :: "(rune \<Rightarrow> rune) \<Rightarrow> string \<Rightarrow> Parameter list \<Rightarrow> SQLMode \<Rightarrow>
    (statementScan \<times> validatedOptionalBlock list) result" where
  "scanAndValidateStatement upper statement parameters mode =
     (case scanStatement upper statement mode of
        Inl x \<Rightarrow> Inl x
      | Inr scan \<Rightarrow>
          (case ValidateReadOnlyStatement upper statement mode of
             Inl x \<Rightarrow> Inl x
           | Inr _ \<Rightarrow>
               if ss_OptionalBlocks scan = [] then
                 (case validateReferences (ss_Placeholders scan) parameters of Inl x \<Rightarrow> Inl x | Inr _ \<Rightarrow> Inr (scan, []))
               else
                 (let definitions = definitions_of parameters;
                      inside = map ph_Start (concat (map ob_Placeholders (ss_OptionalBlocks scan)))
                  in case validate_blocks definitions (ss_OptionalBlocks scan) of
                       Inl x \<Rightarrow> Inl x
                     | Inr blocks \<Rightarrow>
                         (case check_outside definitions inside (ss_Placeholders scan) of
                            Inl x \<Rightarrow> Inl x
                          | Inr _ \<Rightarrow> Inr (scan, blocks)))))"

section \<open>Optional blocks\<close>

fun include_block :: "bindings \<Rightarrow> string list \<Rightarrow> bool result" where
  "include_block values [] = Inr True"
| "include_block values (key # keys) =
     (case map_of values key of
        None \<Rightarrow> Inl (ErrInvalid ''parameter is not normalized'')
      | Some value \<Rightarrow> (case include_block values keys of Inl x \<Rightarrow> Inl x | Inr include \<Rightarrow> Inr (Provided value \<and> include)))"

fun resolve_loop :: "string \<Rightarrow> bindings \<Rightarrow> nat \<Rightarrow> validatedOptionalBlock list \<Rightarrow> string result" where
  "resolve_loop statement values position [] = Inr (drop position statement)"
| "resolve_loop statement values position (block # blocks) =
     (case include_block values (vb_OptionalKeys block) of
        Inl x \<Rightarrow> Inl x
      | Inr include \<Rightarrow>
          (case resolve_loop statement values (ob_End (vb_Block block)) blocks of
             Inl x \<Rightarrow> Inl x
           | Inr rest \<Rightarrow>
               Inr (slice statement position (ob_Start (vb_Block block)) @
                 (if include then slice statement (ob_ContentStart (vb_Block block)) (ob_ContentEnd (vb_Block block)) else '' '') @ rest)))"

definition resolveOptionalBlocks :: "string \<Rightarrow> validatedOptionalBlock list \<Rightarrow> bindings \<Rightarrow> string result" where
  "resolveOptionalBlocks statement blocks values =
     (if blocks = [] then Inr statement else resolve_loop statement values 0 blocks)"

section \<open>Binding\<close>

text \<open>What one placeholder writes: the marks and the arguments. A key without a parameter has the zero parameter in Go,
  whose type is not multiple.\<close>

definition marks :: "nat \<Rightarrow> string" where
  "marks n = (case n of 0 \<Rightarrow> [] | Suc k \<Rightarrow> CHR ''?'' # concat (replicate k '',?''))"

definition bind_one :: "(string \<rightharpoonup> Parameter) \<Rightarrow> bindings \<Rightarrow> string \<Rightarrow> (string \<times> go_any list) result" where
  "bind_one definitions values placeholderKey =
     (let (key, count) = splitPlaceholderKey placeholderKey;
          multiple = (case definitions key of None \<Rightarrow> False | Some parameter \<Rightarrow> pa_Type parameter = ParameterMultipleOption)
      in case map_of values key of
           None \<Rightarrow> Inl (ErrInvalid ''parameter is not normalized'')
         | Some value \<Rightarrow>
             if count then
               (if \<not> multiple then Inl (ErrInvalid ''count is only valid for multiple options'')
                else Inr (''?'', [AnyInt64 (of_nat (length (nv_Multi value)))]))
             else if multiple then
               (if nv_Multi value = [] then Inr (''?'', [AnyNil]) else Inr (marks (length (nv_Multi value)), nv_Multi value))
             else Inr (''?'', [nv_Scalar value]))"

fun bind_loop :: "string \<Rightarrow> (string \<rightharpoonup> Parameter) \<Rightarrow> bindings \<Rightarrow> nat \<Rightarrow> Placeholder list \<Rightarrow> (string \<times> go_any list) result" where
  "bind_loop statement definitions values position [] = Inr (drop position statement, [])"
| "bind_loop statement definitions values position (placeholder # placeholders) =
     (case bind_one definitions values (ph_Key placeholder) of
        Inl x \<Rightarrow> Inl x
      | Inr (text0, args) \<Rightarrow>
          (case bind_loop statement definitions values (ph_End placeholder) placeholders of
             Inl x \<Rightarrow> Inl x
           | Inr (query, arguments) \<Rightarrow> Inr (slice statement position (ph_Start placeholder) @ text0 @ query, args @ arguments)))"

definition Bind :: "(rune \<Rightarrow> rune) \<Rightarrow> string \<Rightarrow> Parameter list \<Rightarrow> bindings \<Rightarrow> SQLMode \<Rightarrow> (string \<times> go_any list) result" where
  "Bind upper statement parameters values mode =
     (case scanAndValidateStatement upper statement parameters mode of
        Inl x \<Rightarrow> Inl x
      | Inr (_, blocks) \<Rightarrow>
          (case resolveOptionalBlocks statement blocks values of
             Inl x \<Rightarrow> Inl x
           | Inr resolved \<Rightarrow>
               (case ValidateReadOnlyStatement upper resolved mode of
                  Inl x \<Rightarrow> Inl x
                | Inr _ \<Rightarrow>
                    (case ScanPlaceholders upper resolved mode of
                       Inl x \<Rightarrow> Inl x
                     | Inr placeholders \<Rightarrow> bind_loop resolved (definitions_of parameters) values 0 placeholders))))"

definition ReferencedParameters :: "(rune \<Rightarrow> rune) \<Rightarrow> string \<Rightarrow> Parameter list \<Rightarrow> SQLMode \<Rightarrow> string list result" where
  "ReferencedParameters upper statement parameters mode =
     (case scanAndValidateStatement upper statement parameters mode of
        Inl x \<Rightarrow> Inl x
      | Inr (scan, _) \<Rightarrow> Inr (fold (\<lambda>p keys. let key = fst (splitPlaceholderKey (ph_Key p)) in if key \<in> set keys then keys else keys @ [key])
          (ss_Placeholders scan) []))"

text \<open>Every value of the binder is a driver value.\<close>

definition DriverNamedValues :: "go_any list \<Rightarrow> (nat \<times> go_any) list" where
  "DriverNamedValues arguments = zip [1 ..< Suc (length arguments)] arguments"

section \<open>What binding writes\<close>

lemma marks_mark_list: "marks (Suc n) = mark_list n"
  by (simp add: marks_def mark_list_def)

text \<open>A placeholder writes as many marks as it adds arguments, at least one.\<close>

lemma bind_one_marks:
  "bind_one definitions values key = Inr (text0, args) \<Longrightarrow> args \<noteq> [] \<and> text0 = mark_list (length args - 1)"
  by (cases "splitPlaceholderKey key")
    (auto simp: bind_one_def Let_def mark_list_def marks_def split: option.splits if_splits nat.splits)

definition bound_arguments :: "(string \<rightharpoonup> Parameter) \<Rightarrow> bindings \<Rightarrow> Placeholder \<Rightarrow> go_any list" where
  "bound_arguments definitions values p =
     (case bind_one definitions values (ph_Key p) of Inl _ \<Rightarrow> [] | Inr (_, args) \<Rightarrow> args)"

lemma bind_loop_rewritten:
  "bind_loop statement definitions values i ps = Inr (query, arguments) \<Longrightarrow>
     query = rewritten statement (\<lambda>p. length (bound_arguments definitions values p) - 1) i ps \<and>
     arguments = concat (map (bound_arguments definitions values) ps)"
proof (induction ps arbitrary: i query arguments)
  case (Cons p ps)
  from Cons.prems obtain text0 args q rest where
    one: "bind_one definitions values (ph_Key p) = Inr (text0, args)" and
    loop: "bind_loop statement definitions values (ph_End p) ps = Inr (q, rest)" and
    out: "query = slice statement i (ph_Start p) @ text0 @ q" "arguments = args @ rest"
    by (auto split: sum.splits prod.splits)
  have "bound_arguments definitions values p = args" using one by (simp add: bound_arguments_def)
  with Cons.IH [OF loop] bind_one_marks [OF one] out show ?case by simp
qed simp

lemma Bind_InrE:
  assumes "Bind upper statement parameters values mode = Inr (query, arguments)"
  obtains scan blocks resolved resolved_scan where
    "scanAndValidateStatement upper statement parameters mode = Inr (scan, blocks)"
    "resolveOptionalBlocks statement blocks values = Inr resolved"
    "ValidateReadOnlyStatement upper resolved mode = Inr ()"
    "scanStatement upper resolved mode = Inr resolved_scan"
    "bind_loop resolved (definitions_of parameters) values 0 (ss_Placeholders resolved_scan) = Inr (query, arguments)"
proof -
  from assms obtain scan blocks resolved where *: "scanAndValidateStatement upper statement parameters mode = Inr (scan, blocks)"
    "resolveOptionalBlocks statement blocks values = Inr resolved" "ValidateReadOnlyStatement upper resolved mode = Inr ()"
    by (auto simp: Bind_def split: sum.splits)
  then obtain s where "scanStatement upper resolved mode = Inr s" by (auto simp: ValidateReadOnlyStatement_iff)
  with * assms show thesis by (intro that [of scan blocks resolved s]) (auto simp: Bind_def ScanPlaceholders_def)
qed

section \<open>Properties\<close>

text \<open>
  C9. The query that is sent to the database is itself a read-only statement. When binding succeeds, scanning its result again
  accepts it, finds no placeholder left in it, and its arguments are those of the placeholders of the
  resolved statement, in order.
\<close>

theorem Bind_read_only:
  assumes "Bind upper statement parameters values mode = Inr (query, arguments)"
  shows "ValidateReadOnlyStatement upper query mode = Inr () \<and> ScanPlaceholders upper query mode = Inr [] \<and>
    (\<exists>blocks scan resolved placeholders. scanAndValidateStatement upper statement parameters mode = Inr (scan, blocks) \<and>
       resolveOptionalBlocks statement blocks values = Inr resolved \<and> ScanPlaceholders upper resolved mode = Inr placeholders \<and>
       arguments = concat (map (bound_arguments (definitions_of parameters) values) placeholders))"
  using assms
proof (rule Bind_InrE)
  fix scan blocks resolved rs
  assume valid: "scanAndValidateStatement upper statement parameters mode = Inr (scan, blocks)"
    "resolveOptionalBlocks statement blocks values = Inr resolved"
    and policy: "ValidateReadOnlyStatement upper resolved mode = Inr ()" and scan: "scanStatement upper resolved mode = Inr rs"
    and loop: "bind_loop resolved (definitions_of parameters) values 0 (ss_Placeholders rs) = Inr (query, arguments)"
  let ?sz = "\<lambda>p. length (bound_arguments (definitions_of parameters) values p) - 1"
  from bind_loop_rewritten [OF loop] have query: "query = rewritten resolved ?sz 0 (ss_Placeholders rs)"
    and args: "arguments = concat (map (bound_arguments (definitions_of parameters) values) (ss_Placeholders rs))" by blast+
  from scan_rewritten [OF scan, of ?sz] obtain qs where qs: "scanStatement upper query mode = Inr qs" "ss_Placeholders qs = []"
    "ss_ExecutableComment qs = ss_ExecutableComment rs" "expands_named (named_tokens rs) (named_tokens qs)" unfolding query by blast
  from policy scan have "\<not> ss_ExecutableComment rs" "accepts (named_tokens rs)" by (auto simp: ValidateReadOnlyStatement_iff)
  with qs accepts_expands have "ValidateReadOnlyStatement upper query mode = Inr ()" by (auto simp: ValidateReadOnlyStatement_iff)
  moreover have "ScanPlaceholders upper query mode = Inr []" "ScanPlaceholders upper resolved mode = Inr (ss_Placeholders rs)"
    using qs scan by (simp_all add: ScanPlaceholders_def)
  ultimately show ?thesis using valid args by blast
qed

text \<open>Two sets of values that differ only in the contents of the values.\<close>

definition same_shape :: "bindings \<Rightarrow> bindings \<Rightarrow> bool" where
  "same_shape values values' \<longleftrightarrow>
     (\<forall>key. rel_option (\<lambda>v v'. Provided v = Provided v' \<and> length (nv_Multi v) = length (nv_Multi v')) (map_of values key) (map_of values' key))"

lemma include_block_shape: "same_shape values values' \<Longrightarrow> include_block values keys = include_block values' keys"
proof (induction keys)
  case (Cons key keys)
  from Cons.prems have "rel_option (\<lambda>v v'. Provided v = Provided v' \<and> length (nv_Multi v) = length (nv_Multi v')) (map_of values key) (map_of values' key)"
    by (simp add: same_shape_def)
  with Cons show ?case by (cases "map_of values key"; cases "map_of values' key") (auto split: sum.split)
qed simp

lemma resolve_shape: "same_shape values values' \<Longrightarrow> resolve_loop statement values i blocks = resolve_loop statement values' i blocks"
  by (induction blocks arbitrary: i) (simp_all add: include_block_shape split: sum.split)

lemma bind_one_shape:
  assumes "same_shape values values'"
  shows "map_sum id fst (bind_one definitions values key) = map_sum id fst (bind_one definitions values' key)"
proof -
  obtain k count where key: "splitPlaceholderKey key = (k, count)" by fastforce
  from assms have "rel_option (\<lambda>v v'. Provided v = Provided v' \<and> length (nv_Multi v) = length (nv_Multi v')) (map_of values k) (map_of values' k)"
    by (simp add: same_shape_def)
  then show ?thesis by (cases "map_of values k"; cases "map_of values' k") (auto simp: bind_one_def key Let_def)
qed

lemma bind_loop_shape:
  assumes "same_shape values values'"
  shows "map_sum id fst (bind_loop statement definitions values i ps) = map_sum id fst (bind_loop statement definitions values' i ps)"
proof (induction ps arbitrary: i)
  case (Cons p ps)
  with bind_one_shape [OF assms, of definitions "ph_Key p"] show ?case
    by (auto simp: map_sum_def split: sum.splits prod.splits) (metis Cons.IH map_sum.simps sum.inject sum.distinct id_apply fst_conv)+
qed simp

text \<open>
  C10. The contents of parameter values never reach the text of the query. If two sets of values provide the same parameters and
  select the same number of options, binding them gives the same query text, or the same error.
\<close>

theorem Bind_text_independent:
  assumes "same_shape values values'"
  shows "map_sum id fst (Bind upper statement parameters values mode) = map_sum id fst (Bind upper statement parameters values' mode)"
  using bind_loop_shape [OF assms]
  by (simp add: Bind_def resolveOptionalBlocks_def resolve_shape [OF assms] split: sum.split prod.split)

lemma check_reference_known:
  "check_reference m definitions p = Inr parameter \<Longrightarrow> definitions (fst (splitPlaceholderKey (ph_Key p))) = Some parameter \<and>
     (snd (splitPlaceholderKey (ph_Key p)) \<longrightarrow> pa_Type parameter = ParameterMultipleOption)"
  by (cases "splitPlaceholderKey (ph_Key p)") (auto simp: check_reference_def split: option.splits if_splits)

lemma definitions_of_keys: "definitions_of parameters key = Some p \<Longrightarrow> p \<in> set parameters \<and> pa_Key p = key"
proof -
  have "fold (\<lambda>p m. m(pa_Key p \<mapsto> p)) ps m key = Some p \<Longrightarrow> p \<in> set ps \<and> pa_Key p = key \<or> m key = Some p" for ps m
  proof (induction ps arbitrary: m)
    case (Cons a ps)
    from Cons.IH [of "m(pa_Key a \<mapsto> a)"] Cons.prems show ?case by (auto split: if_splits)
  qed simp
  from this [of parameters Map.empty] show "definitions_of parameters key = Some p \<Longrightarrow> p \<in> set parameters \<and> pa_Key p = key"
    by (auto simp: definitions_of_def)
qed

lemma bind_loop_total:
  assumes all: "\<forall>p \<in> set parameters. map_of values (pa_Key p) \<noteq> None"
  shows "validate_loop (definitions_of parameters) ps = Inr () \<Longrightarrow> \<exists>r. bind_loop statement (definitions_of parameters) values i ps = Inr r"
proof (induction ps arbitrary: i)
  case (Cons p ps)
  then obtain parameter where ref: "check_reference ''SQL references unknown parameter'' (definitions_of parameters) p = Inr parameter"
    and rest: "validate_loop (definitions_of parameters) ps = Inr ()" by (auto split: sum.splits)
  obtain k count where key: "splitPlaceholderKey (ph_Key p) = (k, count)" by fastforce
  from check_reference_known [OF ref] key have d: "definitions_of parameters k = Some parameter" "count \<longrightarrow> pa_Type parameter = ParameterMultipleOption" by auto
  with definitions_of_keys all obtain v where "map_of values k = Some v" by (metis not_None_eq)
  with d key have "\<exists>t a. bind_one (definitions_of parameters) values (ph_Key p) = Inr (t, a)" by (auto simp: bind_one_def Let_def)
  with Cons.IH [OF rest, of "ph_End p"] show ?case by auto
qed simp

lemma validate_blocks_length: "validate_blocks definitions blocks = Inr vs \<Longrightarrow> map vb_Block vs = blocks"
  by (induction blocks arbitrary: vs) (auto split: sum.splits if_splits)

text \<open>
  C40. A statement that was accepted and has no optional blocks binds for every set of values that has all its parameters, with
  at least one argument for each of its placeholders.
\<close>

theorem Bind_succeeds:
  assumes accepted: "scanAndValidateStatement upper statement parameters mode = Inr (scan, [])"
    and all: "\<forall>p \<in> set parameters. map_of values (pa_Key p) \<noteq> None"
  shows "\<exists>query arguments. Bind upper statement parameters values mode = Inr (query, arguments) \<and>
     length (ss_Placeholders scan) \<le> length arguments"
proof -
  from accepted have scan: "scanStatement upper statement mode = Inr scan" "ValidateReadOnlyStatement upper statement mode = Inr ()"
    by (auto simp: scanAndValidateStatement_def Let_def split: sum.splits if_splits)
  have "ss_OptionalBlocks scan = []"
  proof (rule ccontr)
    assume "ss_OptionalBlocks scan \<noteq> []"
    with accepted scan have "validate_blocks (definitions_of parameters) (ss_OptionalBlocks scan) = Inr []"
      by (auto simp: scanAndValidateStatement_def Let_def split: sum.splits)
    from validate_blocks_length [OF this] \<open>ss_OptionalBlocks scan \<noteq> []\<close> show False by simp
  qed
  with accepted scan have "validate_loop (definitions_of parameters) (ss_Placeholders scan) = Inr ()"
    by (auto simp: scanAndValidateStatement_def validateReferences_def split: sum.splits)
  from bind_loop_total [OF all this, of statement 0] obtain query arguments where
    loop: "bind_loop statement (definitions_of parameters) values 0 (ss_Placeholders scan) = Inr (query, arguments)" by auto
  have "length ps \<le> length (concat (map (bound_arguments d vs) ps))" if "bind_loop st d vs i ps = Inr r" for st d vs i ps r
    using that
  proof (induction ps arbitrary: i r)
    case (Cons p ps)
    then obtain t a r' where "bind_one d vs (ph_Key p) = Inr (t, a)" and rest: "bind_loop st d vs (ph_End p) ps = Inr r'"
      by (auto split: sum.splits)
    then have "1 \<le> length (bound_arguments d vs p)" using bind_one_marks by (cases a) (fastforce simp: bound_arguments_def)+
    with Cons.IH [OF rest] show ?case by simp
  qed simp
  from this [OF loop] bind_loop_rewritten [OF loop] have "length (ss_Placeholders scan) \<le> length arguments" by simp
  moreover have "Bind upper statement parameters values mode = Inr (query, arguments)"
    using accepted scan loop by (simp add: Bind_def resolveOptionalBlocks_def ScanPlaceholders_def)
  ultimately show ?thesis by blast
qed

section \<open>The properties at concrete inputs\<close>

definition sample_mode :: SQLMode where
  "sample_mode = \<lparr>sm_ANSIQuotes = False, sm_NoBackslashEscapes = False\<rparr>"

definition sample_parameter :: "string \<Rightarrow> ParameterType \<Rightarrow> Parameter" where
  "sample_parameter key type0 = \<lparr>pa_Key = key, pa_Label = key, pa_Type = type0, pa_OptionSource = OptionSourceUnset,
     pa_DynamicOptionSQL = [], pa_Required = True, pa_DefaultValue = RawEmpty, pa_DisplayOrder = 1, pa_Options = []\<rparr>"

definition sample_parameters :: "Parameter list" where
  "sample_parameters = [sample_parameter ''a'' ParameterText, sample_parameter ''b'' ParameterMultipleOption]"

definition sample_values :: "string \<Rightarrow> bindings" where
  "sample_values x = [(''a'', \<lparr>nv_Scalar = AnyString x, nv_Multi = [], nv_OptionLabels = []\<rparr>),
     (''b'', \<lparr>nv_Scalar = AnyNil, nv_Multi = [AnyString ''1'', AnyString ''2''], nv_OptionLabels = []\<rparr>)]"

definition sample_statement :: string where
  "sample_statement = ''SELECT :a IN (:b)''"

lemma sample_scan: "ScanPlaceholders id sample_statement sample_mode =
   Inr [\<lparr>ph_Key = ''a'', ph_Start = 7, ph_End = 9\<rparr>, \<lparr>ph_Key = ''b'', ph_Start = 14, ph_End = 16\<rparr>]"
  by code_simp
lemma sample_bound: "Bind id sample_statement sample_parameters (sample_values ''x'') sample_mode =
   Inr (''SELECT ? IN (?,?)'', [AnyString ''x'', AnyString ''1'', AnyString ''2''])"
  by code_simp

theorem Bind_read_only_witness:
  "ValidateReadOnlyStatement id ''SELECT ? IN (?,?)'' sample_mode = Inr () \<and> ScanPlaceholders id ''SELECT ? IN (?,?)'' sample_mode = Inr []"
  using Bind_read_only [OF sample_bound] by blast

theorem Bind_text_independent_witness:
  "map_sum id fst (Bind id sample_statement sample_parameters (sample_values (CHR 0x27 # '' OR 1=1 --'')) sample_mode) = Inr ''SELECT ? IN (?,?)''"
proof -
  have "same_shape (sample_values x) (sample_values y)" for x y
    by (simp add: same_shape_def sample_values_def Provided_def)
  from Bind_text_independent [OF this, of id sample_statement sample_parameters _ sample_mode "''x''"] sample_bound show ?thesis by simp
qed

theorem Bind_succeeds_witness:
  "\<exists>query arguments. Bind id sample_statement sample_parameters (sample_values ''y'') sample_mode = Inr (query, arguments) \<and> 2 \<le> length arguments"
proof -
  have "map_sum id (\<lambda>(scan, blocks). (length (ss_Placeholders scan), blocks)) (scanAndValidateStatement id sample_statement sample_parameters sample_mode) = Inr (2, [])"
    by code_simp
  then obtain scan where "scanAndValidateStatement id sample_statement sample_parameters sample_mode = Inr (scan, [])" "length (ss_Placeholders scan) = 2"
    by (cases "scanAndValidateStatement id sample_statement sample_parameters sample_mode") auto
  moreover have "\<forall>p \<in> set sample_parameters. map_of (sample_values ''y'') (pa_Key p) \<noteq> None" by code_simp
  ultimately show ?thesis using Bind_succeeds [of id sample_statement sample_parameters sample_mode scan "sample_values ''y''"] by simp
qed

end
