(* ===== verification/Fixed_Plan.thy ===== *)
theory Fixed_Plan
  imports Run_Parameters
begin

text \<open>
  Planning of fixed reports (\<^verbatim>\<open>src/internal/ingestion/fixed.go\<close>): the frozen dimensions, the plan of
  source requests, the manifest whose checksum identifies a complete plan, the cover of a date range by
  bounded source chunks, and the coverage dates of source rows.

  A byte buffer is the string of its bytes; the hash function is the parameter \<open>sha\<close>. \<open>time.Parse\<close> and
  \<open>Format\<close> are modelled for layouts made of the elements \<open>2006 01 02 15 04 05\<close> and other characters, as
  in the catalog, and only together: the code accepts a text exactly if formatting the parsed
  time gives the text back, so every element has its full width.
\<close>

section \<open>Data\<close>

definition SingleFixedMemberKey :: string where "SingleFixedMemberKey = ''__single__''"

record RequestDescriptor =
  rd_MemberKey :: string
  rd_ReportName :: string
  rd_Parameters :: "string list"
  rd_RequestedFrom :: CalendarDate
  rd_RequestedTo :: CalendarDate
  rd_SourceLocationID :: string
  rd_AccountCode :: string

record ReplacementScope =
  sc_JobKey :: string
  sc_From :: CalendarDate
  sc_To :: CalendarDate

record FixedPlan =
  fp_JobKey :: string
  fp_Range :: Range
  fp_ReplacementScope :: ReplacementScope
  fp_Members :: "RequestDescriptor list"
  fp_SourceVariants :: "string list"
  fp_RequireAllMembers :: bool

text \<open>The string values of the enumerations.\<close>

fun location_text :: "LocationStrategy \<Rightarrow> string" where
  "location_text SingleRequestAllLocationsEmpty = ''single_request_all_locations_empty''"
| "location_text PerLocation = ''per_location''"
| "location_text (OtherLocation s) = s"

fun account_text :: "AccountCodeStrategy \<Rightarrow> string" where
  "account_text NoAccountCodeStrategy = ''none''"
| "account_text AllAccountCodes = ''all_account_codes''"
| "account_text (OtherAccount s) = s"

fun publication_text :: "PublicationMode \<Rightarrow> string" where
  "publication_text DateAddressable = ''date_addressable''"
| "publication_text IntervalResult = ''interval_result''"
| "publication_text (OtherPublication s) = s"

fun request_text :: "SourceRequestMode \<Rightarrow> string" where
  "request_text BoundedDateChunks = ''bounded_date_chunks''"
| "request_text ExactInterval = ''exact_interval''"
| "request_text (OtherRequestMode s) = s"

section \<open>Manifest\<close>

definition be16 :: "16 word \<Rightarrow> string" where
  "be16 w = map (\<lambda>k. char_of (unat w div 256 ^ k mod 256)) [1, 0]"

definition be32 :: "32 word \<Rightarrow> string" where
  "be32 w = map (\<lambda>k. char_of (unat w div 256 ^ k mod 256)) [3, 2, 1, 0]"

definition writeManifestString :: "string \<Rightarrow> string" where
  "writeManifestString value = be32 (of_nat (length value)) @ value"

text \<open>\<open>WriteFixedMemberChecksumPart\<close> frames the same way.\<close>

definition WriteFixedMemberChecksumPart :: "string \<Rightarrow> string" where
  "WriteFixedMemberChecksumPart sourceRowChecksum = be32 (of_nat (length sourceRowChecksum)) @ sourceRowChecksum"

definition member_fields :: "RequestDescriptor \<Rightarrow> string list" where
  "member_fields member = [rd_MemberKey member, date_String (rd_RequestedFrom member),
     date_String (rd_RequestedTo member), rd_SourceLocationID member, rd_AccountCode member]"

definition plan_fields :: "FixedDefinition \<Rightarrow> FixedPlan \<Rightarrow> string list" where
  "plan_fields dfn plan = [fp_JobKey plan, location_text (fd_LocationStrategy dfn),
     account_text (fd_AccountCodeStrategy dfn), date_String (rg_From (fp_Range plan)),
     date_String (rg_To (fp_Range plan)), publication_text (fd_PublicationMode dfn),
     request_text (fd_SourceRequestMode dfn), fd_FincloudReportName dfn, fd_CoverageDateHeader dfn,
     fd_CoverageDateLayout dfn]"

definition manifest_bytes :: "FixedDefinition \<Rightarrow> FixedPlan \<Rightarrow> RequestDescriptor list \<Rightarrow> string" where
  "manifest_bytes dfn plan members =
     ''DWH-FIXED-MANIFEST'' @ [CHR 0x00] @ be16 2 @
     concat (map writeManifestString (plan_fields dfn plan)) @
     be32 (of_int (fd_MaxChunkDays dfn)) @
     be32 (of_nat (length (fp_SourceVariants plan))) @ concat (map writeManifestString (fp_SourceVariants plan)) @
     be32 (of_nat (length members)) @ concat (map (\<lambda>member. concat (map writeManifestString (member_fields member))) members)"

fun check_members :: "string list \<Rightarrow> RequestDescriptor list \<Rightarrow> unit result" where
  "check_members seen [] = Inr ()"
| "check_members seen (member # members) =
     (if rd_MemberKey member = [] then Inl (ErrMsg ''fixed plan member key is required'')
      else if rd_MemberKey member \<in> set seen then Inl (ErrMsg ''duplicate fixed plan member'')
      else check_members (rd_MemberKey member # seen) members)"

definition FixedManifestChecksum :: "(string \<Rightarrow> hash) \<Rightarrow> FixedDefinition \<Rightarrow> FixedPlan \<Rightarrow> hash result" where
  "FixedManifestChecksum sha dfn plan =
     (if fp_JobKey plan \<noteq> fd_Key dfn \<or> fp_Members plan = [] \<or> \<not> fp_RequireAllMembers plan
      then Inl (ErrMsg ''complete fixed plan is required'')
      else case check_members [] (fp_Members plan) of
        Inl x \<Rightarrow> Inl x
      | Inr _ \<Rightarrow> Inr (sha (manifest_bytes dfn plan (sort_key rd_MemberKey (fp_Members plan)))))"

section \<open>Frozen dimensions\<close>

definition freezeNonblank :: "string list \<Rightarrow> string list result" where
  "freezeNonblank values =
     (let frozen = filter (\<lambda>v. v \<noteq> []) (map TrimSpace values)
      in if set frozen = {} then Inl (ErrMsg ''captured set is empty'')
         else Inr (sorted_list_of_set (set frozen)))"

definition FreezeLocations :: "string list \<Rightarrow> string list result" where
  "FreezeLocations values = freezeNonblank values"

definition FreezeAccountCodes :: "string list \<Rightarrow> string list result" where
  "FreezeAccountCodes values = freezeNonblank values"

section \<open>Plans\<close>

definition descriptor :: "FixedDefinition \<Rightarrow> Range \<Rightarrow> string \<Rightarrow> string \<Rightarrow> string \<Rightarrow> RequestDescriptor" where
  "descriptor dfn requested location account memberKey =
     (let from = date_String (rg_From requested); to = date_String (rg_To requested); key = fd_Key dfn;
          parameters =
            (if key = ''cif_opening_report'' then [location, from, to]
             else if key = ''journal_transaction_report'' then [location, [], from, to, [], []]
             else if key = ''balance_sheet_report'' then [location, to]
             else if key = ''profit_loss_statement'' then [location, from, to]
             else if key = ''coa_movement_report'' then [account, from, to, location]
             else if key = ''fund_distribution_report'' then [location, [], [], [], from, to]
             else if key = ''vault_mutation_report'' then [location, from, to]
             else if key = ''teller_mutation_report'' then [location, ''ALL'', from, to]
             else [])
      in \<lparr>rd_MemberKey = memberKey, rd_ReportName = fd_FincloudReportName dfn, rd_Parameters = parameters,
          rd_RequestedFrom = rg_From requested, rd_RequestedTo = rg_To requested,
          rd_SourceLocationID = location, rd_AccountCode = account\<rparr>)"

definition plan_of :: "FixedDefinition \<Rightarrow> Range \<Rightarrow> RequestDescriptor list \<Rightarrow> FixedPlan" where
  "plan_of dfn requested members =
     \<lparr>fp_JobKey = fd_Key dfn, fp_Range = requested,
      fp_ReplacementScope = \<lparr>sc_JobKey = fd_Key dfn, sc_From = rg_From requested, sc_To = rg_To requested\<rparr>,
      fp_Members = members, fp_SourceVariants = [], fp_RequireAllMembers = True\<rparr>"

definition BuildFixedPlan :: "FixedDefinition \<Rightarrow> Range \<Rightarrow> string list \<Rightarrow> string list \<Rightarrow> FixedPlan result" where
  "BuildFixedPlan dfn requested locations accounts =
     (if IsZero (rg_From requested) \<or> IsZero (rg_To requested) \<or>
         date_String (rg_From requested) > date_String (rg_To requested)
      then Inl (ErrMsg ''valid fixed report date range is required'')
      else if fd_SnapshotDate dfn \<and> rg_From requested \<noteq> rg_To requested
      then Inl (ErrMsg ''one fixed snapshot date is required'')
      else if fd_LocationStrategy dfn = PerLocation then
        (if locations = [] then Inl (ErrMsg ''a frozen location set is required'')
         else Inr (plan_of dfn requested (map (\<lambda>location. descriptor dfn requested location [] location) locations)))
      else if fd_AccountCodeStrategy dfn = AllAccountCodes then
        (if accounts = [] then Inl (ErrMsg ''a frozen account-code set is required'')
         else Inr (plan_of dfn requested (map (\<lambda>account. descriptor dfn requested [] account account) accounts)))
      else Inr (plan_of dfn requested [descriptor dfn requested [] [] SingleFixedMemberKey]))"

definition BuildFixedSnapshotPlan :: "FixedDefinition \<Rightarrow> CalendarDate \<Rightarrow> string list \<Rightarrow> FixedPlan result" where
  "BuildFixedSnapshotPlan dfn date locations =
     (if \<not> fd_SnapshotDate dfn then Inl (ErrMsg ''not a fixed snapshot report'')
      else BuildFixedPlan dfn (mk_range date date) locations [])"

definition hex_digit :: "nat \<Rightarrow> char" where
  "hex_digit n = ''0123456789abcdef'' ! (n mod 16)"

definition EncodeToString :: "string \<Rightarrow> string" where
  "EncodeToString bytes = concat (map (\<lambda>c. [hex_digit (of_char c div 16), hex_digit (of_char c)]) bytes)"

definition dateLocationMemberKey :: "(string \<Rightarrow> hash) \<Rightarrow> CalendarDate \<Rightarrow> string \<Rightarrow> string" where
  "dateLocationMemberKey sha date location =
     EncodeToString (sha (writeManifestString (date_String date) @ writeManifestString location))"

definition BuildFixedDateSeriesPlan :: "(string \<Rightarrow> hash) \<Rightarrow> FixedDefinition \<Rightarrow> CalendarDate list \<Rightarrow> string list \<Rightarrow>
    FixedPlan result" where
  "BuildFixedDateSeriesPlan sha dfn dates locations =
     (if fd_Key dfn \<noteq> ''balance_sheet_report'' \<or> \<not> fd_SnapshotDate dfn \<or> dates = []
      then Inl (ErrMsg ''balance sheet date series is required'')
      else case validateDateSeries dates of
        Inl _ \<Rightarrow> Inl (ErrMsg ''fixed date series must be ascending and contiguous'')
      | Inr _ \<Rightarrow>
          if locations = [] then Inl (ErrMsg ''a frozen location set is required'')
          else Inr (plan_of dfn (mk_range (hd dates) (last dates))
            (concat (map (\<lambda>date. map (\<lambda>location. descriptor dfn (mk_range date date) location []
               (dateLocationMemberKey sha date location)) locations) dates))))"

definition BuildFixedRequestDescriptor :: "FixedDefinition \<Rightarrow> Range \<Rightarrow> string \<Rightarrow> string \<Rightarrow> string \<Rightarrow>
    RequestDescriptor result" where
  "BuildFixedRequestDescriptor dfn requested location account memberKey =
     (if IsZero (rg_From requested) \<or> IsZero (rg_To requested) \<or>
         date_String (rg_From requested) > date_String (rg_To requested) \<or> memberKey = []
      then Inl (ErrMsg ''valid fixed request descriptor is required'')
      else if \<not> list_ex (\<lambda>candidate. fd_Key candidate = fd_Key dfn) FixedDefinitions
      then Inl (ErrMsg ''unknown fixed definition'')
      else Inr (descriptor dfn requested location account memberKey))"

section \<open>Source chunks\<close>

type_synonym DateChunk = Range

text \<open>The loop of \<open>ChunkDateRange\<close>.\<close>

partial_function (option) chunk_loop ::
    "CalendarDate \<Rightarrow> CalendarDate \<Rightarrow> int \<Rightarrow> DateChunk list \<Rightarrow> DateChunk list option" where
  "chunk_loop start to maxDays chunks =
     (if date_String start \<le> date_String to then
        let reach = AddDays start (maxDays - 1);
            stop = (if cd_year reach > cd_year to \<or> date_String reach > date_String to then to else reach);
            chunks' = chunks @ [mk_range start stop]
        in if stop = to then Some chunks' else chunk_loop (AddDays stop 1) to maxDays chunks'
      else Some chunks)"

definition ChunkDateRange :: "CalendarDate \<Rightarrow> CalendarDate \<Rightarrow> int \<Rightarrow> DateChunk list result" where
  "ChunkDateRange from to maxDays =
     (if IsZero from \<or> IsZero to \<or> date_String from > date_String to then Inl (ErrMsg ''valid date range is required'')
      else case chunk_loop from to (if maxDays \<le> 0 then 30 else maxDays) [] of
        None \<Rightarrow> Inl ErrDiverge
      | Some chunks \<Rightarrow> Inr chunks)"

definition FixedSourceChunks :: "FixedDefinition \<Rightarrow> CalendarDate \<Rightarrow> CalendarDate \<Rightarrow> DateChunk list result" where
  "FixedSourceChunks dfn from to =
     (if cd_year from < 1000 \<or> cd_year from > 9999 \<or> cd_year to < 1000 \<or> cd_year to > 9999 \<or>
         date_String from > date_String to
      then Inl (ErrMsg ''valid fixed source date range is required'')
      else if fd_SnapshotDate dfn \<and> from \<noteq> to then Inl (ErrMsg ''an exact snapshot source request is required'')
      else case fd_SourceRequestMode dfn of
        ExactInterval \<Rightarrow> Inr [mk_range from to]
      | BoundedDateChunks \<Rightarrow>
          if fd_MaxChunkDays dfn < 1 \<or> fd_MaxChunkDays dfn > 30
          then Inl (ErrMsg ''invalid bounded source chunk size'') else ChunkDateRange from to (fd_MaxChunkDays dfn)
      | OtherRequestMode _ \<Rightarrow> Inl (ErrMsg ''invalid source request mode''))"

section \<open>Coverage dates\<close>

datatype layout_elem = LongYear | ZeroMonth | ZeroDay | Hour24 | ZeroMinute | ZeroSecond | Literal char

fun layout_elems :: "string \<Rightarrow> layout_elem list" where
  "layout_elems [] = []"
| "layout_elems (c # s) =
     (if HasPrefix (c # s) ''2006'' then LongYear # layout_elems (drop 3 s)
      else if HasPrefix (c # s) ''01'' then ZeroMonth # layout_elems (drop 1 s)
      else if HasPrefix (c # s) ''02'' then ZeroDay # layout_elems (drop 1 s)
      else if HasPrefix (c # s) ''15'' then Hour24 # layout_elems (drop 1 s)
      else if HasPrefix (c # s) ''04'' then ZeroMinute # layout_elems (drop 1 s)
      else if HasPrefix (c # s) ''05'' then ZeroSecond # layout_elems (drop 1 s)
      else Literal c # layout_elems s)"

fun scan_layout :: "layout_elem list \<Rightarrow> string \<Rightarrow> (layout_elem \<times> nat) list option" where
  "scan_layout [] s = (if s = [] then Some [] else None)"
| "scan_layout (Literal c # es) s = (case s of [] \<Rightarrow> None | x # r \<Rightarrow> if x = c then scan_layout es r else None)"
| "scan_layout (e # es) s =
     (let n = (if e = LongYear then 4 else 2)
      in if length s < n \<or> \<not> list_all is_digit (take n s) then None
         else map_option (Cons (e, digits_value (take n s))) (scan_layout es (drop n s)))"

definition field_of :: "(layout_elem \<times> nat) list \<Rightarrow> layout_elem \<Rightarrow> nat \<Rightarrow> int" where
  "field_of parsed e missing = (case map_of parsed e of None \<Rightarrow> int missing | Some n \<Rightarrow> int n)"

text \<open>\<open>time.Parse(layout, raw)\<close> with \<open>Format(layout) == raw\<close>: the date of the parsed time.\<close>

definition parse_exact :: "string \<Rightarrow> string \<Rightarrow> CalendarDate option" where
  "parse_exact layout raw =
     (case scan_layout (layout_elems layout) raw of
        None \<Rightarrow> None
      | Some parsed \<Rightarrow>
          let y = field_of parsed LongYear 0; m = field_of parsed ZeroMonth 1; d = field_of parsed ZeroDay 1
          in if 1 \<le> m \<and> m \<le> 12 \<and> 1 \<le> d \<and> d \<le> days_in y m \<and> field_of parsed Hour24 0 < 24 \<and>
                field_of parsed ZeroMinute 0 < 60 \<and> field_of parsed ZeroSecond 0 < 60
             then Some (mk_date y m d) else None)"

record FixedCSVRow =
  fr_SourceRowNumber :: nat
  fr_SourceRowChecksum :: string
  fr_SourceLocationID :: string
  fr_CoverageDate :: CalendarDate
  fr_Values :: "string \<Rightarrow> string option"

definition ParseFixedCoverageDate :: "FixedDefinition \<Rightarrow> string \<Rightarrow> CalendarDate \<Rightarrow> CalendarDate result" where
  "ParseFixedCoverageDate dfn raw snapshot =
     (if fd_PublicationMode dfn \<noteq> DateAddressable then Inl (ErrMsg ''no source business-date contract'')
      else if fd_SnapshotDate dfn then
        (if IsZero snapshot then Inl (ErrMsg ''a snapshot coverage date is required'') else Inr snapshot)
      else if fd_CoverageDateHeader dfn = [] \<or> fd_CoverageDateLayout dfn = [] \<or> raw = []
      then Inl (ErrMsg ''a valid source business date is required'')
      else case parse_exact (fd_CoverageDateLayout dfn) raw of
        None \<Rightarrow> Inl (ErrMsg ''invalid or unsupported source business date'')
      | Some date \<Rightarrow>
          if cd_year date < 1000 then Inl (ErrMsg ''invalid or unsupported source business date'') else Inr date)"

text \<open>The loop over the rows: their dates, in order.\<close>

fun coverage_dates :: "FixedDefinition \<Rightarrow> CalendarDate \<Rightarrow> CalendarDate \<Rightarrow> FixedCSVRow list \<Rightarrow> CalendarDate list result" where
  "coverage_dates dfn from to [] = Inr []"
| "coverage_dates dfn from to (row # rows) =
     (case ParseFixedCoverageDate dfn (case fr_Values row (fd_CoverageDateHeader dfn) of None \<Rightarrow> [] | Some v \<Rightarrow> v) to of
        Inl x \<Rightarrow> Inl x
      | Inr date \<Rightarrow>
          if date_String date < date_String from \<or> date_String date > date_String to
          then Inl (ErrMsg ''business date is outside its source segment'')
          else (case coverage_dates dfn from to rows of Inl x \<Rightarrow> Inl x | Inr dates \<Rightarrow> Inr (date # dates)))"

text \<open>The result is the rows as they are after the call; an error leaves them unchanged.\<close>

definition ValidateFixedCoverage :: "FixedDefinition \<Rightarrow> CalendarDate \<Rightarrow> CalendarDate \<Rightarrow> FixedCSVRow list \<Rightarrow>
    FixedCSVRow list result" where
  "ValidateFixedCoverage dfn from to rows =
     (if IsZero from \<or> IsZero to \<or> date_String from > date_String to
      then Inl (ErrMsg ''valid fixed source segment is required'')
      else if fd_PublicationMode dfn = IntervalResult then
        (if list_ex (\<lambda>row. \<not> IsZero (fr_CoverageDate row)) rows
         then Inl (ErrMsg ''interval rows must not have coverage dates'') else Inr rows)
      else if fd_PublicationMode dfn \<noteq> DateAddressable then Inl (ErrMsg ''invalid publication mode'')
      else if fd_SnapshotDate dfn \<and> from \<noteq> to then Inl (ErrMsg ''one snapshot coverage date is required'')
      else case coverage_dates dfn from to rows of
        Inl x \<Rightarrow> Inl x
      | Inr dates \<Rightarrow> Inr (map2 (\<lambda>row date. row\<lparr>fr_CoverageDate := date\<rparr>) rows dates))"

section \<open>Chunks cover the range\<close>

definition chunk_days :: "DateChunk \<Rightarrow> int list" where
  "chunk_days c = [date_day (rg_From c) .. date_day (rg_To c)]"

lemma chunk_loop_cover:
  assumes to: "printable_date to" and n: "1 \<le> n"
  shows "printable_date start \<Longrightarrow> date_day start \<le> date_day to \<Longrightarrow>
    \<exists>cs c. chunk_loop start to n acc = Some (acc @ cs @ [c]) \<and>
      concat (map chunk_days (cs @ [c])) = [date_day start .. date_day to] \<and>
      (\<forall>x \<in> set cs. length (chunk_days x) = nat n) \<and> 1 \<le> length (chunk_days c) \<and> length (chunk_days c) \<le> nat n \<and>
      (\<forall>x \<in> set (cs @ [c]). valid_date (rg_From x) \<and> valid_date (rg_To x))"
proof (induction "nat (date_day to - date_day start)" arbitrary: start acc rule: less_induct)
  case less
  let ?reach = "AddDays start (n - 1)"
  have reach: "date_day ?reach = date_day start + (n - 1)" "valid_date ?reach"
    using less.prems by (simp_all add: date_day_AddDays printable_nonzero valid_AddDays printable_valid)
  let ?stop = "if cd_year ?reach > cd_year to \<or> date_String ?reach > date_String to then to else ?reach"
  have ys: "cd_year start \<le> cd_year ?reach" by (rule year_mono) (use less.prems n reach in \<open>simp_all add: printable_valid\<close>)
  have stop: "?stop = (if date_day to \<le> date_day start + (n - 1) then to else ?reach)"
  proof (cases "cd_year ?reach > cd_year to")
    case True
    then have "\<not> date_day ?reach \<le> date_day to" using year_mono [OF reach(2) printable_valid [OF to]] by auto
    with True reach show ?thesis by simp
  next
    case False
    then have "printable_date ?reach" using ys less.prems to reach(2) by (auto simp: printable_date_def)
    then have "date_String ?reach > date_String to \<longleftrightarrow> date_day to < date_day ?reach"
      using to by (simp add: date_text_le flip: not_le)
    moreover have "date_day ?reach = date_day to \<Longrightarrow> ?reach = to"
      using date_day_inject [of ?reach to] reach(2) printable_valid [OF to] by blast
    ultimately show ?thesis using False reach by auto
  qed
  have le: "date_String start \<le> date_String to" using less.prems to by (simp add: date_text_le)
  show ?case
  proof (cases "date_day to \<le> date_day start + (n - 1)")
    case True
    then have "chunk_loop start to n acc = Some (acc @ [mk_range start to])"
      using le stop by (subst chunk_loop.simps) (simp add: Let_def)
    with True less.prems n to show ?thesis
      by (intro exI [of _ "[]"] exI [of _ "mk_range start to"]) (auto simp: chunk_days_def mk_range_def printable_valid)
  next
    case False
    let ?next = "AddDays ?reach 1"
    have ne: "?reach \<noteq> to" using False reach by auto
    have pr: "printable_date ?reach"
      by (rule printable_between [OF less.prems(1) to reach(2)]) (use False reach n in simp_all)
    have nx: "date_day ?next = date_day start + n" using reach pr by (simp add: date_day_AddDays printable_nonzero)
    have pn: "printable_date ?next"
      by (rule printable_between [OF less.prems(1) to]) (use False nx n valid_AddDays [OF reach(2)] in simp_all)
    from less.hyps [of ?next "acc @ [mk_range start ?reach]"] obtain cs c where
      ih: "chunk_loop ?next to n (acc @ [mk_range start ?reach]) = Some ((acc @ [mk_range start ?reach]) @ cs @ [c])"
      "concat (map chunk_days (cs @ [c])) = [date_day ?next .. date_day to]" "\<forall>x \<in> set cs. length (chunk_days x) = nat n"
      "1 \<le> length (chunk_days c)" "length (chunk_days c) \<le> nat n"
      "\<forall>x \<in> set (cs @ [c]). valid_date (rg_From x) \<and> valid_date (rg_To x)"
      using pn nx False n less.prems by auto
    have "chunk_loop start to n acc = Some (acc @ (mk_range start ?reach # cs) @ [c])"
      using le stop False ne ih(1) by (subst chunk_loop.simps) (simp add: Let_def)
    moreover have "[date_day start .. date_day ?reach] @ [date_day ?next .. date_day to] = [date_day start .. date_day to]"
    proof -
      have "date_day ?next = date_day ?reach + 1" using nx reach(1) by simp
      moreover have "date_day start \<le> date_day ?reach" "date_day ?reach \<le> date_day to" using reach(1) n False by simp_all
      ultimately show ?thesis using upto_split2 [of "date_day start" "date_day ?reach" "date_day to"] by simp
    qed
    then have "concat (map chunk_days ((mk_range start ?reach # cs) @ [c])) = [date_day start .. date_day to]"
      using ih(2) by (simp add: chunk_days_def mk_range_def)
    moreover have "length (chunk_days (mk_range start ?reach)) = nat n" using reach by (simp add: chunk_days_def mk_range_def)
    moreover have "valid_date (rg_From (mk_range start ?reach)) \<and> valid_date (rg_To (mk_range start ?reach))"
      using reach(2) less.prems by (simp add: mk_range_def printable_valid)
    ultimately show ?thesis using ih(3-6) by (intro exI [of _ "mk_range start ?reach # cs"] exI [of _ c]) auto
  qed
qed

lemma text_order:
  assumes "printable_date a" "printable_date b"
  shows "date_String a > date_String b \<longleftrightarrow> date_day b < date_day a" "date_String a \<le> date_String b \<longleftrightarrow> date_day a \<le> date_day b"
  using assms date_text_le by (simp_all flip: not_le)

lemma ChunkDateRange_chunks:
  assumes "printable_date from" "printable_date to" "date_day from \<le> date_day to"
  shows "\<exists>cs c. ChunkDateRange from to maxDays = Inr (cs @ [c]) \<and>
      concat (map chunk_days (cs @ [c])) = [date_day from .. date_day to] \<and>
      (\<forall>x \<in> set cs. length (chunk_days x) = nat (if maxDays \<le> 0 then 30 else maxDays)) \<and>
      1 \<le> length (chunk_days c) \<and> length (chunk_days c) \<le> nat (if maxDays \<le> 0 then 30 else maxDays)"
proof -
  let ?n = "if maxDays \<le> 0 then 30 else maxDays"
  have n: "1 \<le> ?n" by simp
  obtain cs c where "chunk_loop from to ?n [] = Some ([] @ cs @ [c])" and rest:
    "concat (map chunk_days (cs @ [c])) = [date_day from .. date_day to]" "\<forall>x \<in> set cs. length (chunk_days x) = nat ?n"
    "1 \<le> length (chunk_days c)" "length (chunk_days c) \<le> nat ?n"
    using chunk_loop_cover [OF assms(2) n assms(1, 3), of "[]"] by blast
  then have "ChunkDateRange from to maxDays = Inr (cs @ [c])"
    using assms by (simp add: ChunkDateRange_def printable_nonzero text_order)
  with rest show ?thesis by blast
qed

section \<open>Manifest framing\<close>

lemma be_char: "char_of (n mod 256) = char_of n"
  by (simp add: char_of_mod_256)

lemma bytes_split: "(a::nat) div k = b div k \<Longrightarrow> a mod k = b mod k \<Longrightarrow> a = b"
  by (metis div_mult_mod_eq)

lemma unat_lt2p32: "unat (w :: 32 word) < 2 ^ 32"
  using unsigned_less [of w] by simp

lemma be32_inject: "be32 v = be32 w \<longleftrightarrow> v = w"
proof
  assume eq: "be32 v = be32 w"
  let ?a = "unat v" and ?b = "unat w"
  have dig: "?a div 256 ^ k mod 256 = ?b div 256 ^ k mod 256" if "k < 4" for k
  proof -
    have "k \<in> {0, 1, 2, 3}" using that by auto
    moreover have "(char_of (x mod 256) :: char) = char_of (y mod 256) \<Longrightarrow> x mod 256 = y mod 256" for x y :: nat
      by (drule arg_cong [of _ _ "of_char :: char \<Rightarrow> nat"]) (simp only: of_char_of mod_mod_trivial)
    ultimately show ?thesis using eq by (auto simp: be32_def)
  qed
  have bound: "?a < 2 ^ 32" "?b < 2 ^ 32" using unat_lt2p32 [of v] unat_lt2p32 [of w] by simp_all
  have "?a div 256 ^ 3 = ?b div 256 ^ 3" using dig [of 3] bound by simp
  moreover have "(?a div 256 ^ 2) div 256 = ?a div 256 ^ 3" "(?b div 256 ^ 2) div 256 = ?b div 256 ^ 3"
    by (simp_all add: div_mult2_eq [symmetric])
  ultimately have "?a div 256 ^ 2 = ?b div 256 ^ 2" using dig [of 2] by - (rule bytes_split [of _ 256], simp_all)
  moreover have "(?a div 256 ^ 1) div 256 = ?a div 256 ^ 2" "(?b div 256 ^ 1) div 256 = ?b div 256 ^ 2"
    by (simp_all add: div_mult2_eq [symmetric])
  ultimately have "?a div 256 ^ 1 = ?b div 256 ^ 1" using dig [of 1] by - (rule bytes_split [of _ 256], simp_all)
  then have "?a = ?b" using dig [of 0] by (intro bytes_split [of ?a 256 ?b]) simp_all
  then show "v = w" by (simp only: word_unat_eq_iff)
qed simp

lemma length_be32 [simp]: "length (be32 w) = 4" by (simp add: be32_def)

lemma be32_append: "be32 v @ r = be32 w @ s \<longleftrightarrow> v = w \<and> r = s"
  using be32_inject by (auto simp: append_eq_append_conv)

definition framed :: "string \<Rightarrow> bool" where
  "framed v \<longleftrightarrow> length v < 2 ^ 32"

lemma unat32: "a < 2 ^ 32 \<Longrightarrow> unat (of_nat a :: 32 word) = a"
  by (simp add: unsigned_of_nat take_bit_nat_eq_self)

lemma of_nat32_inject: "a < 2 ^ 32 \<Longrightarrow> b < 2 ^ 32 \<Longrightarrow> (of_nat a :: 32 word) = of_nat b \<longleftrightarrow> a = b"
  by (metis unat32)

lemma writeManifestString_append:
  "framed v \<Longrightarrow> framed w \<Longrightarrow> writeManifestString v @ r = writeManifestString w @ s \<longleftrightarrow> v = w \<and> r = s"
  by (auto simp: writeManifestString_def framed_def be32_append of_nat32_inject)

lemma frames_append:
  "length vs = length ws \<Longrightarrow> list_all framed vs \<Longrightarrow> list_all framed ws \<Longrightarrow>
    concat (map writeManifestString vs) @ r = concat (map writeManifestString ws) @ s \<longleftrightarrow> vs = ws \<and> r = s"
  by (induction vs ws rule: list_induct2) (auto simp: writeManifestString_append)

lemma member_frames_append:
  "length vss = length wss \<Longrightarrow> \<forall>vs \<in> set vss \<union> set wss. length vs = n \<and> list_all framed vs \<Longrightarrow>
    concat (map (\<lambda>vs. concat (map writeManifestString vs)) vss) = concat (map (\<lambda>vs. concat (map writeManifestString vs)) wss) \<longleftrightarrow>
    vss = wss"
  by (induction vss wss rule: list_induct2) (auto simp: frames_append)

lemma counted_frames_append:
  assumes "length vs < 2 ^ 32" "length ws < 2 ^ 32" "list_all framed vs" "list_all framed ws"
  shows "be32 (of_nat (length vs)) @ concat (map writeManifestString vs) @ r =
     be32 (of_nat (length ws)) @ concat (map writeManifestString ws) @ s \<longleftrightarrow> vs = ws \<and> r = s"
  using frames_append [OF _ assms(3,4)] assms(1,2) by (auto simp: be32_append of_nat32_inject)

lemma counted_members:
  assumes "length ms < 2 ^ 32" "length ns < 2 ^ 32"
    and "\<forall>member \<in> set ms \<union> set ns. list_all framed (member_fields member)"
  shows "be32 (of_nat (length ms)) @ concat (map (\<lambda>member. concat (map writeManifestString (member_fields member))) ms) =
     be32 (of_nat (length ns)) @ concat (map (\<lambda>member. concat (map writeManifestString (member_fields member))) ns) \<longleftrightarrow>
     map member_fields ms = map member_fields ns"
proof -
  have five: "\<forall>vs \<in> set (map member_fields ms) \<union> set (map member_fields ns). length vs = 5 \<and> list_all framed vs"
    using assms(3) by (auto simp: member_fields_def)
  show ?thesis
  proof (cases "length ms = length ns")
    case True
    then show ?thesis
      using member_frames_append [OF _ five] by (simp add: be32_append comp_def)
  next
    case False
    then show ?thesis using assms(1,2) by (auto simp: be32_append of_nat32_inject dest: map_eq_imp_length_eq)
  qed
qed

text \<open>What the manifest records of a plan, and that every text and count fits its length prefix.\<close>

definition recorded_members :: "FixedPlan \<Rightarrow> string list set" where
  "recorded_members plan = set (map member_fields (fp_Members plan))"

definition encodable :: "FixedDefinition \<Rightarrow> FixedPlan \<Rightarrow> bool" where
  "encodable dfn plan \<longleftrightarrow> list_all framed (plan_fields dfn plan) \<and> list_all framed (fp_SourceVariants plan) \<and>
     length (fp_SourceVariants plan) < 2 ^ 32 \<and> length (fp_Members plan) < 2 ^ 32 \<and>
     list_all (\<lambda>member. list_all framed (member_fields member)) (fp_Members plan)"

definition sorted_members :: "FixedPlan \<Rightarrow> RequestDescriptor list" where
  "sorted_members plan = sort_key rd_MemberKey (fp_Members plan)"

lemma manifest_bytes_inject:
  assumes "encodable dfn plan" "encodable dfn' plan'"
  shows "manifest_bytes dfn plan (sorted_members plan) = manifest_bytes dfn' plan' (sorted_members plan') \<longleftrightarrow>
     plan_fields dfn plan = plan_fields dfn' plan' \<and>
     (of_int (fd_MaxChunkDays dfn) :: 32 word) = of_int (fd_MaxChunkDays dfn') \<and>
     fp_SourceVariants plan = fp_SourceVariants plan' \<and>
     map member_fields (sorted_members plan) = map member_fields (sorted_members plan')"
proof -
  have fields: "length (plan_fields dfn plan) = length (plan_fields dfn' plan')" by (simp add: plan_fields_def)
  have all: "list_all framed (plan_fields dfn plan)" "list_all framed (plan_fields dfn' plan')"
    "list_all framed (fp_SourceVariants plan)" "list_all framed (fp_SourceVariants plan')"
    "length (fp_SourceVariants plan) < 2 ^ 32" "length (fp_SourceVariants plan') < 2 ^ 32"
    "length (sorted_members plan) < 2 ^ 32" "length (sorted_members plan') < 2 ^ 32"
    "\<forall>member \<in> set (sorted_members plan) \<union> set (sorted_members plan'). list_all framed (member_fields member)"
    using assms by (auto simp: encodable_def sorted_members_def list_all_iff)
  show ?thesis
    unfolding manifest_bytes_def append_assoc same_append_eq frames_append [OF fields all(1,2)]
      be32_append [of "of_int (fd_MaxChunkDays dfn)" _ "of_int (fd_MaxChunkDays dfn')"]
      counted_frames_append [OF all(5,6,3,4)] counted_members [OF all(7,8,9)] by blast
qed

lemma check_members_iff:
  "check_members seen members = Inr () \<longleftrightarrow>
     (\<forall>member \<in> set members. rd_MemberKey member \<noteq> [] \<and> rd_MemberKey member \<notin> set seen) \<and>
     distinct (map rd_MemberKey members)"
  by (induction seen members rule: check_members.induct) (auto simp: image_iff)

lemma sorted_fields:
  "map member_fields (sorted_members plan) = sort_key hd (map member_fields (fp_Members plan))"
proof -
  have "map f (insort_key k x xs) = insort_key g (f x) (map f xs)" if "\<And>y. g (f y) = k y"
    for f :: "RequestDescriptor \<Rightarrow> string list" and k :: "RequestDescriptor \<Rightarrow> string" and g x xs
    by (induction xs) (simp_all add: that)
  from this [where f = member_fields and k = rd_MemberKey and g = hd]
  have "map member_fields (sort_key rd_MemberKey xs) = sort_key hd (map member_fields xs)" for xs
    by (induction xs) (simp_all add: sort_key_def member_fields_def)
  then show ?thesis by (simp add: sorted_members_def)
qed

lemma sort_by_hd_unique:
  assumes "distinct (map hd xs)" "distinct (map hd ys)"
  shows "sort_key hd xs = sort_key hd ys \<longleftrightarrow> set xs = set (ys :: string list list)"
proof
  assume "set xs = set ys"
  moreover have "distinct (map hd (sort_key hd zs))" if "distinct (map hd zs)" for zs :: "string list list"
    using that by (simp add: distinct_map)
  ultimately show "sort_key hd xs = sort_key hd ys"
    using assms by (intro map_sorted_distinct_set_unique [of hd]) (simp_all add: distinct_map)
qed (metis set_sort)

lemma FixedManifestChecksum_accepts:
  "FixedManifestChecksum sha dfn plan = Inr h \<longleftrightarrow>
     fp_JobKey plan = fd_Key dfn \<and> fp_Members plan \<noteq> [] \<and> fp_RequireAllMembers plan \<and>
     [] \<notin> rd_MemberKey ` set (fp_Members plan) \<and> distinct (map rd_MemberKey (fp_Members plan)) \<and>
     h = sha (manifest_bytes dfn plan (sorted_members plan))"
proof -
  have keys: "(\<exists>u. check_members [] (fp_Members plan) = Inr u) \<longleftrightarrow>
      [] \<notin> rd_MemberKey ` set (fp_Members plan) \<and> distinct (map rd_MemberKey (fp_Members plan))"
    using check_members_iff [of "[]" "fp_Members plan"] by (auto simp: image_iff)
  show ?thesis
    unfolding FixedManifestChecksum_def sorted_members_def
    using keys by (auto split: sum.splits)
qed

lemma freezeNonblank_iff:
  "freezeNonblank values = Inr frozen \<longleftrightarrow>
     set frozen = TrimSpace ` set values - {[]} \<and> frozen \<noteq> [] \<and> sorted frozen \<and> distinct frozen"
proof -
  let ?kept = "set (filter (\<lambda>v. v \<noteq> []) (map TrimSpace values))"
  have kept: "?kept = TrimSpace ` set values - {[]}" by auto
  have "freezeNonblank values = Inr frozen \<longleftrightarrow> ?kept \<noteq> {} \<and> frozen = sorted_list_of_set ?kept"
    unfolding freezeNonblank_def Let_def by (metis sum.inject(2) sum.distinct(1))
  also have "\<dots> \<longleftrightarrow> set frozen = ?kept \<and> frozen \<noteq> [] \<and> sorted frozen \<and> distinct frozen"
    using sorted_list_of_set.idem_if_sorted_distinct [of frozen] sorted_list_of_set_eq_Nil_iff [of ?kept] by force
  finally show ?thesis unfolding kept .
qed

lemma descriptor_fields [simp]:
  "rd_MemberKey (descriptor dfn requested location account key) = key"
  "rd_RequestedFrom (descriptor dfn requested location account key) = rg_From requested"
  "rd_RequestedTo (descriptor dfn requested location account key) = rg_To requested"
  "rd_SourceLocationID (descriptor dfn requested location account key) = location"
  "rd_AccountCode (descriptor dfn requested location account key) = account"
  by (simp_all add: descriptor_def Let_def)

lemma hex_digit_inject: "a < 16 \<Longrightarrow> b < 16 \<Longrightarrow> hex_digit a = hex_digit b \<longleftrightarrow> a = b"
proof -
  have "distinct ''0123456789abcdef''" by simp
  then show "a < 16 \<Longrightarrow> b < 16 \<Longrightarrow> hex_digit a = hex_digit b \<longleftrightarrow> a = b"
    unfolding hex_digit_def by (subst nth_eq_iff_index_eq) simp_all
qed

lemma hex_digit_mod: "hex_digit n = hex_digit (n mod 16)"
  by (simp add: hex_digit_def)

lemma EncodeToString_inject: "EncodeToString a = EncodeToString b \<longleftrightarrow> a = b"
proof
  have nibble: "(of_char c :: nat) div 16 < 16" for c :: char
    using nat_of_char_less_256 [of c] by (simp only: div_less_iff_less_mult)
  have byte: "c = d" if "hex_digit (of_char c div 16) = hex_digit (of_char d div 16)" "hex_digit (of_char c) = hex_digit (of_char d)"
    for c d :: char
  proof -
    have "(of_char c :: nat) div 16 = of_char d div 16"
      by (rule hex_digit_inject [THEN iffD1]) (use that(1) nibble in auto)
    moreover have "(of_char c :: nat) mod 16 = of_char d mod 16"
      by (rule hex_digit_inject [THEN iffD1]) (use that(2) in \<open>simp_all flip: hex_digit_mod\<close>)
    ultimately have "(of_char c :: nat) = of_char d" by (rule bytes_split)
    then show ?thesis by simp
  qed
  show "EncodeToString a = EncodeToString b \<Longrightarrow> a = b"
  proof (induction a arbitrary: b)
    case Nil
    then show ?case by (cases b) (simp_all add: EncodeToString_def)
  next
    case (Cons c a)
    from Cons.prems obtain d b' where b: "b = d # b'" by (cases b) (simp_all add: EncodeToString_def)
    from Cons.prems have "EncodeToString a = EncodeToString b'" unfolding b by (simp add: EncodeToString_def)
    moreover have "c = d" by (rule byte) (use Cons.prems in \<open>simp_all add: EncodeToString_def b\<close>)
    ultimately show ?case using Cons.IH unfolding b by blast
  qed
qed simp

lemma EncodeToString_empty [simp]: "EncodeToString a = [] \<longleftrightarrow> a = []"
  by (cases a) (simp_all add: EncodeToString_def)

lemma coverage_dates_within:
  "coverage_dates dfn from to rows = Inr dates \<Longrightarrow>
     list_all2 (\<lambda>row date. ParseFixedCoverageDate dfn (case fr_Values row (fd_CoverageDateHeader dfn) of None \<Rightarrow> [] | Some v \<Rightarrow> v) to = Inr date \<and>
       date_String from \<le> date_String date \<and> date_String date \<le> date_String to) rows dates"
  by (induction rows arbitrary: dates) (auto split: sum.splits if_splits)

section \<open>Properties\<close>

text \<open>
  C34. The chunks of a date range are consecutive and cover it exactly: in order, their days are the days of
  the range, every chunk but the last has the full chunk length and the last is neither empty nor longer.
  In particular the loop ends. A non-positive chunk length means 30 days.
\<close>

theorem ChunkDateRange_cover:
  assumes "printable_date from" "printable_date to" "date_day from \<le> date_day to"
  shows "\<exists>cs c. ChunkDateRange from to maxDays = Inr (cs @ [c]) \<and>
      concat (map chunk_days (cs @ [c])) = [date_day from .. date_day to] \<and>
      (\<forall>x \<in> set cs. length (chunk_days x) = nat (if maxDays \<le> 0 then 30 else maxDays)) \<and>
      1 \<le> length (chunk_days c) \<and> length (chunk_days c) \<le> nat (if maxDays \<le> 0 then 30 else maxDays)"
  by (rule ChunkDateRange_chunks [OF assms])

text \<open>
  The source requests of every report of the catalog exist for every range from the year 1000 on (of one day, for a
  snapshot) and cover it day by day; a report whose result stands for the whole interval is asked for in one request.
\<close>

theorem FixedSourceChunks_catalog:
  assumes dfn: "dfn \<in> set FixedDefinitions" and p: "printable_date from" "printable_date to" "date_day from \<le> date_day to"
    and year: "1000 \<le> cd_year from" and snapshot: "fd_SnapshotDate dfn \<Longrightarrow> from = to"
  shows "\<exists>chunks. FixedSourceChunks dfn from to = Inr chunks \<and>
      concat (map chunk_days chunks) = [date_day from .. date_day to] \<and> (\<forall>c \<in> set chunks. chunk_days c \<noteq> []) \<and>
      (fd_PublicationMode dfn = IntervalResult \<longrightarrow> chunks = [mk_range from to])"
proof -
  have "list_all (\<lambda>d. fd_SourceRequestMode d = ExactInterval \<or> fd_SourceRequestMode d = BoundedDateChunks \<and>
      1 \<le> fd_MaxChunkDays d \<and> fd_MaxChunkDays d \<le> 30 \<and> fd_PublicationMode d \<noteq> IntervalResult) FixedDefinitions"
    by code_simp
  with dfn have modes: "fd_SourceRequestMode dfn = ExactInterval \<or> fd_SourceRequestMode dfn = BoundedDateChunks \<and>
      1 \<le> fd_MaxChunkDays dfn \<and> fd_MaxChunkDays dfn \<le> 30 \<and> fd_PublicationMode dfn \<noteq> IntervalResult"
    by (simp add: list_all_iff)
  have years: "1000 \<le> cd_year from" "cd_year from \<le> 9999" "1000 \<le> cd_year to" "cd_year to \<le> 9999"
    using p year year_mono [of "from" to] by (auto simp: printable_date_def)
  have order: "\<not> date_String from > date_String to" using p by (simp add: text_order)
  show ?thesis
  proof (cases "fd_SourceRequestMode dfn = ExactInterval")
    case True
    then have "FixedSourceChunks dfn from to = Inr [mk_range from to]"
      using years order snapshot by (auto simp: FixedSourceChunks_def)
    then show ?thesis using p by (simp add: chunk_days_def mk_range_def)
  next
    case False
    from ChunkDateRange_chunks [OF p, of "fd_MaxChunkDays dfn"] obtain cs c where
      "ChunkDateRange from to (fd_MaxChunkDays dfn) = Inr (cs @ [c])"
      "concat (map chunk_days (cs @ [c])) = [date_day from .. date_day to]"
      "\<forall>x \<in> set cs. length (chunk_days x) = nat (fd_MaxChunkDays dfn)" "1 \<le> length (chunk_days c)"
      using modes False by auto
    moreover have "FixedSourceChunks dfn from to = ChunkDateRange from to (fd_MaxChunkDays dfn)"
      using False modes years order snapshot by (auto simp: FixedSourceChunks_def)
    ultimately show ?thesis using modes False by (intro exI [of _ "cs @ [c]"]) auto
  qed
qed



text \<open>
  C36. The plan of a contiguous date series has exactly one member per date and frozen location, and is accepted by
  the manifest whenever the hash keeps the encodings of these dates and locations apart.
\<close>

theorem BuildFixedDateSeriesPlan_complete:
  assumes dfn: "fd_Key dfn = ''balance_sheet_report''" "fd_SnapshotDate dfn"
    and dates: "validateDateSeries dates = Inr ()" "list_all printable_date dates" "distinct dates"
    and locations: "FreezeLocations branches = Inr locations" "list_all framed locations"
    and sha: "inj_on sha ((\<lambda>(d, l). writeManifestString (date_String d) @ writeManifestString l) ` (set dates \<times> set locations))"
      "\<And>bytes. length (sha bytes) = 32"
  shows "\<exists>plan. BuildFixedDateSeriesPlan sha dfn dates locations = Inr plan \<and>
     FixedManifestChecksum sha dfn plan = Inr (sha (manifest_bytes dfn plan (sorted_members plan))) \<and>
     fp_Range plan = mk_range (hd dates) (last dates) \<and>
     map (\<lambda>member. (rd_RequestedFrom member, rd_SourceLocationID member)) (fp_Members plan) = List.product dates locations"
proof -
  let ?enc = "\<lambda>(d, l). writeManifestString (date_String d) @ writeManifestString l"
  let ?member = "\<lambda>(d, l). descriptor dfn (mk_range d d) l [] (dateLocationMemberKey sha d l)"
  let ?plan = "plan_of dfn (mk_range (hd dates) (last dates)) (map ?member (List.product dates locations))"
  have frozen: "locations \<noteq> []" "distinct locations"
    using locations by (auto simp: FreezeLocations_def freezeNonblank_iff)
  have some: "dates \<noteq> []" using dates(1) by (auto simp: validateDateSeries_def)
  have members: "concat (map (\<lambda>d. map (\<lambda>l. ?member (d, l)) locations) dates) = map ?member (List.product dates locations)"
    by (induction dates) simp_all
  have "framed (date_String d)" if "d \<in> set dates" for d
    using that dates(2) date_String_printable by (auto simp: list_all_iff framed_def)
  moreover have "date_String d = date_String d' \<longleftrightarrow> d = d'" if "d \<in> set dates" "d' \<in> set dates" for d d'
    using that dates(2) text_order(2) [of d d'] text_order(2) [of d' d] date_day_inject [of d d'] printable_valid
    by (auto simp: list_all_iff)
  ultimately have enc: "inj_on ?enc (set dates \<times> set locations)"
    using locations(2) by (auto simp: inj_on_def list_all_iff writeManifestString_append)
      (metis append_Nil2 writeManifestString_append)
  have keys: "(rd_MemberKey \<circ> ?member) = EncodeToString \<circ> (sha \<circ> ?enc)"
    by (auto simp: dateLocationMemberKey_def)
  have "inj_on (EncodeToString \<circ> (sha \<circ> ?enc)) (set dates \<times> set locations)"
    using comp_inj_on [OF enc sha(1)] by (auto simp: inj_on_def EncodeToString_inject)
  then have "distinct (map rd_MemberKey (fp_Members ?plan))"
    using dates(3) frozen(2) by (simp add: plan_of_def keys distinct_map distinct_product)
  moreover have "[] \<notin> rd_MemberKey ` set (fp_Members ?plan)"
  proof -
    have "[] \<noteq> EncodeToString (sha bytes)" for bytes
      using sha(2) [of bytes] by (cases "sha bytes") (auto simp: EncodeToString_def)
    then show ?thesis by (auto simp: plan_of_def dateLocationMemberKey_def)
  qed
  moreover have "List.product dates locations \<noteq> []" using some frozen(1) by (cases dates) simp_all
  ultimately have "FixedManifestChecksum sha dfn ?plan = Inr (sha (manifest_bytes dfn ?plan (sorted_members ?plan)))"
    by (simp add: FixedManifestChecksum_accepts plan_of_def)
  moreover have "BuildFixedDateSeriesPlan sha dfn dates locations = Inr ?plan"
    using dfn dates(1) some frozen(1) members by (simp add: BuildFixedDateSeriesPlan_def)
  ultimately show ?thesis
    by (intro exI [of _ ?plan]) (simp add: plan_of_def mk_range_def case_prod_unfold comp_def)
qed

text \<open>
  C37. Coverage validation that succeeds changes nothing of the rows but their coverage dates, and for a report addressed
  by date every row then carries the business date its source states, within the source segment.
\<close>

theorem ValidateFixedCoverage_dates:
  assumes "ValidateFixedCoverage dfn from to rows = Inr rows'"
  shows "list_all2 (\<lambda>row row'. row' = row\<lparr>fr_CoverageDate := fr_CoverageDate row'\<rparr> \<and>
     (fd_PublicationMode dfn = IntervalResult \<longrightarrow> IsZero (fr_CoverageDate row')) \<and>
     (fd_PublicationMode dfn = DateAddressable \<longrightarrow>
        ParseFixedCoverageDate dfn (case fr_Values row (fd_CoverageDateHeader dfn) of None \<Rightarrow> [] | Some v \<Rightarrow> v) to
          = Inr (fr_CoverageDate row') \<and>
        date_String from \<le> date_String (fr_CoverageDate row') \<and> date_String (fr_CoverageDate row') \<le> date_String to)) rows rows'"
proof (cases "fd_PublicationMode dfn = IntervalResult")
  case True
  with assms show ?thesis
    by (auto simp: ValidateFixedCoverage_def list_ex_iff list_all2_same split: if_splits)
next
  case False
  with assms obtain dates where "coverage_dates dfn from to rows = Inr dates"
    and rows': "rows' = map2 (\<lambda>row date. row\<lparr>fr_CoverageDate := date\<rparr>) rows dates"
    by (auto simp: ValidateFixedCoverage_def split: if_splits sum.splits)
  from coverage_dates_within [OF this(1)] have "length rows = length dates" and
    "\<forall>i < length dates. ParseFixedCoverageDate dfn (case fr_Values (rows ! i) (fd_CoverageDateHeader dfn) of None \<Rightarrow> [] | Some v \<Rightarrow> v) to = Inr (dates ! i) \<and>
       date_String from \<le> date_String (dates ! i) \<and> date_String (dates ! i) \<le> date_String to"
    by (auto simp: list_all2_conv_all_nth)
  with False rows' show ?thesis by (simp add: list_all2_conv_all_nth)
qed

section \<open>The properties at concrete inputs\<close>

definition sample_sha :: "string \<Rightarrow> hash" where
  "sample_sha bytes = take 32 (bytes @ replicate 32 (CHR ''.''))"

lemma sample_sha_inj: "inj_on sample_sha {bytes. length bytes = 21}"
proof (rule inj_onI)
  fix x y assume "x \<in> {bytes. length bytes = 21}" "y \<in> {bytes. length bytes = 21}" "sample_sha x = sample_sha y"
  then show "x = y" using arg_cong [of "sample_sha x" "sample_sha y" "take 21"] by (simp add: sample_sha_def)
qed

definition sample_row :: "string \<Rightarrow> FixedCSVRow" where
  "sample_row stamp = \<lparr>fr_SourceRowNumber = 2, fr_SourceRowChecksum = ''c0ffee'', fr_SourceLocationID = [],
     fr_CoverageDate = mk_date 0 0 0, fr_Values = [''transactiondate'' \<mapsto> stamp]\<rparr>"

theorem ChunkDateRange_cover_witness:
  "\<exists>cs c. ChunkDateRange (mk_date 2024 2 1) (mk_date 2024 4 1) 30 = Inr (cs @ [c]) \<and>
      concat (map chunk_days (cs @ [c])) = [date_day (mk_date 2024 2 1) .. date_day (mk_date 2024 4 1)] \<and>
      (\<forall>x \<in> set cs. length (chunk_days x) = 30) \<and> 1 \<le> length (chunk_days c) \<and> length (chunk_days c) \<le> 30"
proof -
  have "printable_date (mk_date 2024 2 1)" "printable_date (mk_date 2024 4 1)"
    "date_day (mk_date 2024 2 1) \<le> date_day (mk_date 2024 4 1)" by code_simp+
  from ChunkDateRange_cover [OF this, of 30] show ?thesis by simp
qed

theorem FixedSourceChunks_catalog_witness:
  "\<exists>chunks. FixedSourceChunks (FixedDefinitions ! 3) (mk_date 2024 2 1) (mk_date 2024 4 1) = Inr chunks \<and>
      chunks = [mk_range (mk_date 2024 2 1) (mk_date 2024 4 1)]"
proof -
  have "FixedDefinitions ! 3 \<in> set FixedDefinitions" by (rule nth_mem) code_simp
  moreover have "printable_date (mk_date 2024 2 1)" "printable_date (mk_date 2024 4 1)"
    "date_day (mk_date 2024 2 1) \<le> date_day (mk_date 2024 4 1)" "1000 \<le> cd_year (mk_date 2024 2 1)" by code_simp+
  moreover have "\<not> fd_SnapshotDate (FixedDefinitions ! 3)" "fd_PublicationMode (FixedDefinitions ! 3) = IntervalResult" by code_simp+
  ultimately show ?thesis using FixedSourceChunks_catalog [of "FixedDefinitions ! 3" "mk_date 2024 2 1" "mk_date 2024 4 1"] by blast
qed


theorem BuildFixedDateSeriesPlan_complete_witness:
  "\<exists>plan. BuildFixedDateSeriesPlan sample_sha (FixedDefinitions ! 2) [mk_date 2024 2 29, mk_date 2024 3 1] [''001'', ''002''] = Inr plan \<and>
     FixedManifestChecksum sample_sha (FixedDefinitions ! 2) plan
       = Inr (sample_sha (manifest_bytes (FixedDefinitions ! 2) plan (sorted_members plan))) \<and>
     length (fp_Members plan) = 4"
proof -
  let ?dates = "[mk_date 2024 2 29, mk_date 2024 3 1]" and ?locations = "[''001'', ''002'']"
  have "fd_Key (FixedDefinitions ! 2) = ''balance_sheet_report''" "fd_SnapshotDate (FixedDefinitions ! 2)" by code_simp+
  moreover have "validateDateSeries ?dates = Inr ()" "list_all printable_date ?dates" "distinct ?dates" by code_simp+
  moreover have "FreezeLocations ['' 002'', ''001''] = Inr ?locations" by code_simp
  moreover have "list_all framed ?locations" by (simp add: framed_def)
  moreover have "inj_on sample_sha ((\<lambda>(d, l). writeManifestString (date_String d) @ writeManifestString l) ` (set ?dates \<times> set ?locations))"
  proof -
    have "length (date_String (mk_date 2024 2 29)) = 10" "length (date_String (mk_date 2024 3 1)) = 10" by code_simp+
    then show ?thesis by (intro inj_on_subset [OF sample_sha_inj]) (auto simp: writeManifestString_def)
  qed
  moreover have "length (sample_sha bytes) = 32" for bytes by (simp add: sample_sha_def)
  ultimately obtain plan where "BuildFixedDateSeriesPlan sample_sha (FixedDefinitions ! 2) ?dates ?locations = Inr plan"
    "FixedManifestChecksum sample_sha (FixedDefinitions ! 2) plan
       = Inr (sample_sha (manifest_bytes (FixedDefinitions ! 2) plan (sorted_members plan)))"
    "map (\<lambda>member. (rd_RequestedFrom member, rd_SourceLocationID member)) (fp_Members plan) = List.product ?dates ?locations"
    using BuildFixedDateSeriesPlan_complete [of "FixedDefinitions ! 2" ?dates "['' 002'', ''001'']" ?locations sample_sha] by blast
  moreover from this(3) have "length (fp_Members plan) = 4" by (auto dest: arg_cong [of _ _ length])
  ultimately show ?thesis by blast
qed

theorem ValidateFixedCoverage_dates_witness:
  "\<exists>row'. ValidateFixedCoverage (FixedDefinitions ! 7) (mk_date 2024 2 1) (mk_date 2024 3 1) [sample_row ''2024-02-29 08:15:00''] = Inr [row'] \<and>
     date_String (mk_date 2024 2 1) \<le> date_String (fr_CoverageDate row') \<and> date_String (fr_CoverageDate row') \<le> date_String (mk_date 2024 3 1)"
proof -
  let ?row' = "(sample_row ''2024-02-29 08:15:00'')\<lparr>fr_CoverageDate := mk_date 2024 2 29\<rparr>"
  have "ParseFixedCoverageDate (FixedDefinitions ! 7) ''2024-02-29 08:15:00'' (mk_date 2024 3 1) = Inr (mk_date 2024 2 29)" by code_simp
  moreover have "fd_CoverageDateHeader (FixedDefinitions ! 7) = ''transactiondate''" "fd_PublicationMode (FixedDefinitions ! 7) = DateAddressable"
    "\<not> fd_SnapshotDate (FixedDefinitions ! 7)" by code_simp+
  moreover have "\<not> date_String (mk_date 2024 2 1) > date_String (mk_date 2024 3 1)" "\<not> date_String (mk_date 2024 2 29) < date_String (mk_date 2024 2 1)"
    "\<not> date_String (mk_date 2024 2 29) > date_String (mk_date 2024 3 1)" "\<not> IsZero (mk_date 2024 2 1)" "\<not> IsZero (mk_date 2024 3 1)" by code_simp+
  ultimately have ok: "ValidateFixedCoverage (FixedDefinitions ! 7) (mk_date 2024 2 1) (mk_date 2024 3 1) [sample_row ''2024-02-29 08:15:00''] = Inr [?row']"
    by (simp add: ValidateFixedCoverage_def sample_row_def)
  moreover have "fd_PublicationMode (FixedDefinitions ! 7) = DateAddressable" by code_simp
  ultimately show ?thesis using ValidateFixedCoverage_dates [OF ok] by auto
qed

definition sample_plan :: "string list \<Rightarrow> FixedPlan" where
  "sample_plan locations = plan_of (FixedDefinitions ! 3) (mk_range (mk_date 2024 2 1) (mk_date 2024 4 1))
     (map (\<lambda>l. descriptor (FixedDefinitions ! 3) (mk_range (mk_date 2024 2 1) (mk_date 2024 4 1)) l [] l) locations)"

lemma framed_short: "list_all (\<lambda>v. length v < 100) vs \<Longrightarrow> list_all framed vs"
  by (auto simp: list_all_iff framed_def)

lemma sample_plan_encodable:
  assumes "locations = [''001'', ''002''] \<or> locations = [''002'', ''001'']"
  shows "encodable (FixedDefinitions ! 3) (sample_plan locations)"
proof -
  have "list_all (\<lambda>v. length v < 100) (plan_fields (FixedDefinitions ! 3) (sample_plan [''001'', ''002'']))"
    "list_all (\<lambda>v. length v < 100) (plan_fields (FixedDefinitions ! 3) (sample_plan [''002'', ''001'']))" by code_simp+
  moreover have "list_all (\<lambda>member. list_all (\<lambda>v. length v < 100) (member_fields member)) (fp_Members (sample_plan [''001'', ''002'']))"
    "list_all (\<lambda>member. list_all (\<lambda>v. length v < 100) (member_fields member)) (fp_Members (sample_plan [''002'', ''001'']))" by code_simp+
  moreover have "fp_SourceVariants (sample_plan ls) = []" "length (fp_Members (sample_plan ls)) = length ls" for ls
    by (simp_all add: sample_plan_def plan_of_def)
  ultimately show ?thesis
    using assms by (auto simp: encodable_def intro: framed_short elim: list.pred_mono_strong)
qed


end
