(* ===== verification/Report_Parameters.thy ===== *)
theory Report_Parameters
  imports Report_Binding Fixed_Plan
begin

text \<open>
  Report parameters (\<^verbatim>\<open>src/internal/reporting/parameters.go\<close>): validation of their definitions, normalization of the
  values a user enters, and the checks of a report template.

  \<open>decimal\<close> is \<open>decimal.NewFromString\<close> followed by \<open>String\<close>, of a package outside the repository. A JSON default is
  \<open>raw_json\<close>; decoding takes the first value of the text. Of \<open>strings.ToLower\<close> only the effect on ASCII matters:
  no other rune has a letter of \<open>true\<close> or \<open>false\<close> as its lower case.

  Shown: normalized values printed as input normalize to themselves, so a stored request runs with the values it was
  made with.
\<close>

section \<open>Definitions of parameters\<close>

definition isOptionType :: "ParameterType \<Rightarrow> bool" where
  "isOptionType t \<longleftrightarrow> t = ParameterSingleOption \<or> t = ParameterMultipleOption"

definition effectiveOptionSource :: "Parameter \<Rightarrow> OptionSource" where
  "effectiveOptionSource parameter =
     (if isOptionType (pa_Type parameter) \<and> pa_OptionSource parameter = OptionSourceUnset then OptionSourceStatic
      else pa_OptionSource parameter)"

definition check_type :: "Parameter \<Rightarrow> unit result" where
  "check_type parameter =
     (case pa_Type parameter of
        OtherParameterType _ \<Rightarrow> Inl (ErrInvalid ''parameter has invalid type'')
      | _ \<Rightarrow>
          if isOptionType (pa_Type parameter) then
            (case effectiveOptionSource parameter of
               OptionSourceStatic \<Rightarrow>
                 if pa_Options parameter = [] then Inl (ErrInvalid ''parameter requires options'')
                 else if pa_DynamicOptionSQL parameter \<noteq> [] then Inl (ErrInvalid ''static parameter cannot have dynamic SQL'')
                 else Inr ()
             | OptionSourceDynamic \<Rightarrow>
                 if pa_Options parameter \<noteq> [] then Inl (ErrInvalid ''dynamic parameter cannot have static options'')
                 else if 2 ^ 20 < length (pa_DynamicOptionSQL parameter) then Inl (ErrInvalid ''dynamic option SQL exceeds 1 MiB'')
                 else Inr ()
             | _ \<Rightarrow> Inl (ErrInvalid ''parameter has invalid option source''))
          else if pa_Options parameter \<noteq> [] \<or> pa_OptionSource parameter \<noteq> OptionSourceUnset \<or> pa_DynamicOptionSQL parameter \<noteq> []
          then Inl (ErrInvalid ''parameter cannot have option configuration'') else Inr ())"

fun check_options :: "string list \<Rightarrow> 16 word list \<Rightarrow> ParameterOption list \<Rightarrow> unit result" where
  "check_options seen orders [] = Inr ()"
| "check_options seen orders (option # options) =
     (if po_Value option = [] \<or> TrimSpace (po_Label option) = [] then Inl (ErrInvalid ''parameter has an empty option'')
      else if po_Value option \<in> set seen then Inl (ErrInvalid ''parameter has duplicate option value'')
      else if po_DisplayOrder option \<in> set orders then Inl (ErrInvalid ''parameter has duplicate option order'')
      else check_options (po_Value option # seen) (po_DisplayOrder option # orders) options)"

fun validate_parameters :: "string list \<Rightarrow> 16 word list \<Rightarrow> Parameter list \<Rightarrow> unit result" where
  "validate_parameters keys orders [] = Inr ()"
| "validate_parameters keys orders (parameter # parameters) =
     (if \<not> parameterKeyPattern (pa_Key parameter) \<or> HasSuffix (pa_Key parameter) ''__count'' then Inl (ErrInvalid ''invalid parameter key'')
      else if pa_Key parameter \<in> set keys then Inl (ErrInvalid ''duplicate parameter'')
      else if pa_DisplayOrder parameter \<in> set orders then Inl (ErrInvalid ''duplicate parameter display order'')
      else if TrimSpace (pa_Label parameter) = [] then Inl (ErrInvalid ''parameter has no label'')
      else case check_type parameter of
        Inl x \<Rightarrow> Inl x
      | Inr _ \<Rightarrow>
          (case check_options [] [] (pa_Options parameter) of
             Inl x \<Rightarrow> Inl x
           | Inr _ \<Rightarrow> validate_parameters (pa_Key parameter # keys) (pa_DisplayOrder parameter # orders) parameters))"

definition ValidateParameters :: "Parameter list \<Rightarrow> unit result" where
  "ValidateParameters parameters = validate_parameters [] [] parameters"

section \<open>Defaults\<close>

fun convert_default :: "json \<Rightarrow> string result" where
  "convert_default (JStr s) = Inr s"
| "convert_default (JBool b) = Inr (if b then ''true'' else ''false'')"
| "convert_default (JNum s) = Inr s"
| "convert_default _ = Inl (ErrMsg ''default must contain strings, numbers, or booleans'')"

fun convert_list :: "json list \<Rightarrow> string list result" where
  "convert_list [] = Inr []"
| "convert_list (item # items) =
     (case convert_default item of
        Inl x \<Rightarrow> Inl x
      | Inr s \<Rightarrow> (case convert_list items of Inl x \<Rightarrow> Inl x | Inr rest \<Rightarrow> Inr (s # rest)))"

definition default_value :: "json \<Rightarrow> string list result" where
  "default_value v = (case v of JArr items \<Rightarrow> convert_list items | _ \<Rightarrow> map_sum id (\<lambda>s. [s]) (convert_default v))"

definition defaultStrings :: "raw_json \<Rightarrow> string list result" where
  "defaultStrings raw =
     (case raw of
        Json v \<Rightarrow> default_value v
      | JsonTrailing v \<Rightarrow> default_value v
      | _ \<Rightarrow> Inl (ErrMsg ''invalid JSON''))"

definition has_default :: "Parameter \<Rightarrow> bool" where
  "has_default parameter \<longleftrightarrow> pa_DefaultValue parameter \<noteq> RawEmpty \<and> pa_DefaultValue parameter \<noteq> Json JNull"

record InputValue =
  iv_Present :: bool
  iv_Values :: "string list"

definition DefaultInput :: "Parameter \<Rightarrow> InputValue" where
  "DefaultInput parameter =
     (if \<not> has_default parameter then \<lparr>iv_Present = False, iv_Values = []\<rparr>
      else case defaultStrings (pa_DefaultValue parameter) of
        Inl _ \<Rightarrow> \<lparr>iv_Present = False, iv_Values = []\<rparr>
      | Inr values \<Rightarrow> \<lparr>iv_Present = False, iv_Values = values\<rparr>)"

section \<open>Values\<close>

definition no_value :: NormalizedValue where
  "no_value = \<lparr>nv_Scalar = AnyNil, nv_Multi = [], nv_OptionLabels = []\<rparr>"

definition scalar_value :: "go_any \<Rightarrow> NormalizedValue" where
  "scalar_value x = \<lparr>nv_Scalar = x, nv_Multi = [], nv_OptionLabels = []\<rparr>"

text \<open>\<open>strconv.ParseInt(s, 10, 64)\<close>.\<close>

definition ParseInt :: "string \<Rightarrow> int option" where
  "ParseInt s =
     (let (negative, body) = (case s of c # r \<Rightarrow> if c = CHR ''-'' then (True, r) else if c = CHR ''+'' then (False, r) else (False, s) | [] \<Rightarrow> (False, []))
      in if body = [] \<or> \<not> list_all is_digit body then None
         else let n = (if negative then - int (digits_value body) else int (digits_value body))
           in if - (2 ^ 63) \<le> n \<and> n < 2 ^ 63 then Some n else None)"

text \<open>The regular expressions \<open>^[+-]?[0-9]+(?:\.[0-9]+)?$\<close> and
  \<open>^([0-9]{4}-[0-9]{2}-[0-9]{2})[T ]([0-9]{2}:[0-9]{2})(?::([0-9]{2})(\.[0-9]{1,6})?)?$\<close>, the latter with its groups.\<close>

definition decimalPattern :: "string \<Rightarrow> bool" where
  "decimalPattern s =
     (let body = (case s of c # r \<Rightarrow> if c = CHR ''+'' \<or> c = CHR ''-'' then r else s | [] \<Rightarrow> []);
          whole = takeWhile is_digit body; rest = dropWhile is_digit body
      in whole \<noteq> [] \<and> (rest = [] \<or> hd rest = CHR ''.'' \<and> tl rest \<noteq> [] \<and> list_all is_digit (tl rest)))"

fun shaped :: "string \<Rightarrow> string \<Rightarrow> bool" where
  "shaped [] [] = True"
| "shaped (p # ps) (c # cs) = ((if p = CHR ''0'' then is_digit c else c = p) \<and> shaped ps cs)"
| "shaped _ _ = False"

definition seconds_groups :: "string \<Rightarrow> (string \<times> string) option" where
  "seconds_groups rest =
     (if rest = [] then Some ([], [])
      else if shaped '':00'' (take 3 rest) then
        (let fraction = drop 3 rest
         in if fraction = [] \<or> hd fraction = CHR ''.'' \<and> tl fraction \<noteq> [] \<and> length (tl fraction) \<le> 6 \<and> list_all is_digit (tl fraction)
            then Some (tl (take 3 rest), fraction) else None)
      else None)"

definition datetimePattern :: "string \<Rightarrow> (string \<times> string \<times> string \<times> string) option" where
  "datetimePattern s =
     (if shaped ''0000-00-00'' (take 10 s) \<and> 10 < length s \<and> (s ! 10 = CHR ''T'' \<or> s ! 10 = CHR '' '') \<and> shaped ''00:00'' (take 5 (drop 11 s))
      then map_option (\<lambda>(seconds, fraction). (take 10 s, take 5 (drop 11 s), seconds, fraction)) (seconds_groups (drop 16 s))
      else None)"

definition normalize_datetime :: "string \<Rightarrow> NormalizedValue result" where
  "normalize_datetime value =
     (case datetimePattern value of
        None \<Rightarrow> Inl (ErrMsg ''must use YYYY-MM-DD HH:MM[:SS[.ffffff]]'')
      | Some (date, clock, seconds, fraction) \<Rightarrow>
          let whole = date @ '' '' @ clock @ '':'' @ (if seconds = [] then ''00'' else seconds)
          in if parse_exact ''2006-01-02 15:04:05'' whole = None then Inl (ErrMsg ''has invalid date or time components'')
             else Inr (scalar_value (AnyString (whole @ fraction))))"

definition ascii_lower :: "char \<Rightarrow> char" where
  "ascii_lower c = (if CHR ''A'' \<le> c \<and> c \<le> CHR ''Z'' then char_of (of_char c + 32 :: nat) else c)"

definition normalize_boolean :: "string \<Rightarrow> NormalizedValue result" where
  "normalize_boolean value =
     (let lower = map ascii_lower value
      in if lower = ''true'' \<or> lower = ''1'' then Inr (scalar_value (AnyBool True))
         else if lower = ''false'' \<or> lower = ''0'' then Inr (scalar_value (AnyBool False))
         else Inl (ErrMsg ''must be true or false''))"

text \<open>The loop over the options: those selected, and the selections that name no option.\<close>

fun choose_options :: "string list \<Rightarrow> ParameterOption list \<Rightarrow> ParameterOption list \<times> string list" where
  "choose_options selected [] = ([], selected)"
| "choose_options selected (option # options) =
     (if po_Value option \<in> set selected
      then (let (chosen, left) = choose_options (removeAll (po_Value option) selected) options in (option # chosen, left))
      else choose_options selected options)"

definition normalize_multiple :: "Parameter \<Rightarrow> string list \<Rightarrow> NormalizedValue result" where
  "normalize_multiple parameter values =
     (if \<not> distinct values then Inl (ErrMsg ''duplicate selection'')
      else let (chosen, left) = choose_options values (sort_key po_DisplayOrder (pa_Options parameter))
        in if left \<noteq> [] then Inl (ErrMsg ''invalid option'')
           else Inr \<lparr>nv_Scalar = AnyNil, nv_Multi = map (AnyString \<circ> po_Value) chosen,
                     nv_OptionLabels = map (\<lambda>option. (po_Value option, po_Label option)) chosen\<rparr>)"

definition normalizeParameter :: "(string \<Rightarrow> string option) \<Rightarrow> Parameter \<Rightarrow> string list \<Rightarrow> NormalizedValue result" where
  "normalizeParameter decimal parameter values =
     (if pa_Type parameter = ParameterMultipleOption then normalize_multiple parameter values
      else if 1 < length values then Inl (ErrMsg ''accepts one value'')
      else let value = (case values of [] \<Rightarrow> [] | v # _ \<Rightarrow> v)
        in if value = [] then Inr no_value
           else case pa_Type parameter of
             ParameterText \<Rightarrow> Inr (scalar_value (AnyString value))
           | ParameterInteger \<Rightarrow>
               (case ParseInt value of
                  None \<Rightarrow> Inl (ErrMsg ''must be a 64-bit integer'')
                | Some n \<Rightarrow> Inr (scalar_value (AnyInt64 (of_int n))))
           | ParameterDecimal \<Rightarrow>
               (if \<not> decimalPattern value then Inl (ErrMsg ''must be a decimal number'')
                else case decimal value of
                  None \<Rightarrow> Inl (ErrMsg ''must be a decimal number'')
                | Some s \<Rightarrow> Inr (scalar_value (AnyString s)))
           | ParameterDate \<Rightarrow>
               (if parse_exact ''2006-01-02'' value = None then Inl (ErrMsg ''must use YYYY-MM-DD'')
                else Inr (scalar_value (AnyString value)))
           | ParameterDatetime \<Rightarrow> normalize_datetime value
           | ParameterBoolean \<Rightarrow> normalize_boolean value
           | ParameterSingleOption \<Rightarrow>
               (case find (\<lambda>option. value = po_Value option) (pa_Options parameter) of
                  None \<Rightarrow> Inl (ErrMsg ''invalid option'')
                | Some option \<Rightarrow> Inr ((scalar_value (AnyString value))\<lparr>nv_OptionLabels := [(value, po_Label option)]\<rparr>))
           | _ \<Rightarrow> Inl (ErrMsg ''invalid type''))"

fun snapshot_selection :: "string list \<Rightarrow> string list \<Rightarrow> unit result" where
  "snapshot_selection seen [] = Inr ()"
| "snapshot_selection seen (value # values) =
     (if value = [] then Inl (ErrMsg ''invalid option'')
      else if value \<in> set seen then Inl (ErrMsg ''duplicate selection'')
      else snapshot_selection (value # seen) values)"

definition normalizeDynamicSnapshot :: "Parameter \<Rightarrow> string list \<Rightarrow> NormalizedValue result" where
  "normalizeDynamicSnapshot parameter values =
     (if pa_Type parameter = ParameterSingleOption then
        (if 1 < length values then Inl (ErrMsg ''accepts one value'')
         else case values of
           [] \<Rightarrow> Inr no_value
         | v # _ \<Rightarrow> if v = [] then Inr no_value else Inr (scalar_value (AnyString v)))
      else case snapshot_selection [] values of
        Inl x \<Rightarrow> Inl x
      | Inr _ \<Rightarrow> Inr (no_value\<lparr>nv_Multi := map AnyString values\<rparr>))"

text \<open>The loop over the parameters. \<open>normal\<close> is how one parameter is normalized, or refused.\<close>

type_synonym inputs = "(string \<times> InputValue) list"

definition input_of :: "inputs \<Rightarrow> string \<Rightarrow> InputValue" where
  "input_of input key = (case map_of input key of None \<Rightarrow> \<lparr>iv_Present = False, iv_Values = []\<rparr> | Some value \<Rightarrow> value)"

definition entered_values :: "Parameter \<Rightarrow> InputValue \<Rightarrow> string list result" where
  "entered_values parameter provided =
     (if \<not> iv_Present provided \<and> has_default parameter then
        (case defaultStrings (pa_DefaultValue parameter) of
           Inl _ \<Rightarrow> Inl (ErrInvalid ''parameter has invalid default'')
         | Inr values \<Rightarrow> Inr values)
      else Inr (iv_Values provided))"

fun normalize_loop :: "(Parameter \<Rightarrow> string list result \<Rightarrow> NormalizedValue result) \<Rightarrow> inputs \<Rightarrow> Parameter list \<Rightarrow> bindings result" where
  "normalize_loop normal input [] = Inr []"
| "normalize_loop normal input (parameter # parameters) =
     (case normal parameter (entered_values parameter (input_of input (pa_Key parameter))) of
        Inl x \<Rightarrow> Inl x
      | Inr normalized \<Rightarrow>
          if pa_Required parameter \<and> \<not> Provided normalized then Inl (ErrInvalid ''is required'')
          else (case normalize_loop normal input parameters of
            Inl x \<Rightarrow> Inl x
          | Inr rest \<Rightarrow> Inr ((pa_Key parameter, normalized) # rest)))"

definition wrap_invalid :: "'a result \<Rightarrow> 'a result" where
  "wrap_invalid r = (case r of Inl (ErrMsg m) \<Rightarrow> Inl (ErrInvalid m) | _ \<Rightarrow> r)"

definition live_value :: "(string \<Rightarrow> string option) \<Rightarrow> Parameter \<Rightarrow> string list result \<Rightarrow> NormalizedValue result" where
  "live_value decimal parameter values =
     (if effectiveOptionSource parameter = OptionSourceDynamic then Inl (ErrInvalid ''dynamic parameter requires option resolution'')
      else case values of Inl x \<Rightarrow> Inl x | Inr vs \<Rightarrow> wrap_invalid (normalizeParameter decimal parameter vs))"

definition snapshot_value :: "(string \<Rightarrow> string option) \<Rightarrow> Parameter \<Rightarrow> string list result \<Rightarrow> NormalizedValue result" where
  "snapshot_value decimal parameter values =
     (case values of
        Inl x \<Rightarrow> Inl x
      | Inr vs \<Rightarrow>
          wrap_invalid (if effectiveOptionSource parameter = OptionSourceDynamic then normalizeDynamicSnapshot parameter vs
            else normalizeParameter decimal parameter vs))"

definition normalize_all :: "(Parameter \<Rightarrow> string list result \<Rightarrow> NormalizedValue result) \<Rightarrow> Parameter list \<Rightarrow> inputs \<Rightarrow> bindings result" where
  "normalize_all normal parameters input =
     (case ValidateParameters parameters of
        Inl x \<Rightarrow> Inl x
      | Inr _ \<Rightarrow>
          (case normalize_loop normal input parameters of
             Inl x \<Rightarrow> Inl x
           | Inr values \<Rightarrow>
               if \<not> fst ` set input \<subseteq> pa_Key ` set parameters then Inl (ErrInvalid ''unknown parameter'') else Inr values))"

definition NormalizeParameters :: "(string \<Rightarrow> string option) \<Rightarrow> Parameter list \<Rightarrow> inputs \<Rightarrow> bindings result" where
  "NormalizeParameters decimal parameters input = normalize_all (live_value decimal) parameters input"

definition NormalizeSnapshotParameters :: "(string \<Rightarrow> string option) \<Rightarrow> Parameter list \<Rightarrow> inputs \<Rightarrow> bindings result" where
  "NormalizeSnapshotParameters decimal parameters input = normalize_all (snapshot_value decimal) parameters input"

text \<open>\<open>item.(string)\<close> panics on any other value, which is \<open>None\<close> here.\<close>

fun any_strings :: "go_any list \<Rightarrow> string list option" where
  "any_strings [] = Some []"
| "any_strings (AnyString s # items) = map_option (Cons s) (any_strings items)"
| "any_strings (_ # items) = None"

definition canonical_input :: "NormalizedValue \<Rightarrow> InputValue option" where
  "canonical_input value =
     (case nv_Scalar value of
        AnyString s \<Rightarrow> Some \<lparr>iv_Present = True, iv_Values = [s]\<rparr>
      | AnyInt64 n \<Rightarrow> Some \<lparr>iv_Present = True, iv_Values = [int_string (sint n)]\<rparr>
      | AnyBool b \<Rightarrow> Some \<lparr>iv_Present = True, iv_Values = [if b then ''true'' else ''false'']\<rparr>
      | AnyNil \<Rightarrow> map_option (\<lambda>values. \<lparr>iv_Present = True, iv_Values = values\<rparr>) (any_strings (nv_Multi value)))"

fun CanonicalInput :: "bindings \<Rightarrow> inputs option" where
  "CanonicalInput [] = Some []"
| "CanonicalInput ((key, value) # values) =
     (case canonical_input value of
        None \<Rightarrow> None
      | Some input \<Rightarrow> map_option (Cons (key, input)) (CanonicalInput values))"

section \<open>Templates\<close>

fun distinct_defaults :: "string list \<Rightarrow> string list \<Rightarrow> unit result" where
  "distinct_defaults seen [] = Inr ()"
| "distinct_defaults seen (value # values) =
     (if value = [] then Inl (ErrInvalid ''parameter has an empty default'')
      else if value \<in> set seen then Inl (ErrInvalid ''parameter has duplicate default value'')
      else distinct_defaults (value # seen) values)"

definition check_default :: "(string \<Rightarrow> string option) \<Rightarrow> Parameter \<Rightarrow> unit result" where
  "check_default decimal parameter =
     (if \<not> has_default parameter then Inr ()
      else case defaultStrings (pa_DefaultValue parameter) of
        Inl _ \<Rightarrow> Inl (ErrInvalid ''parameter has invalid default'')
      | Inr values \<Rightarrow>
          if effectiveOptionSource parameter = OptionSourceDynamic then
            (if pa_Type parameter = ParameterSingleOption \<and> 1 < length values then Inl (ErrInvalid ''parameter default accepts one value'')
             else distinct_defaults [] values)
          else (case normalizeParameter decimal parameter values of
            Inl _ \<Rightarrow> Inl (ErrInvalid ''parameter has invalid default'')
          | Inr _ \<Rightarrow> Inr ()))"

fun validateDefaults :: "(string \<Rightarrow> string option) \<Rightarrow> Parameter list \<Rightarrow> unit result" where
  "validateDefaults decimal [] = Inr ()"
| "validateDefaults decimal (parameter # parameters) =
     (case check_default decimal parameter of Inl x \<Rightarrow> Inl x | Inr _ \<Rightarrow> validateDefaults decimal parameters)"

definition ValidateBinding :: "(rune \<Rightarrow> rune) \<Rightarrow> (string \<Rightarrow> string option) \<Rightarrow> string \<Rightarrow> Parameter list \<Rightarrow> SQLMode \<Rightarrow> unit result" where
  "ValidateBinding upper decimal statement parameters mode =
     (if TrimSpace statement = [] then Inl (ErrInvalid ''SQL must not be empty'')
      else case ValidateParameters parameters of
        Inl x \<Rightarrow> Inl x
      | Inr _ \<Rightarrow>
          (case validateDefaults decimal parameters of
             Inl x \<Rightarrow> Inl x
           | Inr _ \<Rightarrow> map_sum id (\<lambda>_. ()) (scanAndValidateStatement upper statement parameters mode)))"

text \<open>The keys the dynamic options of the parameters use; each must come before the parameter that uses it.\<close>

fun dynamic_references :: "(rune \<Rightarrow> rune) \<Rightarrow> Parameter list \<Rightarrow> SQLMode \<Rightarrow> Parameter list \<Rightarrow> string list result" where
  "dynamic_references upper parameters mode [] = Inr []"
| "dynamic_references upper parameters mode (parameter # rest) =
     (if effectiveOptionSource parameter \<noteq> OptionSourceDynamic then dynamic_references upper parameters mode rest
      else if TrimSpace (pa_DynamicOptionSQL parameter) = [] then Inl (ErrInvalid ''dynamic option SQL must not be empty'')
      else case ReferencedParameters upper (pa_DynamicOptionSQL parameter) parameters mode of
        Inl x \<Rightarrow> Inl x
      | Inr references \<Rightarrow>
          if list_ex (\<lambda>key. case definitions_of parameters key of
               None \<Rightarrow> pa_DisplayOrder parameter \<le> 0 | Some upstream \<Rightarrow> pa_DisplayOrder parameter \<le> pa_DisplayOrder upstream) references
          then Inl (ErrInvalid ''dynamic parameter references non-upstream parameter'')
          else (case dynamic_references upper parameters mode rest of Inl x \<Rightarrow> Inl x | Inr keys \<Rightarrow> Inr (references @ keys)))"

definition ValidateTemplateBinding :: "(rune \<Rightarrow> rune) \<Rightarrow> (string \<Rightarrow> string option) \<Rightarrow> string \<Rightarrow> Parameter list \<Rightarrow> SQLMode \<Rightarrow> unit result" where
  "ValidateTemplateBinding upper decimal statement parameters mode =
     (if TrimSpace statement = [] then Inl (ErrInvalid ''SQL must not be empty'')
      else case ValidateParameters parameters of
        Inl x \<Rightarrow> Inl x
      | Inr _ \<Rightarrow>
          (case validateDefaults decimal parameters of
             Inl x \<Rightarrow> Inl x
           | Inr _ \<Rightarrow>
               (case ReferencedParameters upper statement parameters mode of
                  Inl x \<Rightarrow> Inl x
                | Inr main \<Rightarrow>
                    (case dynamic_references upper parameters mode parameters of
                       Inl x \<Rightarrow> Inl x
                     | Inr dynamic \<Rightarrow>
                         if list_ex (\<lambda>p. pa_Key p \<notin> set main \<and> pa_Key p \<notin> set dynamic) parameters
                         then Inl (ErrInvalid ''parameter is not used by report SQL'') else Inr ()))))"

text \<open>The presence states a template is tried with, as the lists of present keys: none, all, those of each block, and all
  but one; equal states count once.\<close>

fun add_states :: "nat \<Rightarrow> string list \<Rightarrow> string list list \<Rightarrow> string list list \<Rightarrow> string list list" where
  "add_states limit keys states [] = states"
| "add_states limit keys states (state # rest) =
     (if limit \<le> length states \<or> (\<exists>s \<in> set states. \<forall>k \<in> set keys. (k \<in> set s) = (k \<in> set state))
      then add_states limit keys states rest else add_states limit keys (states @ [state]) rest)"

definition presence_states :: "nat \<Rightarrow> validatedOptionalBlock list \<Rightarrow> string list \<Rightarrow> string list list" where
  "presence_states limit blocks keys =
     add_states limit keys []
       (if blocks = [] then [keys]
        else [[], keys] @ map vb_OptionalKeys blocks @ map (\<lambda>omitted. filter (\<lambda>k. k \<noteq> omitted) keys) keys)"

definition trial_value :: "string list \<Rightarrow> Parameter \<Rightarrow> NormalizedValue" where
  "trial_value state parameter =
     (if \<not> pa_Required parameter \<and> pa_Key parameter \<notin> set state then no_value
      else if pa_Type parameter = ParameterMultipleOption then no_value\<lparr>nv_Multi := [AnyString ''optional-block-validation'']\<rparr>
      else scalar_value (AnyString ''optional-block-validation''))"

fun trial_queries :: "(rune \<Rightarrow> rune) \<Rightarrow> string \<Rightarrow> Parameter list \<Rightarrow> SQLMode \<Rightarrow> string list \<Rightarrow> string list list \<Rightarrow> string list result" where
  "trial_queries upper statement parameters mode queries [] = Inr queries"
| "trial_queries upper statement parameters mode queries (state # states) =
     (case Bind upper statement parameters (map (\<lambda>p. (pa_Key p, trial_value state p)) (rev parameters)) mode of
        Inl x \<Rightarrow> Inl x
      | Inr (query, _) \<Rightarrow>
          trial_queries upper statement parameters mode (if query \<in> set queries then queries else queries @ [query]) states)"

definition templateValidationQueries :: "(rune \<Rightarrow> rune) \<Rightarrow> string \<Rightarrow> Parameter list \<Rightarrow> SQLMode \<Rightarrow> int \<Rightarrow> string list result" where
  "templateValidationQueries upper statement parameters mode limit =
     (case scanAndValidateStatement upper statement parameters mode of
        Inl x \<Rightarrow> Inl x
      | Inr (_, blocks) \<Rightarrow>
          if limit \<le> 0 then Inr []
          else trial_queries upper statement parameters mode []
            (presence_states (nat limit) blocks (map pa_Key (filter (\<lambda>p. \<not> pa_Required p) parameters))))"

section \<open>Normalized values are canonical\<close>

lemma nat_string_digits: "nat_string n \<noteq> [] \<and> list_all is_digit (nat_string n) \<and> digits_value (nat_string n) = n"
proof (induction n rule: nat_string.induct)
  case (1 n)
  show ?case
  proof (cases "n < 10")
    case True
    then show ?thesis by (subst nat_string.simps, subst (2) nat_string.simps, subst (3) nat_string.simps) (simp add: digits_value_def)
  next
    case False
    with 1 show ?thesis by (simp add: nat_string.simps [of n] digits_value_snoc)
  qed
qed

lemma sign_not_digit: "\<not> is_digit (CHR ''-'')" "\<not> is_digit (CHR ''+'')"
  by code_simp+

lemma ParseInt_range: "ParseInt s = Some n \<Longrightarrow> - (2 ^ 63) \<le> n \<and> n < 2 ^ 63"
  by (simp add: ParseInt_def Let_def split: prod.splits if_splits)

lemma ParseInt_int_string:
  assumes "- (2 ^ 63) \<le> n" "n < 2 ^ 63"
  shows "ParseInt (int_string n) = Some n" "int_string n \<noteq> []"
proof -
  obtain c r where ns: "nat_string (nat n) = c # r" using nat_string_digits [of "nat n"] by (cases "nat_string (nat n)") auto
  then have "is_digit c" using nat_string_digits [of "nat n"] by simp
  then have "c \<noteq> CHR ''-''" "c \<noteq> CHR ''+''" using sign_not_digit by auto
  with assms ns nat_string_digits [of "nat n"] nat_string_digits [of "nat (- n)"] show "ParseInt (int_string n) = Some n"
    by (auto simp: ParseInt_def int_string_def)
  show "int_string n \<noteq> []" using nat_string_digits [of "nat n"] by (auto simp: int_string_def)
qed

lemma sint_of_int64: "- (2 ^ 63) \<le> n \<Longrightarrow> n < 2 ^ 63 \<Longrightarrow> sint (of_int n :: 64 word) = n"
  by (simp add: signed_of_int signed_take_bit_int_eq_self)

lemma choose_options_distinct:
  "distinct (map po_Value options) \<Longrightarrow> choose_options selected options =
     (filter (\<lambda>x. po_Value x \<in> set selected) options, filter (\<lambda>v. v \<notin> po_Value ` set options) selected)"
proof (induction selected options rule: choose_options.induct)
  case (2 selected x options)
  have "filter (\<lambda>y. po_Value y \<in> set (removeAll (po_Value x) selected)) options = filter (\<lambda>y. po_Value y \<in> set selected) options"
    using 2(3) by (intro filter_cong) (auto simp: image_iff)
  moreover have "filter (\<lambda>v. v \<notin> po_Value ` set options) (removeAll (po_Value x) selected) = filter (\<lambda>v. v \<notin> po_Value ` set (x # options)) selected"
    by (induction selected) auto
  moreover have "po_Value x \<notin> set selected \<Longrightarrow> filter (\<lambda>v. v \<notin> po_Value ` set options) selected = filter (\<lambda>v. v \<notin> po_Value ` set (x # options)) selected"
    by (intro filter_cong) auto
  ultimately show ?case using 2 by (auto simp: Let_def)
qed simp

lemma check_options_distinct:
  "check_options seen orders options = Inr () \<Longrightarrow> distinct (map po_Value options) \<and> (\<forall>x \<in> set options. po_Value x \<noteq> [] \<and> po_Value x \<notin> set seen)"
  by (induction seen orders options rule: check_options.induct) (auto split: if_splits)

lemma any_strings_map: "any_strings (map (AnyString \<circ> f) xs) = Some (map f xs)"
  by (induction xs) auto

lemma normalize_multiple_canonical:
  assumes "normalize_multiple p vs = Inr nv" "distinct (map po_Value (pa_Options p))"
  shows "\<exists>ws. canonical_input nv = Some \<lparr>iv_Present = True, iv_Values = ws\<rparr> \<and> normalize_multiple p ws = Inr nv"
proof -
  let ?os = "sort_key po_DisplayOrder (pa_Options p)"
  have d: "distinct (map po_Value ?os)" using assms(2) by (simp add: distinct_map)
  note choose = choose_options_distinct [OF d]
  let ?c = "filter (\<lambda>x. po_Value x \<in> set vs) ?os"
  have nv: "nv = \<lparr>nv_Scalar = AnyNil, nv_Multi = map (AnyString \<circ> po_Value) ?c, nv_OptionLabels = map (\<lambda>x. (po_Value x, po_Label x)) ?c\<rparr>"
    using assms(1) by (simp add: normalize_multiple_def choose Let_def split: if_splits)
  have same: "filter (\<lambda>x. po_Value x \<in> set (map po_Value ?c)) ?os = ?c" by (intro filter_cong) auto
  have "distinct (map po_Value ?c)" using d by (simp add: distinct_map inj_on_def)
  moreover have "filter (\<lambda>v. v \<notin> po_Value ` set ?os) (map po_Value ?c) = []" by (auto simp: filter_empty_conv)
  ultimately have "normalize_multiple p (map po_Value ?c) = Inr nv"
    unfolding normalize_multiple_def choose same nv by simp
  moreover have "canonical_input nv = Some \<lparr>iv_Present = True, iv_Values = map po_Value ?c\<rparr>"
    by (simp only: nv canonical_input_def any_strings_map NormalizedValue.select_convs go_any.case option.map)
  ultimately show ?thesis by blast
qed

lemma shaped_length: "shaped p s \<Longrightarrow> length s = length p"
  by (induction p s rule: shaped.induct) auto

lemma seconds_groups_again:
  assumes "seconds_groups rest = Some (seconds, fraction)"
  shows "seconds_groups ('':'' @ (if seconds = [] then ''00'' else seconds) @ fraction) = Some (if seconds = [] then ''00'' else seconds, fraction)"
proof (cases "rest = []")
  case True
  have "is_digit (CHR ''0'')" by code_simp
  with True assms show ?thesis by (simp add: seconds_groups_def)
next
  case False
  with assms have sh: "shaped '':00'' (take 3 rest)" "seconds = tl (take 3 rest)"
    and fr: "fraction = [] \<or> hd fraction = CHR ''.'' \<and> tl fraction \<noteq> [] \<and> length (tl fraction) \<le> 6 \<and> list_all is_digit (tl fraction)"
    by (auto simp: seconds_groups_def Let_def split: if_splits)
  obtain a b where s: "take 3 rest = [CHR '':'', a, b]" "seconds = [a, b]"
    using sh shaped_length [OF sh(1)] by (cases "take 3 rest"; cases "tl (take 3 rest)"; cases "tl (tl (take 3 rest))") auto
  with sh fr show ?thesis by (auto simp: seconds_groups_def)
qed

lemma datetime_again:
  assumes "datetimePattern value = Some (date, clock, seconds, fraction)"
  shows "datetimePattern (date @ '' '' @ clock @ '':'' @ (if seconds = [] then ''00'' else seconds) @ fraction) =
    Some (date, clock, if seconds = [] then ''00'' else seconds, fraction)"
proof -
  from assms have p: "shaped ''0000-00-00'' date" "shaped ''00:00'' clock" "seconds_groups (drop 16 value) = Some (seconds, fraction)"
    by (auto simp: datetimePattern_def split: if_splits)
  have len: "length date = 10" "length clock = 5" using shaped_length [OF p(1)] shaped_length [OF p(2)] by simp_all
  let ?tail = "'':'' @ (if seconds = [] then ''00'' else seconds) @ fraction"
  have "take 10 (date @ '' '' @ clock @ ?tail) = date" "(date @ '' '' @ clock @ ?tail) ! 10 = CHR '' ''"
    "take 5 (drop 11 (date @ '' '' @ clock @ ?tail)) = clock" "drop 16 (date @ '' '' @ clock @ ?tail) = ?tail" "10 < length (date @ '' '' @ clock @ ?tail)"
    using len by (simp_all add: nth_append)
  with p(1,2) seconds_groups_again [OF p(3)] show ?thesis unfolding datetimePattern_def by simp
qed

lemma normalize_datetime_canonical:
  assumes "normalize_datetime value = Inr nv"
  shows "\<exists>s. s \<noteq> [] \<and> nv = scalar_value (AnyString s) \<and> normalize_datetime s = Inr nv"
proof -
  from assms obtain date clock seconds fraction where m: "datetimePattern value = Some (date, clock, seconds, fraction)"
    and ok: "parse_exact ''2006-01-02 15:04:05'' (date @ '' '' @ clock @ '':'' @ (if seconds = [] then ''00'' else seconds)) \<noteq> None"
    and nv: "nv = scalar_value (AnyString (date @ '' '' @ clock @ '':'' @ (if seconds = [] then ''00'' else seconds) @ fraction))"
    by (auto simp: normalize_datetime_def Let_def split: option.splits if_splits)
  from datetime_again [OF m] ok nv show ?thesis
    by (intro exI [of _ "date @ '' '' @ clock @ '':'' @ (if seconds = [] then ''00'' else seconds) @ fraction"])
      (auto simp: normalize_datetime_def Let_def)
qed

lemma normalize_boolean_canonical:
  assumes "normalize_boolean value = Inr nv"
  shows "\<exists>b. nv = scalar_value (AnyBool b) \<and> normalize_boolean (if b then ''true'' else ''false'') = Inr nv"
proof -
  have "map ascii_lower ''true'' = ''true''" "map ascii_lower ''false'' = ''false''" by code_simp+
  with assms show ?thesis by (auto simp: normalize_boolean_def Let_def split: if_splits)
qed

text \<open>What is used of the decimal library: the text of a decimal number is a plain decimal number, and its own text.\<close>

definition plain_decimals :: "(string \<Rightarrow> string option) \<Rightarrow> bool" where
  "plain_decimals decimal \<longleftrightarrow>
     (\<forall>v s. decimalPattern v \<longrightarrow> decimal v = Some s \<longrightarrow> s \<noteq> [] \<and> decimalPattern s \<and> decimal s = Some s)"

lemma normalizeParameter_canonical:
  assumes norm: "normalizeParameter decimal p vs = Inr nv" and opts: "distinct (map po_Value (pa_Options p))"
    and decimal: "plain_decimals decimal"
  shows "\<exists>ws. canonical_input nv = Some \<lparr>iv_Present = True, iv_Values = ws\<rparr> \<and> normalizeParameter decimal p ws = Inr nv"
proof (cases "pa_Type p = ParameterMultipleOption")
  case True
  with norm normalize_multiple_canonical [OF _ opts] show ?thesis by (simp add: normalizeParameter_def)
next
  case multi: False
  let ?v = "case vs of [] \<Rightarrow> [] | v # _ \<Rightarrow> v"
  show ?thesis
  proof (cases "?v = []")
    case True
    with norm multi have "nv = no_value" by (auto simp: normalizeParameter_def Let_def split: if_splits)
    then show ?thesis using multi by (intro exI [of _ "[]"]) (simp add: no_value_def canonical_input_def normalizeParameter_def)
  next
    case False
    have again: "\<exists>ws. canonical_input nv = Some \<lparr>iv_Present = True, iv_Values = ws\<rparr> \<and> normalizeParameter decimal p ws = Inr nv"
      if "canonical_input nv = Some \<lparr>iv_Present = True, iv_Values = [w]\<rparr>" "normalizeParameter decimal p [w] = Inr nv" for w
      using that by blast
    show ?thesis
    proof (cases "pa_Type p")
      case ParameterText
      with norm False multi show ?thesis
        by (intro again [of ?v]) (auto simp: normalizeParameter_def scalar_value_def canonical_input_def split: if_splits)
    next
      case ParameterInteger
      with norm False multi obtain n where n: "ParseInt ?v = Some n" "nv = scalar_value (AnyInt64 (of_int n))"
        by (auto simp: normalizeParameter_def Let_def split: if_splits option.splits)
      note r = ParseInt_range [OF n(1)]
      with ParameterInteger n(2) ParseInt_int_string [of n] sint_of_int64 [of n] show ?thesis
        by (intro again [of "int_string n"]) (auto simp: normalizeParameter_def scalar_value_def canonical_input_def)
    next
      case ParameterDecimal
      with norm False multi obtain s where s: "decimalPattern ?v" "decimal ?v = Some s" "nv = scalar_value (AnyString s)"
        by (auto simp: normalizeParameter_def Let_def split: if_splits option.splits)
      from decimal s(1,2) have "s \<noteq> []" "decimalPattern s" "decimal s = Some s" unfolding plain_decimals_def by blast+
      with ParameterDecimal s(3) show ?thesis
        by (intro again [of s]) (auto simp: normalizeParameter_def scalar_value_def canonical_input_def)
    next
      case ParameterDate
      with norm False multi show ?thesis
        by (intro again [of ?v]) (auto simp: normalizeParameter_def Let_def scalar_value_def canonical_input_def split: if_splits)
    next
      case ParameterDatetime
      with norm False multi have "normalize_datetime ?v = Inr nv" by (auto simp: normalizeParameter_def Let_def split: if_splits)
      from normalize_datetime_canonical [OF this] obtain s where "s \<noteq> []" "nv = scalar_value (AnyString s)" "normalize_datetime s = Inr nv" by blast
      with ParameterDatetime show ?thesis
        by (intro again [of s]) (auto simp: normalizeParameter_def scalar_value_def canonical_input_def)
    next
      case ParameterBoolean
      with norm False multi have "normalize_boolean ?v = Inr nv" by (auto simp: normalizeParameter_def Let_def split: if_splits)
      from normalize_boolean_canonical [OF this] obtain b where "nv = scalar_value (AnyBool b)"
        "normalize_boolean (if b then ''true'' else ''false'') = Inr nv" by blast
      with ParameterBoolean show ?thesis
        by (intro again [of "if b then ''true'' else ''false''"]) (auto simp: normalizeParameter_def scalar_value_def canonical_input_def)
    next
      case ParameterSingleOption
      with norm False multi show ?thesis
        by (intro again [of ?v]) (auto simp: normalizeParameter_def Let_def scalar_value_def canonical_input_def split: if_splits option.splits)
    next
      case (OtherParameterType t)
      with norm False multi show ?thesis by (auto simp: normalizeParameter_def Let_def split: if_splits)
    qed (use multi in simp)
  qed
qed

lemma validate_parameters_distinct:
  "validate_parameters keys orders ps = Inr () \<Longrightarrow> distinct (map pa_Key ps) \<and> (\<forall>p \<in> set ps. pa_Key p \<notin> set keys \<and> distinct (map po_Value (pa_Options p)))"
proof (induction keys orders ps rule: validate_parameters.induct)
  case (2 keys orders p ps)
  then have "check_options [] [] (pa_Options p) = Inr ()" "pa_Key p \<notin> set keys"
    "distinct (map pa_Key ps) \<and> (\<forall>q \<in> set ps. pa_Key q \<notin> set (pa_Key p # keys) \<and> distinct (map po_Value (pa_Options q)))"
    by (auto split: if_splits sum.splits)
  with check_options_distinct show ?case by (auto simp: image_iff)
qed simp

lemma wrap_invalid_Inr [simp]: "wrap_invalid r = Inr x \<longleftrightarrow> r = Inr x"
  by (auto simp: wrap_invalid_def split: sum.splits err.splits)

lemma live_value_Inr:
  "live_value decimal p r = Inr nv \<longleftrightarrow> effectiveOptionSource p \<noteq> OptionSourceDynamic \<and> (\<exists>vs. r = Inr vs \<and> normalizeParameter decimal p vs = Inr nv)"
  by (auto simp: live_value_def split: sum.splits)

definition follows :: "(string \<Rightarrow> string option) \<Rightarrow> (Parameter \<Rightarrow> string list result \<Rightarrow> NormalizedValue result) \<Rightarrow> bool" where
  "follows decimal f \<longleftrightarrow> (\<forall>p vs nv. effectiveOptionSource p \<noteq> OptionSourceDynamic \<longrightarrow> normalizeParameter decimal p vs = Inr nv \<longrightarrow>
     f p (Inr vs) = Inr nv)"

lemma normalize_loop_canonical:
  assumes dec: "plain_decimals decimal"
    and f: "follows decimal f"
  shows "normalize_loop (live_value decimal) input ps = Inr vals0 \<Longrightarrow> \<forall>p \<in> set ps. distinct (map po_Value (pa_Options p)) \<Longrightarrow>
    distinct (map pa_Key ps) \<Longrightarrow>
    \<exists>canonical. CanonicalInput vals0 = Some canonical \<and> map fst canonical = map pa_Key ps \<and>
      (\<forall>input'. (\<forall>k \<in> pa_Key ` set ps. map_of input' k = map_of canonical k) \<longrightarrow> normalize_loop f input' ps = Inr vals0)"
proof (induction ps arbitrary: vals0)
  case (Cons p ps)
  from Cons.prems(1) obtain nv rest vs where nv: "effectiveOptionSource p \<noteq> OptionSourceDynamic" "normalizeParameter decimal p vs = Inr nv"
    and req: "pa_Required p \<longrightarrow> Provided nv" and loop: "normalize_loop (live_value decimal) input ps = Inr rest"
    and vals: "vals0 = (pa_Key p, nv) # rest" by (auto simp: live_value_Inr split: sum.splits if_splits)
  from Cons.IH [OF loop] Cons.prems obtain canonical where ih: "CanonicalInput rest = Some canonical" "map fst canonical = map pa_Key ps"
    "\<forall>input'. (\<forall>k \<in> pa_Key ` set ps. map_of input' k = map_of canonical k) \<longrightarrow> normalize_loop f input' ps = Inr rest" by auto
  from normalizeParameter_canonical [OF nv(2) _ dec] Cons.prems(2) obtain ws where
    ws: "canonical_input nv = Some \<lparr>iv_Present = True, iv_Values = ws\<rparr>" "normalizeParameter decimal p ws = Inr nv" by auto
  let ?c = "(pa_Key p, \<lparr>iv_Present = True, iv_Values = ws\<rparr>) # canonical"
  have "normalize_loop f input' (p # ps) = Inr vals0" if same: "\<forall>k \<in> pa_Key ` set (p # ps). map_of input' k = map_of ?c k" for input'
  proof -
    have "map_of input' (pa_Key p) = Some \<lparr>iv_Present = True, iv_Values = ws\<rparr>" using same by simp
    then have "f p (entered_values p (input_of input' (pa_Key p))) = Inr nv" using f nv(1) ws(2) by (simp add: follows_def input_of_def entered_values_def)
    moreover have "\<forall>k \<in> pa_Key ` set ps. map_of input' k = map_of canonical k" using same Cons.prems(3) by (auto simp: image_iff)
    ultimately show ?thesis using ih(3) req vals by simp
  qed
  moreover have "CanonicalInput vals0 = Some ?c" using ws(1) ih(1) vals by simp
  ultimately show ?case using ih(2) by (intro exI [of _ ?c]) simp
qed simp

section \<open>Properties\<close>

text \<open>
  C39. Normalized values survive being stored. The canonical input of the values of a request always exists, and normalizing it
  again, live or as a snapshot, gives exactly the same values; defaults cannot slip in. Of the decimal library it is used that
  its text of a decimal number is a plain decimal number and is its own text.
\<close>

theorem NormalizeParameters_canonical:
  assumes dec: "plain_decimals decimal"
    and norm: "NormalizeParameters decimal parameters input = Inr values"
  shows "\<exists>canonical. CanonicalInput values = Some canonical \<and> NormalizeParameters decimal parameters canonical = Inr values \<and>
     NormalizeSnapshotParameters decimal parameters canonical = Inr values"
proof -
  from norm have valid: "ValidateParameters parameters = Inr ()" and loop: "normalize_loop (live_value decimal) input parameters = Inr values"
    by (auto simp: NormalizeParameters_def normalize_all_def split: sum.splits if_splits)
  have d: "\<forall>p \<in> set parameters. distinct (map po_Value (pa_Options p))" "distinct (map pa_Key parameters)"
    using valid validate_parameters_distinct by (auto simp: ValidateParameters_def)
  have live: "follows decimal (live_value decimal)" and snapshot: "follows decimal (snapshot_value decimal)"
    by (simp_all add: follows_def live_value_Inr snapshot_value_def)
  obtain c where c: "CanonicalInput values = Some c" "map fst c = map pa_Key parameters" "normalize_loop (live_value decimal) c parameters = Inr values"
    using normalize_loop_canonical [OF dec live loop d] by blast
  have "normalize_loop (snapshot_value decimal) c parameters = Inr values"
    using normalize_loop_canonical [OF dec snapshot loop d] c(1) by auto
  moreover have "fst ` set c = pa_Key ` set parameters" using c(2) by (metis set_map)
  ultimately show ?thesis using valid c by (auto simp: NormalizeParameters_def NormalizeSnapshotParameters_def normalize_all_def)
qed

definition sample_decimal :: "string \<Rightarrow> string option" where
  "sample_decimal v = (if decimalPattern v then Some v else None)"

definition sample_request :: inputs where
  "sample_request = [(''at'', \<lparr>iv_Present = True, iv_Values = [''2024-02-29T08:15'']\<rparr>), (''n'', \<lparr>iv_Present = True, iv_Values = [''+07'']\<rparr>)]"

definition sample_form :: "Parameter list" where
  "sample_form = [sample_parameter ''at'' ParameterDatetime, (sample_parameter ''n'' ParameterInteger)\<lparr>pa_DisplayOrder := 2\<rparr>]"

theorem NormalizeParameters_canonical_witness:
  "\<exists>values canonical. NormalizeParameters sample_decimal sample_form sample_request = Inr values \<and>
     map_of values ''at'' = Some (scalar_value (AnyString ''2024-02-29 08:15:00'')) \<and>
     CanonicalInput values = Some canonical \<and> NormalizeSnapshotParameters sample_decimal sample_form canonical = Inr values"
proof -
  have "\<not> decimalPattern []" by code_simp
  then have "plain_decimals sample_decimal" by (auto simp: plain_decimals_def sample_decimal_def split: if_splits)
  moreover have norm: "NormalizeParameters sample_decimal sample_form sample_request =
    Inr [(''at'', scalar_value (AnyString ''2024-02-29 08:15:00'')), (''n'', scalar_value (AnyInt64 7))]" by code_simp
  ultimately obtain c where "CanonicalInput [(''at'', scalar_value (AnyString ''2024-02-29 08:15:00'')), (''n'', scalar_value (AnyInt64 7))] = Some c"
    "NormalizeSnapshotParameters sample_decimal sample_form c = Inr [(''at'', scalar_value (AnyString ''2024-02-29 08:15:00'')), (''n'', scalar_value (AnyInt64 7))]"
    using NormalizeParameters_canonical by blast
  with norm show ?thesis by (intro exI [of _ "[(''at'', scalar_value (AnyString ''2024-02-29 08:15:00'')), (''n'', scalar_value (AnyInt64 7))]"] exI [of _ c]) simp
qed

end
