(* ===== verification/Secret_Codes.thy ===== *)
theory Secret_Codes
  imports Report_Scanner Audit_Log
begin

text \<open>
  Tokens, secrets and one-time codes: \<^verbatim>\<open>src/internal/auth/token.go\<close>, \<^verbatim>\<open>src/internal/secretcrypto/crypto.go\<close> and
  \<^verbatim>\<open>src/internal/mfa/totp.go\<close>, with the text encodings of package \<open>encoding\<close> they use.

  Byte slices are strings. The outcome of a read of the system's random source is an argument. The primitives are
  arguments too: \<open>sha\<close> is SHA-256, \<open>hmac\<close> is HMAC-SHA-1 (key, then message), \<open>seal\<close> and \<open>unseal\<close> are AES-256-GCM under a key
  (nonce, text, additional data). Go's base32 decoder without padding takes the byte 0xFF for its padding character; that
  byte does not occur in a secret and is left out. Counters of 30 second windows are integers; they reach the 64 bits of the
  source after 10^11 years.

  Shown: encoded bytes are decoded again; a sealed secret opens under its own purpose and record only; a one-time code is accepted
  only for a window next to the current one that is later than the last one used, and the code of the current window is.
\<close>

section \<open>Text encodings\<close>

definition byte_bits :: "char \<Rightarrow> bool list" where
  "byte_bits c = map (\<lambda>k. odd ((of_char c :: nat) div 2 ^ k)) [7, 6, 5, 4, 3, 2, 1, 0]"

definition bits_value :: "bool list \<Rightarrow> nat" where
  "bits_value bs = foldl (\<lambda>n b. 2 * n + of_bool b) 0 bs"

text \<open>Groups of \<open>k\<close> bits; the last one is filled with zero bits.\<close>

function bit_groups :: "nat \<Rightarrow> bool list \<Rightarrow> bool list list" where
  "bit_groups k bs =
     (if k = 0 \<or> bs = [] then [] else take k (bs @ replicate k False) # bit_groups k (drop k bs))"
  by pat_completeness auto
termination by (relation "measure (\<lambda>(k, bs). length bs)") auto

declare bit_groups.simps [simp del]

definition base32_alphabet :: string where
  "base32_alphabet = ''ABCDEFGHIJKLMNOPQRSTUVWXYZ234567''"

definition base64_url_alphabet :: string where
  "base64_url_alphabet = ''ABCDEFGHIJKLMNOPQRSTUVWXYZabcdefghijklmnopqrstuvwxyz0123456789-_''"

definition encode_text :: "string \<Rightarrow> nat \<Rightarrow> string \<Rightarrow> string" where
  "encode_text alphabet k bytes = map (\<lambda>g. alphabet ! bits_value g) (bit_groups k (concat (map byte_bits bytes)))"

definition base32_encode :: "string \<Rightarrow> string" where "base32_encode = encode_text base32_alphabet 5"

definition base64_raw_url :: "string \<Rightarrow> string" where "base64_raw_url = encode_text base64_url_alphabet 6"

text \<open>Decoding by groups of eight characters. A short last group of 2, 4, 5 or 7 characters holds 1 to 4 bytes; one of 1, 3 or 6
  characters adds nothing.\<close>

definition base32_digit :: "char \<Rightarrow> nat option" where
  "base32_digit c =
     (if within (CHR ''A'') (CHR ''Z'') c then Some (of_char c - 65)
      else if within (CHR ''2'') (CHR ''7'') c then Some (of_char c - 24) else None)"

definition quintet :: "nat \<Rightarrow> bool list" where
  "quintet n = map (\<lambda>k. odd (n div 2 ^ k)) [4, 3, 2, 1, 0]"

definition quantum_bytes :: "nat list \<Rightarrow> string" where
  "quantum_bytes ns =
     (if length ns \<in> {2, 4, 5, 7, 8}
      then map (\<lambda>g. char_of (bits_value g)) (take (length ns * 5 div 8) (bit_groups 8 (concat (map quintet ns)))) else [])"

function quanta :: "nat list \<Rightarrow> string" where
  "quanta ns = (if ns = [] then [] else quantum_bytes (take 8 ns) @ quanta (drop 8 ns))"
  by pat_completeness auto
termination by (relation "measure length") auto

declare quanta.simps [simp del]

definition base32_decode :: "string \<Rightarrow> string option" where
  "base32_decode text0 =
     (let digits0 = map base32_digit (filter (\<lambda>c. c \<noteq> CHR 0x0A \<and> c \<noteq> CHR 0x0D) text0)
      in if None \<in> set digits0 then None else Some (quanta (map the digits0)))"

definition be64 :: "64 word \<Rightarrow> string" where
  "be64 w = map (\<lambda>k. char_of (unat w div 256 ^ k mod 256)) [7, 6, 5, 4, 3, 2, 1, 0]"

section \<open>Session tokens\<close>

definition TokenBytes :: nat where "TokenBytes = 32"

definition GenerateToken :: "string result \<Rightarrow> string result" where
  "GenerateToken random =
     (case random of Inl x \<Rightarrow> Inl x | Inr bytes \<Rightarrow> Inr (base64_raw_url (take TokenBytes bytes)))"

definition HashToken :: "(string \<Rightarrow> hash) \<Rightarrow> string \<Rightarrow> hash" where
  "HashToken sha token = sha token"

section \<open>Sealed secrets\<close>

datatype Purpose = PurposeReportingDatasourcePassword | PurposeFincloudAuthPassword | PurposeMFATOTPActive | PurposeMFATOTPPending
  | OtherPurpose string

fun purpose_text :: "Purpose \<Rightarrow> string" where
  "purpose_text PurposeReportingDatasourcePassword = ''reporting-datasource-password''"
| "purpose_text PurposeFincloudAuthPassword = ''fincloud-auth-profile-password''"
| "purpose_text PurposeMFATOTPActive = ''mfa-totp-active''"
| "purpose_text PurposeMFATOTPPending = ''mfa-totp-pending''"
| "purpose_text (OtherPurpose text0) = text0"

definition validPurpose :: "Purpose \<Rightarrow> bool" where
  "validPurpose purpose \<longleftrightarrow>
     purpose_text purpose \<in> purpose_text ` {PurposeReportingDatasourcePassword, PurposeFincloudAuthPassword, PurposeMFATOTPActive, PurposeMFATOTPPending}"

definition purposeAAD :: "Purpose \<Rightarrow> 64 word \<Rightarrow> string" where
  "purposeAAD purpose recordID = ''new-dwh-secret'' @ [CHR 0x00] @ purpose_text purpose @ [CHR 0x00] @ be64 recordID"

definition legacyReportingAAD :: "64 word \<Rightarrow> string" where
  "legacyReportingAAD recordID = be64 recordID"

definition nonce_size :: nat where "nonce_size = 12"

definition gcm_overhead :: nat where "gcm_overhead = 16"

text \<open>\<open>Cipher\<close> holds the key; the AEAD it makes from it never fails on a key of 32 bytes.\<close>

record Cipher =
  ci_seal :: "string \<Rightarrow> string \<Rightarrow> string \<Rightarrow> string"
  ci_open :: "string \<Rightarrow> string \<Rightarrow> string \<Rightarrow> string option"

definition Encrypt :: "Cipher \<Rightarrow> string result \<Rightarrow> Purpose \<Rightarrow> 64 word \<Rightarrow> string \<Rightarrow> string result" where
  "Encrypt c random purpose recordID plaintext =
     (if \<not> validPurpose purpose \<or> recordID = 0 then Inl (ErrMsg ''secret purpose and record ID are required'')
      else case random of
        Inl x \<Rightarrow> Inl x
      | Inr bytes \<Rightarrow>
          let nonce = take nonce_size bytes
          in Inr (CHR 0x02 # nonce @ ci_seal c nonce plaintext (purposeAAD purpose recordID)))"

definition Decrypt :: "Cipher \<Rightarrow> Purpose \<Rightarrow> 64 word \<Rightarrow> string \<Rightarrow> string result" where
  "Decrypt c purpose recordID encoded =
     (if \<not> validPurpose purpose \<or> recordID = 0 then Inl (ErrMsg ''secret purpose and record ID are required'')
      else if length encoded < 1 + nonce_size + gcm_overhead then Inl (ErrMsg ''unsupported secret envelope'')
      else let open_with = (\<lambda>aad.
          case ci_open c (take nonce_size (drop 1 encoded)) (drop (1 + nonce_size) encoded) aad of
            None \<Rightarrow> Inl (ErrMsg ''decrypt secret'')
          | Some plaintext \<Rightarrow> Inr plaintext)
        in if hd encoded = CHR 0x02 then open_with (purposeAAD purpose recordID)
           else if hd encoded = CHR 0x01 then
             (if purpose_text purpose \<noteq> purpose_text PurposeReportingDatasourcePassword then Inl (ErrMsg ''unsupported secret envelope'')
              else open_with (legacyReportingAAD recordID))
           else Inl (ErrMsg ''unsupported secret envelope''))"

section \<open>One-time codes\<close>

definition ChallengeLifetime :: time where "ChallengeLifetime = 5 * minute"

definition Freshness :: time where "Freshness = 10 * minute"

definition MaxFailures :: nat where "MaxFailures = 5"

definition Recent :: "time \<Rightarrow> time \<Rightarrow> bool" where
  "Recent verified now \<longleftrightarrow> verified \<noteq> go_zero_time \<and> verified \<le> now \<and> now - verified \<le> Freshness"

definition NewSecret :: "string result \<Rightarrow> string result" where
  "NewSecret random = (case random of Inl x \<Rightarrow> Inl x | Inr bytes \<Rightarrow> Inr (base32_encode (take 20 bytes)))"

definition be_uint32 :: "string \<Rightarrow> 32 word" where
  "be_uint32 bytes = of_nat (foldl (\<lambda>n c. 256 * n + of_char c) 0 (take 4 bytes))"

definition Code :: "(string \<Rightarrow> string \<Rightarrow> string) \<Rightarrow> string \<Rightarrow> int \<Rightarrow> string result" where
  "Code hmac secret counter =
     (case base32_decode secret of
        None \<Rightarrow> Inl (ErrMsg ''illegal base32 data'')
      | Some key \<Rightarrow>
          let digest = hmac key (be64 (word_of_int counter));
              offset = (of_char (last digest) :: nat) mod 16;
              code_value = unat (be_uint32 (drop offset digest)) mod 2 ^ 31
          in Inr (pad_string 6 (code_value mod 1000000)))"

text \<open>Integer division of the source truncates.\<close>

definition window :: "time \<Rightarrow> int" where
  "window now = (let s = now div second in if 0 \<le> s then s div 30 else - ((- s) div 30))"

fun match_loop :: "(string \<Rightarrow> string \<Rightarrow> string) \<Rightarrow> string \<Rightarrow> string \<Rightarrow> int \<Rightarrow> int list \<Rightarrow> int \<times> bool" where
  "match_loop hmac secret input last0 [] = (0, False)"
| "match_loop hmac secret input last0 (counter # counters) =
     (if Code hmac secret counter = Inr input then (counter, counter > last0)
      else match_loop hmac secret input last0 counters)"

definition Match :: "(string \<Rightarrow> string \<Rightarrow> string) \<Rightarrow> string \<Rightarrow> string \<Rightarrow> time \<Rightarrow> int \<Rightarrow> int \<times> bool" where
  "Match hmac secret input now last0 =
     (if length input \<noteq> 6 \<or> list_ex (\<lambda>ch. ch < 48 \<or> ch > 57) (decode_runes input) then (0, False)
      else let current = window now in match_loop hmac secret input last0 [current, current - 1, current + 1])"

definition recovery_text :: "string \<Rightarrow> string" where
  "recovery_text s = take 5 s @ ''-'' @ take 5 (drop 5 s) @ ''-'' @ take 5 (drop 10 s) @ ''-'' @ take 5 (drop 15 s) @ ''-'' @ drop 20 s"

fun recovery_loop :: "string result list \<Rightarrow> string list result" where
  "recovery_loop [] = Inr []"
| "recovery_loop (random # rest) =
     (case random of
        Inl x \<Rightarrow> Inl x
      | Inr bytes \<Rightarrow>
          (case recovery_loop rest of
             Inl x \<Rightarrow> Inl x
           | Inr codes \<Rightarrow> Inr (recovery_text (base32_encode (take 16 bytes)) # codes)))"

text \<open>\<open>random\<close> holds the outcomes of the ten reads.\<close>

definition NewRecoveryCodes :: "string result list \<Rightarrow> string list result" where
  "NewRecoveryCodes random = recovery_loop (take 10 random)"

definition RecoveryHash :: "(string \<Rightarrow> hash) \<Rightarrow> (rune \<Rightarrow> rune) \<Rightarrow> rowid \<Rightarrow> string \<Rightarrow> hash" where
  "RecoveryHash sha upper userID input =
     sha (''mfa-recovery:'' @ nat_string userID @ '':'' @ ToUpper upper (filter (\<lambda>c. c \<noteq> CHR ''-'') (TrimSpace input)))"

section \<open>Evaluation\<close>

text \<open>Evaluated forms: the bits of a character are its fields, and the bytes of a word are computed with integers.\<close>

lemma byte_bits_code [code]: "byte_bits (Char b0 b1 b2 b3 b4 b5 b6 b7) = [b7, b6, b5, b4, b3, b2, b1, b0]"
  by (simp add: byte_bits_def of_char_Char)

lemma be64_code [code]: "be64 w = map (\<lambda>k. char_of (uint w div 256 ^ k mod 256)) [7, 6, 5, 4, 3, 2, 1, 0]"
proof -
  have "(char_of (unat w div 256 ^ k mod 256) :: char) = char_of (uint w div 256 ^ k mod 256)" for k
  proof -
    have "uint w div 256 ^ k mod 256 = int (unat w div 256 ^ k mod 256)" by (simp add: zdiv_int zmod_int)
    then show ?thesis by (simp only: char_of_nat)
  qed
  then show ?thesis unfolding be64_def by presburger
qed

section \<open>Encoded bytes are decoded again\<close>

lemma bit_groups_step: "0 < k \<Longrightarrow> bs \<noteq> [] \<Longrightarrow> bit_groups k bs = take k (bs @ replicate k False) # bit_groups k (drop k bs)"
  by (subst bit_groups.simps) simp

lemma bit_groups_Nil [simp]: "bit_groups k [] = []"
  by (subst bit_groups.simps) simp

lemma bit_groups_append:
  assumes "length g = k" "0 < k"
  shows "bit_groups k (g @ bs) = g # bit_groups k bs"
proof -
  from assms have "g @ bs \<noteq> []" by auto
  from bit_groups_step [OF assms(2) this] assms show ?thesis by simp
qed

lemma bit_groups_concat:
  "(\<And>g. g \<in> set gs \<Longrightarrow> length g = k) \<Longrightarrow> 0 < k \<Longrightarrow> bit_groups k (concat gs @ bs) = gs @ bit_groups k bs"
  by (induction gs) (simp_all add: bit_groups_append)

lemma length_byte_bits [simp]: "length (byte_bits c) = 8"
  by (simp add: byte_bits_def)

lemma length_quintet [simp]: "length (quintet n) = 5"
  by (simp add: quintet_def)

lemma base32_digit_alphabet: "n < 32 \<Longrightarrow> base32_digit (base32_alphabet ! n) = Some n"
proof -
  have "\<forall>n \<in> set [0..<32]. base32_digit (base32_alphabet ! n) = Some n" by code_simp
  then show "n < 32 \<Longrightarrow> ?thesis" by simp
qed

lemma base32_alphabet_plain: "n < 32 \<Longrightarrow> base32_alphabet ! n \<noteq> CHR 0x0A \<and> base32_alphabet ! n \<noteq> CHR 0x0D"
proof -
  have "\<forall>n \<in> set [0..<32]. base32_alphabet ! n \<noteq> CHR 0x0A \<and> base32_alphabet ! n \<noteq> CHR 0x0D" by code_simp
  then show "n < 32 \<Longrightarrow> ?thesis" by simp
qed

lemma list5: "length g = 5 \<longleftrightarrow> (\<exists>a b c d e. g = [a, b, c, d, e])"
  by (auto simp: numeral_eq_Suc length_Suc_conv)

lemma quintet_bits_value: "length g = 5 \<Longrightarrow> bits_value g < 32 \<and> quintet (bits_value g) = g"
proof -
  have "\<forall>a b c d e. bits_value [a, b, c, d, e] < 32 \<and> quintet (bits_value [a, b, c, d, e]) = [a, b, c, d, e]"
    by code_simp
  then show "length g = 5 \<Longrightarrow> ?thesis" by (auto simp: list5)
qed

lemma bits_value_snoc: "bits_value (bs @ [b]) = 2 * bits_value bs + of_bool b"
  by (simp add: bits_value_def)

lemma bits_value_bits: "bits_value (map (\<lambda>k. odd (n div 2 ^ k)) (rev [0..<j])) = n mod 2 ^ j"
proof (induction j arbitrary: n)
  case (Suc j)
  have "[0..<Suc j] = 0 # map Suc [0..<j]" by (simp add: map_Suc_upt upt_conv_Cons del: upt_Suc)
  then have "bits_value (map (\<lambda>k. odd (n div 2 ^ k)) (rev [0..<Suc j])) =
      2 * bits_value (map (\<lambda>k. odd (n div 2 div 2 ^ k)) (rev [0..<j])) + of_bool (odd n)"
    by (simp add: rev_map bits_value_snoc comp_def div_mult2_eq del: upt_Suc)
  also have "\<dots> = n mod 2 ^ Suc j" by (simp add: Suc.IH mod_mult2_eq mod2_eq_if)
  finally show ?case .
qed (simp add: bits_value_def)

lemma byte_of_bits: "char_of (bits_value (byte_bits c)) = c"
proof -
  have "byte_bits c = map (\<lambda>k. odd ((of_char c :: nat) div 2 ^ k)) (rev [0..<8])"
  proof -
    have "rev [0..<8] = [7, 6, 5, 4, 3, 2, 1, 0 :: nat]" by code_simp
    then show ?thesis by (simp only: byte_bits_def)
  qed
  then show ?thesis by (simp add: bits_value_bits of_char_mod_256)
qed

text \<open>Five bytes are eight digits.\<close>

lemma length_bits: "length (concat (map byte_bits bytes)) = 8 * length bytes"
  by (induction bytes) simp_all

lemma bit_groups_length:
  "length bs = k * n \<Longrightarrow> 0 < k \<Longrightarrow> length (bit_groups k bs) = n \<and> (\<forall>g \<in> set (bit_groups k bs). length g = k) \<and> concat (bit_groups k bs) = bs"
proof (induction n arbitrary: bs)
  case (Suc n)
  then have "length (take k bs) = k" "length (drop k bs) = k * n" by simp_all
  with Suc.IH [OF this(2)] Suc.prems bit_groups_append [of "take k bs" k "drop k bs"] show ?case by simp
qed simp

lemma quantum_bytes_bits:
  assumes "length ns = 8" "concat (map quintet ns) = concat (map byte_bits bytes)" "length bytes = 5"
  shows "quantum_bytes ns = bytes"
proof -
  have "bit_groups 8 (concat (map byte_bits bytes)) = map byte_bits bytes"
    using bit_groups_concat [of "map byte_bits bytes" 8 "[]"] by fastforce
  then show ?thesis
    using assms by (simp add: quantum_bytes_def byte_of_bits map_idI)
qed

lemma quanta_bits:
  "length ns = 8 * k \<Longrightarrow> length bytes = 5 * k \<Longrightarrow> concat (map quintet ns) = concat (map byte_bits bytes) \<Longrightarrow> quanta ns = bytes"
proof (induction k arbitrary: ns bytes)
  case (Suc k)
  let ?n = "take 8 ns" and ?r = "drop 8 ns" and ?b = "take 5 bytes" and ?s = "drop 5 bytes"
  have len: "length (concat (map quintet ?n)) = 40" "length (concat (map byte_bits ?b)) = 40"
    using Suc.prems by (simp_all add: length_bits length_concat comp_def sum_list_triv)
  have "concat (map quintet ?n) @ concat (map quintet ?r) = concat (map byte_bits ?b) @ concat (map byte_bits ?s)"
    using Suc.prems(3) by (metis append_take_drop_id concat_append map_append)
  with len have "concat (map quintet ?n) = concat (map byte_bits ?b)" "concat (map quintet ?r) = concat (map byte_bits ?s)"
    by (simp_all add: append_eq_append_conv)
  with Suc.prems have "quantum_bytes ?n = ?b" "quanta ?r = ?s"
    by (auto intro: quantum_bytes_bits Suc.IH)
  moreover from Suc.prems have "ns \<noteq> []" by auto
  ultimately show ?case by (subst quanta.simps) simp
qed (simp add: quanta.simps)

lemma base32_roundtrip:
  assumes "length bytes = 5 * k"
  shows "base32_decode (base32_encode bytes) = Some bytes"
proof -
  let ?bits = "concat (map byte_bits bytes)" and ?ns = "map bits_value (bit_groups 5 (concat (map byte_bits bytes)))"
  from assms have "length ?bits = 5 * (8 * k)" by (simp add: length_bits)
  from bit_groups_length [OF this] have groups: "length (bit_groups 5 ?bits) = 8 * k"
      "\<And>g. g \<in> set (bit_groups 5 ?bits) \<Longrightarrow> length g = 5" "concat (bit_groups 5 ?bits) = ?bits" by auto
  have small: "n \<in> set ?ns \<Longrightarrow> n < 32" for n using groups(2) quintet_bits_value by auto
  have digits0: "map base32_digit (filter (\<lambda>c. c \<noteq> CHR 0x0A \<and> c \<noteq> CHR 0x0D) (map ((!) base32_alphabet) ns)) = map Some ns"
    if "\<forall>n \<in> set ns. n < 32" for ns
    using that by (induction ns) (auto simp: base32_digit_alphabet dest: base32_alphabet_plain)
  have encoded: "base32_encode bytes = map ((!) base32_alphabet) ?ns"
    by (simp add: base32_encode_def encode_text_def comp_def)
  have "map quintet ?ns = bit_groups 5 ?bits" using groups(2) by (simp add: map_idI quintet_bits_value)
  then have "concat (map quintet ?ns) = ?bits" using groups(3) by (simp only:)
  then have "quanta ?ns = bytes" by (intro quanta_bits [of _ k]) (use assms groups(1) in simp_all)
  moreover have "base32_decode (base32_encode bytes) = Some (quanta ?ns)"
    unfolding encoded base32_decode_def Let_def using digits0 [of ?ns] small by (auto simp: comp_def)
  ultimately show ?thesis by simp
qed

section \<open>Sealed secrets open under their own purpose and record only\<close>

lemma base_digits:
  "(\<And>k. k < n \<Longrightarrow> (a::nat) div b ^ k mod b = a' div b ^ k mod b) \<Longrightarrow> a mod b ^ n = a' mod b ^ n"
proof (induction n)
  case (Suc n)
  then have "a mod b ^ n = a' mod b ^ n" "a div b ^ n mod b = a' div b ^ n mod b" by simp_all
  then show ?case by (simp add: mod_mult2_eq mult.commute [of b])
qed simp

lemma char_of_mod_inject: "(char_of (x mod 256) :: char) = char_of (y mod 256) \<Longrightarrow> x mod 256 = (y mod 256 :: nat)"
  by (drule arg_cong [of _ _ "of_char :: char \<Rightarrow> nat"]) (simp only: of_char_of mod_mod_trivial)

lemma char_of_small_inject: "(char_of x :: char) = char_of y \<Longrightarrow> x < 256 \<Longrightarrow> y < 256 \<Longrightarrow> x = (y :: nat)"
  using char_of_mod_inject [of x y] by simp

lemma be64_inject: "be64 v = be64 w \<Longrightarrow> v = w"
proof -
  assume eq: "be64 v = be64 w"
  have "unat v mod 256 ^ 8 = unat w mod 256 ^ 8"
  proof (rule base_digits)
    fix k :: nat assume "k < 8"
    then have "k \<in> set [7, 6, 5, 4, 3, 2, 1, 0]" by auto
    with eq have "(char_of (unat v div 256 ^ k mod 256) :: char) = char_of (unat w div 256 ^ k mod 256)"
      unfolding be64_def map_eq_conv by blast
    then show "unat v div 256 ^ k mod 256 = unat w div 256 ^ k mod 256" by (rule char_of_mod_inject)
  qed
  moreover have "unat x < 256 ^ 8" for x :: "64 word" using unsigned_less [of x] by simp
  ultimately show "v = w" by (simp add: word_unat_eq_iff)
qed

lemma length_be64 [simp]: "length (be64 w) = 8"
  by (simp add: be64_def)

lemma purposeAAD_inject:
  "purposeAAD p i = purposeAAD q j \<longleftrightarrow> purpose_text p = purpose_text q \<and> i = j"
proof
  assume "purposeAAD p i = purposeAAD q j"
  then have "(purpose_text p @ [CHR 0x00]) @ be64 i = (purpose_text q @ [CHR 0x00]) @ be64 j" by (simp add: purposeAAD_def)
  then have "purpose_text p = purpose_text q \<and> be64 i = be64 j" by (subst (asm) append_eq_append_conv) simp_all
  then show "purpose_text p = purpose_text q \<and> i = j" by (simp add: be64_inject)
qed (simp add: purposeAAD_def)

text \<open>What AES-GCM documents, for the additional data this program uses: the sealed text has 16 more bytes and opens with the
  data it was sealed with; with other data it is refused.\<close>

definition authenticated_encryption :: "Cipher \<Rightarrow> bool" where
  "authenticated_encryption c \<longleftrightarrow>
     (\<forall>nonce plaintext p i q j. validPurpose p \<and> validPurpose q \<longrightarrow>
        length (ci_seal c nonce plaintext (purposeAAD p i)) = length plaintext + gcm_overhead \<and>
        ci_open c nonce (ci_seal c nonce plaintext (purposeAAD p i)) (purposeAAD q j) =
          (if purposeAAD q j = purposeAAD p i then Some plaintext else None))"

lemma authenticated_encryptionD:
  assumes "authenticated_encryption c" "validPurpose p"
  shows "length (ci_seal c nonce plaintext (purposeAAD p i)) = length plaintext + gcm_overhead"
    "validPurpose q \<Longrightarrow> ci_open c nonce (ci_seal c nonce plaintext (purposeAAD p i)) (purposeAAD q j) =
          (if purposeAAD q j = purposeAAD p i then Some plaintext else None)"
  using assms unfolding authenticated_encryption_def by blast+

lemma Encrypt_Inr:
  assumes "Encrypt c (Inr nonce) purpose recordID plaintext = Inr encoded" "length nonce = nonce_size"
  shows "encoded = CHR 0x02 # nonce @ ci_seal c nonce plaintext (purposeAAD purpose recordID)" "validPurpose purpose" "recordID \<noteq> 0"
  using assms by (auto simp: Encrypt_def Let_def split: if_splits)

text \<open>
  C21. A secret sealed for a purpose and a record can be read back, and only for the same purpose and the same record: a
  pending secret moved to another challenge, to another user or into the column of active secrets is refused.
\<close>

theorem sealed_secret_bound:
  assumes "authenticated_encryption c" and "length nonce = nonce_size"
    and "Encrypt c (Inr nonce) purpose recordID plaintext = Inr encoded"
  shows "Decrypt c purpose' recordID' encoded = Inr text0 \<longleftrightarrow>
     purpose_text purpose' = purpose_text purpose \<and> recordID' = recordID \<and> text0 = plaintext"
proof -
  note enc = Encrypt_Inr [OF assms(3,2)]
  let ?sealed = "ci_seal c nonce plaintext (purposeAAD purpose recordID)"
  note law = authenticated_encryptionD [OF assms(1) enc(2)]
  have "Decrypt c purpose' recordID' encoded = Inr text0 \<longleftrightarrow>
      validPurpose purpose' \<and> recordID' \<noteq> 0 \<and> ci_open c nonce ?sealed (purposeAAD purpose' recordID') = Some text0"
    using law(1) assms(2) unfolding Decrypt_def enc(1) Let_def by (simp split: option.splits)
  also have "\<dots> \<longleftrightarrow> validPurpose purpose' \<and> recordID' \<noteq> 0 \<and> purposeAAD purpose' recordID' = purposeAAD purpose recordID \<and> text0 = plaintext"
    using law(2) [of purpose' nonce plaintext recordID recordID'] by (auto split: if_splits)
  also have "\<dots> \<longleftrightarrow> purpose_text purpose' = purpose_text purpose \<and> recordID' = recordID \<and> text0 = plaintext"
    using enc(2,3) by (auto simp: purposeAAD_inject validPurpose_def)
  finally show ?thesis .
qed

text \<open>A cipher with the documented behaviour: the tag holds the length and the last bytes of the additional data.\<close>

definition sample_tag :: "string \<Rightarrow> string" where
  "sample_tag aad = char_of (length aad) # replicate 7 (CHR ''t'') @ drop (length aad - 8) aad"

definition sample_cipher :: Cipher where
  "sample_cipher =
     \<lparr>ci_seal = (\<lambda>nonce plaintext aad. plaintext @ sample_tag aad),
      ci_open = (\<lambda>nonce sealed aad. let n = length sealed - 16 in if drop n sealed = sample_tag aad then Some (take n sealed) else None)\<rparr>"

lemma purpose_text_length:
  "validPurpose p \<Longrightarrow> validPurpose q \<Longrightarrow> length (purpose_text p) = length (purpose_text q) \<Longrightarrow> purpose_text p = purpose_text q"
  by (auto simp: validPurpose_def)

lemma validPurpose_length: "validPurpose p \<Longrightarrow> length (purpose_text p) \<le> 30"
  by (auto simp: validPurpose_def)

lemma sample_tag_inject:
  assumes "validPurpose p" "validPurpose q" "sample_tag (purposeAAD p i) = sample_tag (purposeAAD q j)"
  shows "purposeAAD p i = purposeAAD q j"
proof -
  have tail: "drop (length (purposeAAD p i) - 8) (purposeAAD p i) = be64 i" for p i
  proof -
    obtain xs where "purposeAAD p i = xs @ be64 i" by (metis append.assoc purposeAAD_def)
    then show ?thesis by simp
  qed
  have len: "length (purposeAAD p i) = length (purpose_text p) + 24" for p i by (simp add: purposeAAD_def)
  have tag: "sample_tag (purposeAAD p i) = char_of (length (purpose_text p) + 24) # replicate 7 (CHR ''t'') @ be64 i" for p i
    unfolding sample_tag_def tail by (simp only: len)
  from assms(3) have "be64 i = be64 j" and head: "char_of (length (purpose_text p) + 24) = (char_of (length (purpose_text q) + 24) :: char)"
    unfolding tag by (simp_all only: list.inject same_append_eq)
  moreover from head have "length (purpose_text p) + 24 = length (purpose_text q) + 24"
    using validPurpose_length [OF assms(1)] validPurpose_length [OF assms(2)]
    by (intro char_of_small_inject) linarith+
  ultimately show ?thesis
    unfolding purposeAAD_inject using purpose_text_length [OF assms(1,2)] be64_inject by simp
qed

lemma length_sample_tag: "length (sample_tag (purposeAAD p i)) = 16"
  by (simp add: sample_tag_def purposeAAD_def)

lemma sample_cipher_authenticated: "authenticated_encryption sample_cipher"
  by (auto simp: authenticated_encryption_def sample_cipher_def length_sample_tag gcm_overhead_def Let_def dest: sample_tag_inject)

theorem sealed_secret_bound_witness:
  "\<exists>encoded. Encrypt sample_cipher (Inr ''123456789012'') PurposeMFATOTPPending 7 ''secret'' = Inr encoded \<and>
     Decrypt sample_cipher PurposeMFATOTPPending 7 encoded = Inr ''secret'' \<and>
     Decrypt sample_cipher PurposeMFATOTPActive 7 encoded \<noteq> Inr ''secret'' \<and>
     Decrypt sample_cipher PurposeMFATOTPPending 8 encoded \<noteq> Inr ''secret''"
proof -
  let ?n = "''123456789012''"
  obtain encoded where enc: "Encrypt sample_cipher (Inr ?n) PurposeMFATOTPPending 7 ''secret'' = Inr encoded"
    by (simp add: Encrypt_def validPurpose_def Let_def)
  have "length ?n = nonce_size" by (simp add: nonce_size_def)
  note bound = sealed_secret_bound [OF sample_cipher_authenticated this enc]
  show ?thesis by (rule exI [of _ encoded]) (simp add: enc bound)
qed

section \<open>One-time codes\<close>

lemma decode_runes_ascii: "list_all (\<lambda>c. (of_char c :: nat) < 128) s \<Longrightarrow> decode_runes s = map of_char s"
proof -
  have "\<forall>b \<in> set bs. b < 128 \<Longrightarrow> decode_bytes bs = bs" for bs
    by (induction bs) (simp_all add: decode_rune_def)
  then show "list_all (\<lambda>c. (of_char c :: nat) < 128) s \<Longrightarrow> ?thesis" by (auto simp: decode_runes_def list_all_iff)
qed

lemma decode_runes_digits: "list_all is_digit s \<Longrightarrow> \<not> list_ex (\<lambda>ch. ch < 48 \<or> ch > 57) (decode_runes s)"
  by (subst decode_runes_ascii) (auto simp: list_all_iff list_ex_iff is_digit_def)

lemma Code_digits:
  assumes "Code hmac secret counter = Inr c"
  shows "length c = 6 \<and> list_all is_digit c"
proof -
  from assms obtain v where "c = pad_string 6 (v mod 1000000)" by (auto simp: Code_def Let_def split: option.splits)
  then have "c = digits 6 (v mod 1000000)" by (simp add: pad_string_digits)
  then show ?thesis by (auto simp: list_all_iff dest: digits_all)
qed

lemma match_loop_True:
  "match_loop hmac secret input last0 counters = (counter, True) \<Longrightarrow>
     counter \<in> set counters \<and> last0 < counter \<and> Code hmac secret counter = Inr input"
  by (induction counters) (auto split: if_splits)

lemma Match_True:
  assumes "Match hmac secret input now last0 = (counter, True)"
  shows "last0 < counter" "\<bar>counter - window now\<bar> \<le> 1" "Code hmac secret counter = Inr input"
  using assms by (auto simp: Match_def Let_def split: if_splits dest: match_loop_True)

text \<open>
  C22. One-time codes. The code of the current 30 second window of a generated secret is accepted exactly if that window is later than
  the last one used. Whatever is accepted is six digits, the code of a window at most one away from the current one and
  later than the last one used; so once its window is recorded as the last one, the same window is never accepted again.
\<close>

theorem Match_window:
  assumes "NewSecret (Inr bytes) = Inr secret" and "length bytes = 20"
  shows "(\<exists>code. Code hmac secret (window now) = Inr code \<and> Match hmac secret code now last0 = (window now, last0 < window now)) \<and>
     (Match hmac secret input now last0 = (counter, True) \<longrightarrow>
        last0 < counter \<and> \<bar>counter - window now\<bar> \<le> 1 \<and> Code hmac secret counter = Inr input \<and> length input = 6 \<and> list_all is_digit input \<and>
        (\<forall>later last1. counter \<le> last1 \<longrightarrow> Match hmac secret input later last1 \<noteq> (counter, True)))"
proof (intro conjI impI)
  from assms have "base32_decode secret = Some bytes" by (auto simp: NewSecret_def intro: base32_roundtrip [of _ 4])
  then obtain code where code: "Code hmac secret (window now) = Inr code" by (simp add: Code_def Let_def)
  from Code_digits [OF this] decode_runes_digits [of code]
  have "Match hmac secret code now last0 = (window now, last0 < window now)" by (simp add: Match_def Let_def code)
  with code show "\<exists>code. Code hmac secret (window now) = Inr code \<and> Match hmac secret code now last0 = (window now, last0 < window now)"
    by blast
next
  assume m: "Match hmac secret input now last0 = (counter, True)"
  note m' = Match_True [OF m]
  show "last0 < counter" "\<bar>counter - window now\<bar> \<le> 1" "Code hmac secret counter = Inr input" by (fact m')+
  from Code_digits [OF m'(3)] show "length input = 6" "list_all is_digit input" by simp_all
  show "\<forall>later last1. counter \<le> last1 \<longrightarrow> Match hmac secret input later last1 \<noteq> (counter, True)"
    using Match_True(1) [of hmac secret input _ _ counter] by force
qed

definition sample_hmac :: "string \<Rightarrow> string \<Rightarrow> string" where
  "sample_hmac key message = replicate 12 (CHR 0x00) @ message"

theorem Match_window_witness:
  "\<exists>secret code. NewSecret (Inr (replicate 20 (CHR ''k''))) = Inr secret \<and>
     Match sample_hmac secret code 3600000000 119 = (120, True) \<and> Match sample_hmac secret code 3600000000 120 \<noteq> (120, True)"
proof -
  obtain secret where new: "NewSecret (Inr (replicate 20 (CHR ''k''))) = Inr secret" unfolding NewSecret_def by simp
  have w: "window 3600000000 = 120" by (simp add: window_def)
  have len: "length (replicate 20 (CHR ''k'')) = 20" by (rule length_replicate)
  obtain code where "Code sample_hmac secret 120 = Inr code" "Match sample_hmac secret code 3600000000 119 = (120, True)"
    using conjunct1 [OF Match_window [OF new len, of sample_hmac 3600000000 119]] unfolding w by auto
  moreover from this(2) have "Match sample_hmac secret code 3600000000 120 \<noteq> (120, True)"
    using conjunct2 [OF Match_window [OF new len, of sample_hmac 3600000000 119 code 120]] by blast
  ultimately show ?thesis using new by blast
qed

end
