(* ===== verification/Mfa_Store.thy ===== *)
theory Mfa_Store
  imports Secret_Codes
begin

text \<open>
  Browser sessions and the second factor: \<^verbatim>\<open>src/internal/auth/repository.go\<close> and \<^verbatim>\<open>src/internal/mfa/store.go\<close>, on the tables of
  \<^verbatim>\<open>src/migrations\<close> with their keys, checks and foreign keys. A login or an authenticated request begins a challenge; verifying
  the challenge with a one-time code or a recovery code creates or refreshes a session, replaces the secret or the recovery
  codes; five wrong answers exhaust a challenge; a reset removes everything a user has.

  \<open>Store\<close> holds what the Go struct holds, the primitives of \<open>Secret_Codes\<close> and the table of \<open>unicode.ToUpper\<close>; \<open>draws\<close> are the outcomes
  of the reads of the random source during one call, at most one of each kind. \<open>next_challenge\<close> and \<open>next_session\<close> are the next values
  of the AUTO_INCREMENT columns, because rows of these tables are deleted. Rows of users are never deleted. Deleting a session
  deletes its challenges (ON DELETE CASCADE).
\<close>

section \<open>Tables\<close>

definition Login :: string where "Login = ''login''"

definition Enrollment :: string where "Enrollment = ''enrollment''"

definition StepUp :: string where "StepUp = ''step_up''"

definition Rotation :: string where "Rotation = ''rotation''"

definition RotateAuthorize :: string where "RotateAuthorize = ''rotate_authorize''"

definition Regenerate :: string where "Regenerate = ''regenerate''"

lemmas purpose_defs = Login_def Enrollment_def StepUp_def Rotation_def RotateAuthorize_def Regenerate_def

record user_row =
  u_id :: rowid
  u_username :: string
  u_password_hash :: string
  u_role :: rowid
  u_active :: bool
  u_last_login :: "time option"

record Session =
  se_ID :: rowid
  se_UserID :: rowid
  se_ImpersonatedUserID :: "rowid option"
  se_TokenHash :: hash
  se_RememberMe :: bool
  se_ExpiresAt :: time
  se_LastSeenAt :: time
  se_MFAVerifiedAt :: time
  se_CreatedAt :: time
  se_UpdatedAt :: time

record enrollment_row =
  en_user :: rowid
  en_secret :: string
  en_last :: int
  en_enrolled_at :: time
  en_updated_at :: time

record recovery_row =
  rc_user :: rowid
  rc_hash :: hash
  rc_used_at :: "time option"
  rc_created_at :: time

record Challenge =
  ch_ID :: rowid
  ch_TokenHash :: hash
  ch_UserID :: rowid
  ch_SessionID :: "rowid option"
  ch_Purpose :: string
  ch_PendingSecret :: "string option"
  ch_RememberMe :: bool
  ch_Next :: string
  ch_Failures :: nat
  ch_ExpiresAt :: time
  ch_ConsumedAt :: "time option"
  ch_CreatedAt :: time

record mfa_db = audit_db +
  users :: "user_row list"
  sessions :: "Session list"
  next_session :: rowid
  enrollments :: "enrollment_row list"
  recovery_codes :: "recovery_row list"
  challenges :: "Challenge list"
  next_challenge :: rowid
  role_slugs :: "(rowid \<times> string) list"
  role_grants :: "(rowid \<times> string) list"

text \<open>\<open>role_grants\<close> is \<open>role_permissions\<close> joined with the keys of \<open>permissions\<close>.\<close>

section \<open>Statements\<close>

definition get_row :: "('r \<Rightarrow> bool) \<Rightarrow> 'r list \<Rightarrow> 'r result" where
  "get_row P rows = (case find P rows of None \<Rightarrow> Inl ErrNoRows | Some r \<Rightarrow> Inr r)"

definition challenge_ok :: "Challenge \<Rightarrow> bool" where
  "challenge_ok c \<longleftrightarrow> ch_Failures c \<le> 5 \<and>
     ch_Purpose c \<in> set [''login'', ''enrollment'', ''step_up'', ''rotation'', ''rotate_authorize'', ''regenerate'']"

definition write_challenges :: "Challenge list \<Rightarrow> 'a mfa_db_scheme \<Rightarrow> ('a mfa_db_scheme) result" where
  "write_challenges rows d =
     (if \<not> distinct (map ch_TokenHash rows) then Inl (ErrMySQL 1062)
      else if \<not> list_all challenge_ok rows then Inl (ErrMySQL 3819)
      else Inr (d\<lparr>challenges := rows\<rparr>))"

definition insert_challenge :: "Challenge \<Rightarrow> ('a mfa_db_scheme, rowid) op" where
  "insert_challenge row = stmt (\<lambda>t d.
     if ch_UserID row \<notin> set (map u_id (users d)) \<or>
        (case ch_SessionID row of None \<Rightarrow> False | Some s \<Rightarrow> s \<notin> set (map se_ID (sessions d)))
     then Inl (ErrMySQL 1452)
     else case write_challenges (challenges d @ [row\<lparr>ch_ID := next_challenge d\<rparr>]) d of
       Inl x \<Rightarrow> Inl x
     | Inr d' \<Rightarrow> Inr (next_challenge d, d'\<lparr>next_challenge := Suc (next_challenge d)\<rparr>))"

definition update_challenges :: "(Challenge \<Rightarrow> bool) \<Rightarrow> (Challenge \<Rightarrow> Challenge) \<Rightarrow> ('a mfa_db_scheme, unit) op" where
  "update_challenges P f = stmt (\<lambda>t d.
     case write_challenges (sql_update P f (challenges d)) d of Inl x \<Rightarrow> Inl x | Inr d' \<Rightarrow> Inr ((), d'))"

definition delete_challenges :: "(Challenge \<Rightarrow> bool) \<Rightarrow> ('a mfa_db_scheme, unit) op" where
  "delete_challenges P = stmt (\<lambda>t d. Inr ((), d\<lparr>challenges := filter (\<lambda>c. \<not> P c) (challenges d)\<rparr>))"

definition delete_sessions :: "(Session \<Rightarrow> bool) \<Rightarrow> ('a mfa_db_scheme, nat) op" where
  "delete_sessions P = stmt (\<lambda>t d.
     let gone = map se_ID (filter P (sessions d))
     in Inr (length gone, d\<lparr>sessions := filter (\<lambda>s. \<not> P s) (sessions d),
       challenges := filter (\<lambda>c. case ch_SessionID c of None \<Rightarrow> True | Some s \<Rightarrow> s \<notin> set gone) (challenges d)\<rparr>))"

definition update_sessions :: "(Session \<Rightarrow> bool) \<Rightarrow> (Session \<Rightarrow> Session) \<Rightarrow> ('a mfa_db_scheme, unit) op" where
  "update_sessions P f = stmt (\<lambda>t d. Inr ((), d\<lparr>sessions := sql_update P f (sessions d)\<rparr>))"

definition insert_session :: "Session \<Rightarrow> ('a mfa_db_scheme, rowid) op" where
  "insert_session row = stmt (\<lambda>t d.
     if se_UserID row \<notin> set (map u_id (users d)) then Inl (ErrMySQL 1452)
     else if se_TokenHash row \<in> set (map se_TokenHash (sessions d)) then Inl (ErrMySQL 1062)
     else Inr (next_session d, d\<lparr>sessions := sessions d @ [row\<lparr>se_ID := next_session d\<rparr>], next_session := Suc (next_session d)\<rparr>))"

definition insert_enrollment :: "enrollment_row \<Rightarrow> ('a mfa_db_scheme, unit) op" where
  "insert_enrollment row = stmt (\<lambda>t d.
     if en_user row \<notin> set (map u_id (users d)) then Inl (ErrMySQL 1452)
     else if en_user row \<in> set (map en_user (enrollments d)) then Inl (ErrMySQL 1062)
     else Inr ((), d\<lparr>enrollments := enrollments d @ [row]\<rparr>))"

definition update_enrollments :: "rowid \<Rightarrow> (enrollment_row \<Rightarrow> enrollment_row) \<Rightarrow> ('a mfa_db_scheme, unit) op" where
  "update_enrollments user f = stmt (\<lambda>t d.
     Inr ((), d\<lparr>enrollments := sql_update (\<lambda>r. en_user r = user) f (enrollments d)\<rparr>))"

definition delete_enrollments :: "rowid \<Rightarrow> ('a mfa_db_scheme, unit) op" where
  "delete_enrollments user = stmt (\<lambda>t d. Inr ((), d\<lparr>enrollments := filter (\<lambda>r. en_user r \<noteq> user) (enrollments d)\<rparr>))"

definition insert_recovery :: "recovery_row \<Rightarrow> ('a mfa_db_scheme, unit) op" where
  "insert_recovery row = stmt (\<lambda>t d.
     if rc_user row \<notin> set (map u_id (users d)) then Inl (ErrMySQL 1452)
     else if (rc_user row, rc_hash row) \<in> set (map (\<lambda>r. (rc_user r, rc_hash r)) (recovery_codes d)) then Inl (ErrMySQL 1062)
     else Inr ((), d\<lparr>recovery_codes := recovery_codes d @ [row]\<rparr>))"

definition update_recovery :: "(recovery_row \<Rightarrow> bool) \<Rightarrow> (recovery_row \<Rightarrow> recovery_row) \<Rightarrow> ('a mfa_db_scheme, unit) op" where
  "update_recovery P f = stmt (\<lambda>t d. Inr ((), d\<lparr>recovery_codes := sql_update P f (recovery_codes d)\<rparr>))"

definition delete_recovery :: "rowid \<Rightarrow> ('a mfa_db_scheme, unit) op" where
  "delete_recovery user = stmt (\<lambda>t d. Inr ((), d\<lparr>recovery_codes := filter (\<lambda>r. rc_user r \<noteq> user) (recovery_codes d)\<rparr>))"

definition set_last_login :: "rowid \<Rightarrow> time \<Rightarrow> ('a mfa_db_scheme, unit) op" where
  "set_last_login user now = stmt (\<lambda>t d.
     Inr ((), d\<lparr>users := sql_update (\<lambda>u. u_id u = user) (\<lambda>u. u\<lparr>u_last_login := Some now\<rparr>) (users d)\<rparr>))"

section \<open>Sessions\<close>

record CreateSessionParams =
  sp_UserID :: rowid
  sp_TokenHash :: hash
  sp_RememberMe :: bool
  sp_ExpiresAt :: time
  sp_LastSeenAt :: time
  sp_MFAVerifiedAt :: time

definition CreateSessionIn :: "CreateSessionParams \<Rightarrow> time \<Rightarrow> ('a mfa_db_scheme, Session) op" where
  "CreateSessionIn params now =
     (if sp_MFAVerifiedAt params = go_zero_time then fail_op (ErrMsg ''session requires verified MFA'')
      else if sp_UserID params = 0 then fail_op (ErrMsg ''user ID must not be zero'')
      else if sp_TokenHash params = replicate 32 (CHR 0x00) then fail_op (ErrMsg ''token hash must not be empty'')
      else if sp_LastSeenAt params = go_zero_time then fail_op (ErrMsg ''session last seen time must not be zero'')
      else if \<not> sp_ExpiresAt params > now then fail_op (ErrMsg ''session expiry must be after creation time'')
      else let session = \<lparr>se_ID = 0, se_UserID = sp_UserID params, se_ImpersonatedUserID = None, se_TokenHash = sp_TokenHash params,
             se_RememberMe = sp_RememberMe params, se_ExpiresAt = sp_ExpiresAt params, se_LastSeenAt = sp_LastSeenAt params,
             se_MFAVerifiedAt = sp_MFAVerifiedAt params, se_CreatedAt = now, se_UpdatedAt = now\<rparr>
        in bind_op (insert_session session) (\<lambda>i. ret_op (session\<lparr>se_ID := i\<rparr>)))"

definition SessionRepository_Create :: "CreateSessionParams \<Rightarrow> time \<Rightarrow> ('a mfa_db_scheme, Session) op" where
  "SessionRepository_Create params now = CreateSessionIn params now"

definition FindValidSession :: "hash \<Rightarrow> time \<Rightarrow> ('a mfa_db_scheme, Session) op" where
  "FindValidSession tokenHash now =
     bind_op (try_op (query (\<lambda>t d. get_row (\<lambda>s. se_TokenHash s = tokenHash \<and> se_ExpiresAt s > now) (sessions d)))) (\<lambda>r.
     case r of
       Inl x \<Rightarrow> fail_op (if x = ErrNoRows then ErrSessionNotFound else x)
     | Inr row \<Rightarrow> if length (se_TokenHash row) \<noteq> 32 then fail_op (ErrMsg ''find valid session: token hash has length'') else ret_op row)"

definition FindValidByTokenHash :: "hash \<Rightarrow> time \<Rightarrow> ('a mfa_db_scheme, Session) op" where
  "FindValidByTokenHash tokenHash now = FindValidSession tokenHash now"

definition UpdateLastSeenAt :: "rowid \<Rightarrow> time \<Rightarrow> ('a mfa_db_scheme, unit) op" where
  "UpdateLastSeenAt i now = update_sessions (\<lambda>s. se_ID s = i) (\<lambda>s. s\<lparr>se_LastSeenAt := now, se_UpdatedAt := now\<rparr>)"

definition Revoke :: "hash \<Rightarrow> ('a mfa_db_scheme, unit) op" where
  "Revoke tokenHash = bind_op (delete_sessions (\<lambda>s. se_TokenHash s = tokenHash)) (\<lambda>_. ret_op ())"

definition RevokeAllForUser :: "rowid \<Rightarrow> ('a mfa_db_scheme, unit) op" where
  "RevokeAllForUser userID = bind_op (delete_sessions (\<lambda>s. se_UserID s = userID)) (\<lambda>_. ret_op ())"

definition DeleteExpired :: "time \<Rightarrow> ('a mfa_db_scheme, nat) op" where
  "DeleteExpired now =
     bind_op (delete_challenges (\<lambda>c. ch_ExpiresAt c \<le> now)) (\<lambda>_. delete_sessions (\<lambda>s. se_ExpiresAt s \<le> now))"

section \<open>Challenges\<close>

record Store =
  st_Cipher :: Cipher
  st_Lifetime :: time
  st_RememberLifetime :: time
  st_IdleTimeout :: time
  st_clock :: "(time \<Rightarrow> time) option"
  st_sha :: "string \<Rightarrow> hash"
  st_hmac :: "string \<Rightarrow> string \<Rightarrow> string"
  st_upper :: "rune \<Rightarrow> rune"

record draws =
  dr_token :: "string result"
  dr_secret :: "string result"
  dr_nonce :: "string result"
  dr_codes :: "string result list"

record Issued =
  is_Token :: string
  is_Challenge :: Challenge

definition currentTime :: "Store \<Rightarrow> time \<Rightarrow> ('a mfa_db_scheme, time) op" where
  "currentTime st input = (case st_clock st of None \<Rightarrow> go_now | Some f \<Rightarrow> ret_op (f input))"

definition lockUser :: "rowid \<Rightarrow> ('a mfa_db_scheme, user_row) op" where
  "lockUser i = query (\<lambda>t d. get_row (\<lambda>u. u_id u = i) (users d))"

definition carries_secret :: "string \<Rightarrow> bool" where
  "carries_secret purpose \<longleftrightarrow> purpose = Enrollment \<or> purpose = Rotation"

definition new_challenge :: "rowid \<Rightarrow> rowid \<Rightarrow> string \<Rightarrow> bool \<Rightarrow> string \<Rightarrow> time \<Rightarrow> Challenge" where
  "new_challenge user sessionID purpose remember nextPath now =
     \<lparr>ch_ID = 0, ch_TokenHash = [], ch_UserID = user, ch_SessionID = (if sessionID \<noteq> 0 then Some sessionID else None),
      ch_Purpose = purpose, ch_PendingSecret = None, ch_RememberMe = remember, ch_Next = nextPath, ch_Failures = 0,
      ch_ExpiresAt = now + ChallengeLifetime, ch_ConsumedAt = None, ch_CreatedAt = now\<rparr>"

definition issue :: "Store \<Rightarrow> draws \<Rightarrow> rowid \<Rightarrow> rowid \<Rightarrow> string \<Rightarrow> bool \<Rightarrow> string \<Rightarrow> time \<Rightarrow> ('a mfa_db_scheme, Issued) op" where
  "issue st dr user sessionID purpose remember nextPath now =
     bind_op (lift_op (GenerateToken (dr_token dr))) (\<lambda>token.
     let fresh = new_challenge user sessionID purpose remember nextPath now
     in bind_op (insert_challenge (fresh\<lparr>ch_TokenHash := HashToken (st_sha st) token\<rparr>)) (\<lambda>newID.
        let challenge = fresh\<lparr>ch_ID := newID\<rparr>
        in if carries_secret purpose then
             bind_op (lift_op (NewSecret (dr_secret dr))) (\<lambda>secret.
             bind_op (lift_op (Encrypt (st_Cipher st) (dr_nonce dr) PurposeMFATOTPPending (of_nat newID) secret)) (\<lambda>encoded.
             bind_op (update_challenges (\<lambda>c. ch_ID c = newID) (\<lambda>c. c\<lparr>ch_PendingSecret := Some encoded\<rparr>)) (\<lambda>_.
             ret_op \<lparr>is_Token = token, is_Challenge = challenge\<lparr>ch_PendingSecret := Some encoded\<rparr>\<rparr>)))
           else ret_op \<lparr>is_Token = token, is_Challenge = challenge\<rparr>))"

definition BeginLogin :: "Store \<Rightarrow> draws \<Rightarrow> rowid \<Rightarrow> string \<Rightarrow> bool \<Rightarrow> string \<Rightarrow> time \<Rightarrow> ('a mfa_db_scheme, Issued) op" where
  "BeginLogin st dr user passwordHash remember nextPath now0 = tx_attempt (
     bind_op (lockUser user) (\<lambda>u.
     if \<not> u_active u \<or> u_password_hash u \<noteq> passwordHash then fail_op ErrMFAInvalid
     else bind_op (query (\<lambda>t d. Inr (sql_count (\<lambda>r. en_user r = user) (enrollments d)))) (\<lambda>count.
          bind_op (currentTime st now0) (\<lambda>now.
          bind_op (delete_challenges (\<lambda>c. ch_UserID c = user \<and> ch_SessionID c = None)) (\<lambda>_.
          issue st dr user 0 (if count = 0 then Enrollment else Login) remember nextPath now)))))"

definition mfa_Get :: "Store \<Rightarrow> string \<Rightarrow> time \<Rightarrow> ('a mfa_db_scheme, Challenge) op" where
  "mfa_Get st token now =
     bind_op (try_op (query (\<lambda>t d. get_row (\<lambda>c. ch_TokenHash c = HashToken (st_sha st) token \<and> ch_ConsumedAt c = None \<and>
       ch_ExpiresAt c > now \<and> ch_Failures c < 5) (challenges d)))) (\<lambda>r.
     case r of Inl x \<Rightarrow> fail_op (if x = ErrNoRows then ErrMFAInvalid else x) | Inr c \<Rightarrow> ret_op c)"

definition PendingSecret :: "Store \<Rightarrow> Challenge \<Rightarrow> string result" where
  "PendingSecret st c =
     (if \<not> carries_secret (ch_Purpose c) then Inl ErrMFAInvalid
      else Decrypt (st_Cipher st) PurposeMFATOTPPending (of_nat (ch_ID c)) (case ch_PendingSecret c of None \<Rightarrow> [] | Some encoded \<Rightarrow> encoded))"

definition live_session :: "Store \<Rightarrow> Session \<Rightarrow> time \<Rightarrow> bool" where
  "live_session st session now \<longleftrightarrow> se_ExpiresAt session > now \<and> se_LastSeenAt session + st_IdleTimeout st > now"

definition lockSession :: "Store \<Rightarrow> rowid \<Rightarrow> rowid \<Rightarrow> time \<Rightarrow> ('a mfa_db_scheme, Session) op" where
  "lockSession st user sessionID now =
     bind_op (try_op (query (\<lambda>t d. get_row (\<lambda>s. se_ID s = sessionID \<and> se_UserID s = user) (sessions d)))) (\<lambda>r.
     case r of
       Inl x \<Rightarrow> fail_op ErrMFAInvalid
     | Inr row \<Rightarrow>
         bind_op (try_op (FindValidSession (se_TokenHash row) now)) (\<lambda>r.
         case r of
           Inl x \<Rightarrow> fail_op ErrMFAInvalid
         | Inr session \<Rightarrow>
             if se_MFAVerifiedAt session = go_zero_time \<or> \<not> se_LastSeenAt session + st_IdleTimeout st > now
             then fail_op ErrMFAInvalid else ret_op session))"

definition BeginAuthenticated ::
    "Store \<Rightarrow> draws \<Rightarrow> rowid \<Rightarrow> rowid \<Rightarrow> string \<Rightarrow> string \<Rightarrow> string \<Rightarrow> time \<Rightarrow> ('a mfa_db_scheme, Issued) op" where
  "BeginAuthenticated st dr user sessionID purpose nextPath existingToken now0 =
     (if purpose \<noteq> StepUp \<and> purpose \<noteq> RotateAuthorize \<and> purpose \<noteq> Regenerate then fail_op ErrMFAInvalid
      else tx_attempt (
        bind_op (lockUser user) (\<lambda>u.
        if \<not> u_active u then fail_op ErrMFAInvalid
        else bind_op (lockSession st user sessionID now0) (\<lambda>session.
          if purpose \<noteq> StepUp \<and> se_ImpersonatedUserID session \<noteq> None then fail_op ErrMFAInvalid
          else bind_op (currentTime st now0) (\<lambda>now.
            if \<not> live_session st session now then fail_op ErrMFAInvalid
            else bind_op (try_op (query (\<lambda>t d.
                case sql_first_by ch_ID (filter (\<lambda>c. ch_SessionID c = Some sessionID \<and> ch_ConsumedAt c = None \<and> ch_ExpiresAt c > now) (challenges d)) of
                  None \<Rightarrow> Inl ErrNoRows | Some c \<Rightarrow> Inr c))) (\<lambda>r.
              case r of
                Inr pending \<Rightarrow>
                  if HashToken (st_sha st) existingToken \<noteq> ch_TokenHash pending \<or> ch_Purpose pending \<noteq> purpose
                  then fail_op ErrMFAPending
                  else ret_op \<lparr>is_Token = existingToken, is_Challenge = pending\<rparr>
              | Inl x \<Rightarrow>
                  if x \<noteq> ErrNoRows then fail_op x
                  else issue st dr user sessionID purpose False nextPath now))))))"

section \<open>Verification\<close>

record Verified =
  vf_RawToken :: string
  vf_Session :: "Session option"
  vf_Next :: string
  vf_RecoveryCodes :: "string list"
  vf_Pending :: "Issued option"
  vf_Logout :: bool

definition insert_code :: "Store \<Rightarrow> rowid \<Rightarrow> time \<Rightarrow> string \<Rightarrow> ('a mfa_db_scheme, unit) op" where
  "insert_code st user now code0 =
     insert_recovery \<lparr>rc_user = user, rc_hash = RecoveryHash (st_sha st) (st_upper st) user code0, rc_used_at = None, rc_created_at = now\<rparr>"

definition replaceRecovery :: "Store \<Rightarrow> draws \<Rightarrow> rowid \<Rightarrow> time \<Rightarrow> ('a mfa_db_scheme, string list) op" where
  "replaceRecovery st dr user now =
     bind_op (lift_op (NewRecoveryCodes (dr_codes dr))) (\<lambda>codes.
     bind_op (delete_recovery user) (\<lambda>_.
     bind_op (for_each codes (insert_code st user now)) (\<lambda>_. ret_op codes)))"

definition clearChallengesSessions :: "rowid \<Rightarrow> ('a mfa_db_scheme, unit) op" where
  "clearChallengesSessions user =
     bind_op (delete_challenges (\<lambda>c. ch_UserID c = user)) (\<lambda>_.
     bind_op (delete_sessions (\<lambda>s. se_UserID s = user)) (\<lambda>_. ret_op ()))"

text \<open>The session of a challenge that has one.\<close>

definition challenge_session :: "Store \<Rightarrow> Challenge \<Rightarrow> rowid \<Rightarrow> rowid \<Rightarrow> time \<Rightarrow> ('a mfa_db_scheme, Session option) op" where
  "challenge_session st c user sessionID now =
     (case ch_SessionID c of
        Some s \<Rightarrow>
          if s \<noteq> sessionID then fail_op ErrMFAInvalid
          else bind_op (lockSession st user sessionID now) (\<lambda>session.
            if ch_Purpose c \<noteq> StepUp \<and> se_ImpersonatedUserID session \<noteq> None then fail_op ErrMFAInvalid else ret_op (Some session))
      | None \<Rightarrow> if sessionID \<noteq> 0 then fail_op ErrMFAInvalid else ret_op None)"

definition identity_of :: "user_row \<Rightarrow> Identity" where
  "identity_of u = \<lparr>id_UserID = u_id u, id_Username = u_username u\<rparr>"

definition effective_identity :: "user_row \<Rightarrow> Session option \<Rightarrow> ('a mfa_db_scheme, Identity) op" where
  "effective_identity u session =
     (case session of
        Some s \<Rightarrow>
          (case se_ImpersonatedUserID s of
             Some i \<Rightarrow> query (\<lambda>t d. case get_row (\<lambda>u. u_id u = i) (users d) of
               Inl x \<Rightarrow> Inl x | Inr v \<Rightarrow> Inr \<lparr>id_UserID = i, id_Username = u_username v\<rparr>)
           | None \<Rightarrow> ret_op (identity_of u))
      | None \<Rightarrow> ret_op (identity_of u))"

definition mfa_event :: "user_row \<Rightarrow> Identity \<Rightarrow> time \<Rightarrow> string \<Rightarrow> Event" where
  "mfa_event u effective now action =
     \<lparr>ev_Actor = Some (identity_of u), ev_Effective = Some effective, ev_Action = action, ev_Resource = ''user'',
      ev_ResourceID = u_id u, ev_Metadata = None, ev_CreatedAt = now\<rparr>"

text \<open>The counter of the code, whether the answer is right, and whether it is a recovery code.\<close>

definition active_factor :: "Store \<Rightarrow> rowid \<Rightarrow> string \<Rightarrow> time \<Rightarrow> ('a mfa_db_scheme, int \<times> bool \<times> bool) op" where
  "active_factor st user input now =
     bind_op (try_op (query (\<lambda>t d. get_row (\<lambda>r. en_user r = user) (enrollments d)))) (\<lambda>r.
     case r of
       Inl x \<Rightarrow> fail_op (if x = ErrNoRows then ErrMFAInvalid else x)
     | Inr active \<Rightarrow>
         bind_op (lift_op (Decrypt (st_Cipher st) PurposeMFATOTPActive (of_nat user) (en_secret active))) (\<lambda>secret.
         case Match (st_hmac st) secret input now (en_last active) of (counter, valid) \<Rightarrow>
           if valid then ret_op (counter, True, False)
           else bind_op (try_op (query (\<lambda>t d. get_row (\<lambda>r. rc_user r = user \<and>
               rc_hash r = RecoveryHash (st_sha st) (st_upper st) user input) (recovery_codes d)))) (\<lambda>r.
             case r of
               Inl x \<Rightarrow> if x = ErrNoRows then ret_op (counter, False, False) else fail_op x
             | Inr row \<Rightarrow> ret_op (counter, rc_used_at row = None, rc_used_at row = None))))"

definition check_factor :: "Store \<Rightarrow> Challenge \<Rightarrow> rowid \<Rightarrow> string \<Rightarrow> time \<Rightarrow> ('a mfa_db_scheme, int \<times> bool \<times> bool) op" where
  "check_factor st c user input now =
     (if carries_secret (ch_Purpose c) then
        bind_op (lift_op (PendingSecret st c)) (\<lambda>secret.
        case Match (st_hmac st) secret input now (-1) of (counter, valid) \<Rightarrow> ret_op (counter, valid, False))
      else active_factor st user input now)"

definition needs_password :: "string \<Rightarrow> bool" where
  "needs_password purpose \<longleftrightarrow> purpose = RotateAuthorize \<or> purpose = Regenerate"

definition record_failure :: "Challenge \<Rightarrow> rowid \<Rightarrow> time \<Rightarrow> ('a mfa_db_scheme, nat) op" where
  "record_failure c sessionID now =
     (let failures = ch_Failures c + 1
      in bind_op (update_challenges (\<lambda>r. ch_ID r = ch_ID c)
           (\<lambda>r. r\<lparr>ch_Failures := failures, ch_ConsumedAt := (if failures = MaxFailures then Some now else None)\<rparr>)) (\<lambda>_.
         if failures = MaxFailures \<and> ch_SessionID c \<noteq> None
         then bind_op (delete_sessions (\<lambda>s. se_ID s = sessionID)) (\<lambda>_. ret_op failures)
         else ret_op failures))"

definition store_secret :: "Store \<Rightarrow> draws \<Rightarrow> Challenge \<Rightarrow> rowid \<Rightarrow> int \<Rightarrow> time \<Rightarrow> ('a mfa_db_scheme, unit) op" where
  "store_secret st dr c user counter now =
     bind_op (lift_op (PendingSecret st c)) (\<lambda>secret.
     bind_op (lift_op (Encrypt (st_Cipher st) (dr_nonce dr) PurposeMFATOTPActive (of_nat user) secret)) (\<lambda>encoded.
     if ch_Purpose c = Enrollment
     then insert_enrollment \<lparr>en_user = user, en_secret = encoded, en_last = counter, en_enrolled_at = now, en_updated_at = now\<rparr>
     else update_enrollments user (\<lambda>r. r\<lparr>en_secret := encoded, en_last := counter, en_updated_at := now\<rparr>)))"

text \<open>What the answer does to the factors of the user; the result are the new recovery codes.\<close>

definition apply_factor ::
    "Store \<Rightarrow> draws \<Rightarrow> Challenge \<Rightarrow> rowid \<Rightarrow> string \<Rightarrow> int \<Rightarrow> bool \<Rightarrow> time \<Rightarrow> (string \<Rightarrow> ('a mfa_db_scheme, unit) op) \<Rightarrow> ('a mfa_db_scheme, string list) op" where
  "apply_factor st dr c user input counter recovery now append_event =
     (if carries_secret (ch_Purpose c) then
        bind_op (store_secret st dr c user counter now) (\<lambda>_.
        bind_op (replaceRecovery st dr user now) (\<lambda>codes.
        bind_op (append_event (if ch_Purpose c = Rotation then ''mfa.rotated'' else ''mfa.enrolled'')) (\<lambda>_. ret_op codes)))
      else if recovery then
        bind_op (update_recovery (\<lambda>r. rc_user r = user \<and> rc_hash r = RecoveryHash (st_sha st) (st_upper st) user input \<and> rc_used_at r = None)
          (\<lambda>r. r\<lparr>rc_used_at := Some now\<rparr>)) (\<lambda>_.
        bind_op (append_event ''mfa.recovery_used'') (\<lambda>_. ret_op []))
      else bind_op (update_enrollments user (\<lambda>r. r\<lparr>en_last := counter, en_updated_at := now\<rparr>)) (\<lambda>_. ret_op []))"

definition consume :: "Challenge \<Rightarrow> time \<Rightarrow> ('a mfa_db_scheme, unit) op" where
  "consume c now =
     update_challenges (\<lambda>r. ch_ID r = ch_ID c) (\<lambda>r. r\<lparr>ch_ConsumedAt := Some now, ch_PendingSecret := None\<rparr>)"

definition complete ::
    "Store \<Rightarrow> draws \<Rightarrow> Challenge \<Rightarrow> rowid \<Rightarrow> rowid \<Rightarrow> time \<Rightarrow> (string \<Rightarrow> ('a mfa_db_scheme, unit) op) \<Rightarrow> Verified \<Rightarrow> ('a mfa_db_scheme, Verified) op" where
  "complete st dr c user sessionID now append_event result =
     (if ch_Purpose c = Login \<or> ch_Purpose c = Enrollment then
        bind_op (lift_op (GenerateToken (dr_token dr))) (\<lambda>raw.
        bind_op (CreateSessionIn \<lparr>sp_UserID = user, sp_TokenHash = HashToken (st_sha st) raw, sp_RememberMe = ch_RememberMe c,
          sp_ExpiresAt = now + (if ch_RememberMe c then st_RememberLifetime st else st_Lifetime st),
          sp_LastSeenAt = now, sp_MFAVerifiedAt = now\<rparr> now) (\<lambda>session.
        bind_op (set_last_login user now) (\<lambda>_.
        bind_op (append_event ''auth.login'') (\<lambda>_.
        ret_op (result\<lparr>vf_Session := Some session, vf_RawToken := raw\<rparr>)))))
      else if ch_Purpose c = StepUp then
        bind_op (update_sessions (\<lambda>s. se_ID s = sessionID) (\<lambda>s. s\<lparr>se_MFAVerifiedAt := now, se_UpdatedAt := now\<rparr>)) (\<lambda>_.
        bind_op (append_event ''mfa.step_up'') (\<lambda>_. ret_op result))
      else if ch_Purpose c = RotateAuthorize then
        bind_op (issue st dr user sessionID Rotation False ''/login'' now) (\<lambda>pending. ret_op (result\<lparr>vf_Pending := Some pending\<rparr>))
      else if ch_Purpose c = Regenerate then
        bind_op (replaceRecovery st dr user now) (\<lambda>codes.
        bind_op (append_event ''mfa.recovery_regenerated'') (\<lambda>_.
        bind_op (clearChallengesSessions user) (\<lambda>_.
        ret_op (result\<lparr>vf_RecoveryCodes := codes, vf_Logout := True, vf_Next := ''/login''\<rparr>))))
      else if ch_Purpose c = Rotation then
        bind_op (clearChallengesSessions user) (\<lambda>_. ret_op (result\<lparr>vf_Logout := True, vf_Next := ''/login''\<rparr>))
      else fail_op ErrMFAInvalid)"

text \<open>The transaction ends with a verified challenge or with one more recorded failure.\<close>

datatype verdict = Accepted Verified | Refused nat user_row Identity time

definition accept_answer ::
    "Store \<Rightarrow> draws \<Rightarrow> Challenge \<Rightarrow> user_row \<Rightarrow> string \<Rightarrow> rowid \<Rightarrow> time \<Rightarrow> Identity \<Rightarrow> int \<Rightarrow> bool \<Rightarrow> ('a mfa_db_scheme, verdict) op" where
  "accept_answer st dr c u input sessionID now effective counter recovery =
     (let append_event = (\<lambda>action. Append (mfa_event u effective now action))
      in bind_op (apply_factor st dr c (u_id u) input counter recovery now append_event) (\<lambda>codes.
         bind_op (consume c now) (\<lambda>_.
         bind_op (complete st dr c (u_id u) sessionID now append_event
           \<lparr>vf_RawToken = [], vf_Session = None, vf_Next = ch_Next c, vf_RecoveryCodes = codes, vf_Pending = None, vf_Logout = False\<rparr>) (\<lambda>v.
         ret_op (Accepted v)))))"

definition verify_tx :: "Store \<Rightarrow> draws \<Rightarrow> rowid \<Rightarrow> string \<Rightarrow> string \<Rightarrow> rowid \<Rightarrow> string \<Rightarrow> time \<Rightarrow> ('a mfa_db_scheme, verdict) op" where
  "verify_tx st dr user token input sessionID passwordHash now0 =
     bind_op (lockUser user) (\<lambda>u.
     bind_op (try_op (query (\<lambda>t d. get_row (\<lambda>c. ch_TokenHash c = HashToken (st_sha st) token) (challenges d)))) (\<lambda>r.
     case r of
       Inl x \<Rightarrow> fail_op (if x = ErrNoRows then ErrMFAInvalid else x)
     | Inr c \<Rightarrow>
         bind_op (currentTime st now0) (\<lambda>now1.
         if \<not> u_active u \<or> ch_ConsumedAt c \<noteq> None \<or> \<not> ch_ExpiresAt c > now1 \<or> ch_Failures c \<ge> MaxFailures then fail_op ErrMFAInvalid
         else bind_op (challenge_session st c user sessionID now1) (\<lambda>session.
              bind_op (currentTime st now1) (\<lambda>now.
              if \<not> ch_ExpiresAt c > now \<or> (case session of None \<Rightarrow> False | Some s \<Rightarrow> \<not> live_session st s now) then fail_op ErrMFAInvalid
              else bind_op (effective_identity u session) (\<lambda>effective.
                   bind_op (check_factor st c user input now) (\<lambda>(counter, valid0, recovery).
                   let valid = (if needs_password (ch_Purpose c) then valid0 \<and> passwordHash \<noteq> [] \<and> passwordHash = u_password_hash u else valid0)
                   in if \<not> valid then bind_op (record_failure c sessionID now) (\<lambda>failures. ret_op (Refused failures u effective now))
                      else accept_answer st dr c u input sessionID now effective counter recovery)))))))"

text \<open>Outside the transaction: an audit event per failure, whose own failure is only logged.\<close>

definition audit_failures :: "user_row \<Rightarrow> Identity \<Rightarrow> time \<Rightarrow> nat \<Rightarrow> ('a mfa_db_scheme, unit) op" where
  "audit_failures u effective now failures =
     for_each (''mfa.verification_failed'' # (if failures = MaxFailures then [''mfa.challenge_exhausted''] else []))
       (\<lambda>action. bind_op (try_op (Append (mfa_event u effective now action))) (\<lambda>_. ret_op ()))"

definition Verify :: "Store \<Rightarrow> draws \<Rightarrow> string \<Rightarrow> string \<Rightarrow> rowid \<Rightarrow> string \<Rightarrow> time \<Rightarrow> ('a mfa_db_scheme, Verified) op" where
  "Verify st dr token input sessionID passwordHash now0 =
     bind_op (try_op (query (\<lambda>t d. get_row (\<lambda>c. ch_TokenHash c = HashToken (st_sha st) token) (challenges d)))) (\<lambda>r.
     case r of
       Inl x \<Rightarrow> fail_op (if x = ErrNoRows then ErrMFAInvalid else x)
     | Inr c \<Rightarrow>
         bind_op (tx_attempt (verify_tx st dr (ch_UserID c) token input sessionID passwordHash now0)) (\<lambda>outcome.
         case outcome of
           Accepted v \<Rightarrow> ret_op v
         | Refused failures u effective now \<Rightarrow>
             bind_op (audit_failures u effective now failures) (\<lambda>_.
             fail_op (if failures = MaxFailures then ErrMFAExhausted else ErrMFAInvalid))))"

section \<open>Status and reset\<close>

record MfaStatus =
  ms_Enabled :: bool
  ms_EnrolledAt :: time
  ms_Remaining :: nat

definition mfa_Status :: "rowid \<Rightarrow> ('a mfa_db_scheme, MfaStatus) op" where
  "mfa_Status user =
     bind_op (try_op (query (\<lambda>t d. get_row (\<lambda>r. en_user r = user) (enrollments d)))) (\<lambda>r.
     case r of
       Inl x \<Rightarrow> if x = ErrNoRows then ret_op \<lparr>ms_Enabled = False, ms_EnrolledAt = go_zero_time, ms_Remaining = 0\<rparr> else fail_op x
     | Inr row \<Rightarrow>
         bind_op (query (\<lambda>t d. Inr (sql_count (\<lambda>r. rc_user r = user \<and> rc_used_at r = None) (recovery_codes d)))) (\<lambda>n.
         ret_op \<lparr>ms_Enabled = True, ms_EnrolledAt = en_enrolled_at row, ms_Remaining = n\<rparr>))"

text \<open>The permission query of \<open>Reset\<close>.\<close>

definition may_reset :: "'a mfa_db_scheme \<Rightarrow> user_row \<Rightarrow> bool" where
  "may_reset d u \<longleftrightarrow>
     list_ex (\<lambda>(role, slug). role = u_role u \<and> (slug = ''admin'' \<or> (role, ''users.mfa.reset'') \<in> set (role_grants d))) (role_slugs d)"

definition reset_guard :: "Store \<Rightarrow> rowid \<Rightarrow> rowid \<Rightarrow> time \<Rightarrow> ('a mfa_db_scheme, time) op" where
  "reset_guard st actorID sessionID now1 =
     bind_op (lockSession st actorID sessionID now1) (\<lambda>session.
     bind_op (currentTime st now1) (\<lambda>now.
     if \<not> live_session st session now \<or> se_ImpersonatedUserID session \<noteq> None \<or> \<not> Recent (se_MFAVerifiedAt session) now
     then fail_op ErrMFAInvalid
     else bind_op (query (\<lambda>t d. Inr (sql_count (\<lambda>u. u_id u = actorID \<and> may_reset d u) (users d)))) (\<lambda>allowed.
       if allowed \<noteq> 1 then fail_op ErrMFAInvalid else ret_op now)))"

definition Reset :: "Store \<Rightarrow> rowid \<Rightarrow> rowid \<Rightarrow> rowid \<Rightarrow> Identity option \<Rightarrow> Identity option \<Rightarrow> time \<Rightarrow> ('a mfa_db_scheme, unit) op" where
  "Reset st targetID actorID sessionID actor effective now0 =
     (if targetID = 0 \<or> actorID \<noteq> 0 \<and> targetID = actorID then fail_op ErrMFAInvalid
      else tx_attempt (
        bind_op (for_each (if actorID \<noteq> 0 then [min targetID actorID, max targetID actorID] else [targetID])
          (\<lambda>i. bind_op (lockUser i) (\<lambda>u. if i = actorID \<and> \<not> u_active u then fail_op ErrMFAInvalid else ret_op ()))) (\<lambda>_.
        bind_op (currentTime st now0) (\<lambda>now1.
        bind_op (if actorID \<noteq> 0 then reset_guard st actorID sessionID now1 else ret_op now1) (\<lambda>now.
        bind_op (delete_enrollments targetID) (\<lambda>_.
        bind_op (delete_recovery targetID) (\<lambda>_.
        bind_op (clearChallengesSessions targetID) (\<lambda>_.
        Append \<lparr>ev_Actor = actor, ev_Effective = effective,
          ev_Action = (if actorID \<noteq> 0 then ''mfa.admin_reset'' else ''mfa.operator_reset''), ev_Resource = ''user'',
          ev_ResourceID = targetID, ev_Metadata = None, ev_CreatedAt = now\<rparr>))))))))"

end
