(* ===== verification/Mfa_Safety.thy ===== *)
theory Mfa_Safety
  imports Mfa_Store Store_Progress
begin

text \<open>
  Safety of sessions and challenges. \<open>mfa_keys\<close> is the invariant every statement of the store keeps: identifiers are unique and never
  used again, token hashes are unique, a challenge of a session belongs to the user of that session, and a challenge with five
  failures is consumed. \<open>enrolled\<close> says that nobody has a session without an enrolled second factor; it holds between
  transactions. \<open>challenge_step\<close> and \<open>session_step\<close> are what may happen to a row.

  The locale \<open>ageing\<close> holds what tables with AUTO_INCREMENT identifiers have in common; challenges and sessions are its two
  interpretations. The locale \<open>step_relation\<close> of \<open>Store_Op\<close> carries safety and coverage through the operations.
\<close>

section \<open>Tables whose rows are inserted, changed and deleted\<close>

definition keyed_rows :: "('r \<Rightarrow> rowid) \<Rightarrow> rowid \<Rightarrow> 'r list \<Rightarrow> bool" where
  "keyed_rows ident n rows \<longleftrightarrow> distinct (map ident rows) \<and> (\<forall>r \<in> set rows. ident r < n)"

text \<open>Every later row with an old identifier comes from a row that was there.\<close>

definition aged_rows :: "('r \<Rightarrow> rowid) \<Rightarrow> ('r \<Rightarrow> 'r \<Rightarrow> bool) \<Rightarrow> rowid \<Rightarrow> 'r list \<Rightarrow> rowid \<Rightarrow> 'r list \<Rightarrow> bool" where
  "aged_rows ident step n rows n' rows' \<longleftrightarrow>
     n \<le> n' \<and> (\<forall>r' \<in> set rows'. ident r' < n \<longrightarrow> (\<exists>r \<in> set rows. step r r'))"

locale ageing =
  fixes ident :: "'r \<Rightarrow> rowid" and step :: "'r \<Rightarrow> 'r \<Rightarrow> bool"
  assumes step_refl: "step r r"
    and step_trans: "step r r' \<Longrightarrow> step r' r'' \<Longrightarrow> step r r''"
    and step_ident: "step r r' \<Longrightarrow> ident r' = ident r"
begin

lemma aged_refl: "aged_rows ident step n rows n rows"
  by (auto simp: aged_rows_def intro: step_refl)

lemma aged_trans:
  assumes "aged_rows ident step n rows n' rows'" "aged_rows ident step n' rows' n'' rows''"
  shows "aged_rows ident step n rows n'' rows''"
  unfolding aged_rows_def
proof (intro conjI ballI impI)
  show "n \<le> n''" using assms by (simp add: aged_rows_def)
  fix r'' assume "r'' \<in> set rows''" "ident r'' < n"
  moreover from this assms obtain r' where "r' \<in> set rows'" "step r' r''" by (force simp: aged_rows_def)
  ultimately show "\<exists>r \<in> set rows. step r r''"
    using assms(1) step_ident [of r' r''] by (metis aged_rows_def step_trans)
qed

lemma aged_filter: "aged_rows ident step n rows n (filter P rows)"
  by (auto simp: aged_rows_def intro: step_refl)

lemma aged_update: "(\<And>r. r \<in> set rows \<Longrightarrow> P r \<Longrightarrow> step r (f r)) \<Longrightarrow> aged_rows ident step n rows n (sql_update P f rows)"
  by (auto simp: aged_rows_def set_sql_update intro: step_refl)

lemma aged_insert: "ident r = n \<Longrightarrow> aged_rows ident step n rows (Suc n) (rows @ [r])"
  by (auto simp: aged_rows_def intro: step_refl)

lemma keyed_filter: "keyed_rows ident n rows \<Longrightarrow> keyed_rows ident n (filter P rows)"
  by (auto simp: keyed_rows_def distinct_map_filter)

lemma keyed_update:
  "(\<And>r. r \<in> set rows \<Longrightarrow> P r \<Longrightarrow> step r (f r)) \<Longrightarrow> keyed_rows ident n rows \<Longrightarrow> keyed_rows ident n (sql_update P f rows)"
proof -
  assume f: "\<And>r. r \<in> set rows \<Longrightarrow> P r \<Longrightarrow> step r (f r)" and k: "keyed_rows ident n rows"
  have "map ident (sql_update P f rows) = map ident rows" using f by (auto simp: sql_update_def step_ident)
  with k show ?thesis unfolding keyed_rows_def by (metis (mono_tags, lifting) image_eqI image_iff list.set_map)
qed

lemma keyed_insert: "ident r = n \<Longrightarrow> keyed_rows ident n rows \<Longrightarrow> keyed_rows ident (Suc n) (rows @ [r])"
  by (auto simp: keyed_rows_def less_Suc_eq)

lemma aged_row:
  assumes "keyed_rows ident n rows" "aged_rows ident step n rows n' rows'" "r \<in> set rows" "r' \<in> set rows'" "ident r' = ident r"
  shows "step r r'"
proof -
  from assms have "ident r' < n" by (auto simp: keyed_rows_def)
  with assms(2,4) obtain q where q: "q \<in> set rows" "step q r'" by (auto simp: aged_rows_def)
  with step_ident [OF q(2)] assms have "q = r" by (auto simp: keyed_rows_def distinct_map inj_on_def)
  with q show ?thesis by simp
qed

end

definition challenge_step :: "Challenge \<Rightarrow> Challenge \<Rightarrow> bool" where
  "challenge_step c c' \<longleftrightarrow>
     ch_ID c' = ch_ID c \<and> ch_TokenHash c' = ch_TokenHash c \<and> ch_UserID c' = ch_UserID c \<and> ch_SessionID c' = ch_SessionID c \<and>
     ch_Purpose c' = ch_Purpose c \<and> ch_RememberMe c' = ch_RememberMe c \<and> ch_Next c' = ch_Next c \<and>
     ch_ExpiresAt c' = ch_ExpiresAt c \<and> ch_CreatedAt c' = ch_CreatedAt c \<and> ch_Failures c \<le> ch_Failures c' \<and>
     (ch_ConsumedAt c \<noteq> None \<longrightarrow> ch_ConsumedAt c' \<noteq> None \<and> ch_Failures c' = ch_Failures c)"

definition session_step :: "Session \<Rightarrow> Session \<Rightarrow> bool" where
  "session_step s s' \<longleftrightarrow>
     se_ID s' = se_ID s \<and> se_UserID s' = se_UserID s \<and> se_ImpersonatedUserID s' = se_ImpersonatedUserID s \<and>
     se_TokenHash s' = se_TokenHash s \<and> se_RememberMe s' = se_RememberMe s \<and> se_ExpiresAt s' = se_ExpiresAt s \<and>
     se_CreatedAt s' = se_CreatedAt s"

interpretation challenge_rows: ageing ch_ID challenge_step
  by unfold_locales (auto simp: challenge_step_def)

interpretation session_rows: ageing se_ID session_step
  by unfold_locales (auto simp: session_step_def)

section \<open>Invariant\<close>

definition challenge_valid :: "'a mfa_db_scheme \<Rightarrow> Challenge \<Rightarrow> bool" where
  "challenge_valid d c \<longleftrightarrow>
     ch_Failures c \<le> MaxFailures \<and> (ch_Failures c = MaxFailures \<longrightarrow> ch_ConsumedAt c \<noteq> None) \<and>
     (case ch_SessionID c of None \<Rightarrow> True | Some i \<Rightarrow> list_ex (\<lambda>s. se_ID s = i \<and> se_UserID s = ch_UserID c) (sessions d))"

definition mfa_keys :: "'a mfa_db_scheme \<Rightarrow> bool" where
  "mfa_keys d \<longleftrightarrow>
     keyed_rows ch_ID (next_challenge d) (challenges d) \<and> keyed_rows se_ID (next_session d) (sessions d) \<and>
     distinct (map ch_TokenHash (challenges d)) \<and> distinct (map se_TokenHash (sessions d)) \<and>
     distinct (map en_user (enrollments d)) \<and> list_all (challenge_valid d) (challenges d)"

definition mfa_aged :: "'a mfa_db_scheme \<Rightarrow> 'a mfa_db_scheme \<Rightarrow> bool" where
  "mfa_aged d d' \<longleftrightarrow>
     aged_rows ch_ID challenge_step (next_challenge d) (challenges d) (next_challenge d') (challenges d') \<and>
     aged_rows se_ID session_step (next_session d) (sessions d) (next_session d') (sessions d')"

definition mfa_safe :: "'a mfa_db_scheme \<Rightarrow> 'a mfa_db_scheme \<Rightarrow> bool" where
  "mfa_safe d d' \<longleftrightarrow> (mfa_keys d \<longrightarrow> mfa_keys d' \<and> mfa_aged d d')"

lemma mfa_safeI: "(mfa_keys d \<Longrightarrow> mfa_keys d') \<Longrightarrow> (mfa_keys d \<Longrightarrow> mfa_aged d d') \<Longrightarrow> mfa_safe d d'"
  by (simp add: mfa_safe_def)

interpretation safe: step_relation "mfa_safe :: 'a mfa_db_scheme \<Rightarrow> 'a mfa_db_scheme \<Rightarrow> bool"
  by unfold_locales
    (auto simp: mfa_safe_def mfa_aged_def intro: challenge_rows.aged_refl session_rows.aged_refl
      challenge_rows.aged_trans session_rows.aged_trans)

text \<open>Nobody has a session without an enrolled second factor.\<close>

definition enrolled_users :: "'a mfa_db_scheme \<Rightarrow> rowid set" where
  "enrolled_users d = en_user ` set (enrollments d)"

definition enrolled :: "'a mfa_db_scheme \<Rightarrow> bool" where
  "enrolled d \<longleftrightarrow> se_UserID ` set (sessions d) \<subseteq> enrolled_users d"

definition covers :: "'a mfa_db_scheme \<Rightarrow> 'a mfa_db_scheme \<Rightarrow> bool" where
  "covers d d' \<longleftrightarrow> enrolled_users d \<subseteq> enrolled_users d' \<and>
     se_UserID ` set (sessions d') \<subseteq> se_UserID ` set (sessions d) \<union> enrolled_users d'"

interpretation covering: step_relation "covers :: 'a mfa_db_scheme \<Rightarrow> 'a mfa_db_scheme \<Rightarrow> bool"
  by unfold_locales (unfold covers_def, blast+)

lemma covers_enrolled: "covers d d' \<Longrightarrow> enrolled d \<Longrightarrow> enrolled d'"
  unfolding covers_def enrolled_def by blast

interpretation reads: step_relation "(=) :: 'd \<Rightarrow> 'd \<Rightarrow> bool"
  by unfold_locales auto

section \<open>Statements\<close>

lemma write_challenges_Inr:
  "write_challenges rows d = Inr d' \<longleftrightarrow> distinct (map ch_TokenHash rows) \<and> list_all challenge_ok rows \<and> d' = d\<lparr>challenges := rows\<rparr>"
  by (auto simp: write_challenges_def)

lemma challenge_valid_sessions:
  "sessions d' = sessions d \<Longrightarrow> challenge_valid d' = challenge_valid d"
  by (simp add: challenge_valid_def fun_eq_iff split: option.splits)

text \<open>A statement that leaves challenges and sessions alone.\<close>

lemma safe_other:
  assumes "challenges d' = challenges d" "sessions d' = sessions d" "next_challenge d' = next_challenge d" "next_session d' = next_session d"
    "distinct (map en_user (enrollments d)) \<Longrightarrow> distinct (map en_user (enrollments d'))"
  shows "mfa_safe d d'"
  using assms challenge_valid_sessions [of d' d]
  by (auto simp: mfa_safe_def mfa_keys_def mfa_aged_def intro: challenge_rows.aged_refl session_rows.aged_refl)

lemma map_en_user_update:
  "(\<And>r. en_user (f r) = en_user r) \<Longrightarrow> map en_user (sql_update P f rows) = map en_user rows"
  by (auto simp: sql_update_def)

lemma safe_factors:
  "safe.moves (insert_enrollment row)"
  "safe.moves (delete_enrollments user)"
  "safe.moves (insert_recovery rrow)"
  "safe.moves (update_recovery Q g)"
  "safe.moves (delete_recovery user)"
  "safe.moves (set_last_login user now)"
  "safe.moves (Append event :: ('a mfa_db_scheme, unit) op)"
  unfolding insert_enrollment_def delete_enrollments_def insert_recovery_def update_recovery_def delete_recovery_def
    set_last_login_def Append_def insert_audit_def
  by (intro safe.moves_intros safe.moves_stmt safe_other; auto simp: distinct_map_filter split: if_splits)+

lemma safe_update_enrollments: "(\<And>r. en_user (f r) = en_user r) \<Longrightarrow> safe.moves (update_enrollments user f)"
  unfolding update_enrollments_def by (intro safe.moves_stmt safe_other) (auto simp: map_en_user_update)

lemma safe_delete_challenges: "safe.moves (delete_challenges P)"
  unfolding delete_challenges_def
proof (rule safe.moves_stmt)
  fix t :: time and d d' :: "'a mfa_db_scheme" and a :: unit
  assume "Inr ((), d\<lparr>challenges := filter (\<lambda>c. \<not> P c) (challenges d)\<rparr>) = (Inr (a, d') :: (unit \<times> 'a mfa_db_scheme) result)"
  then have "d' = d\<lparr>challenges := filter (\<lambda>c. \<not> P c) (challenges d)\<rparr>" by simp
  then show "mfa_safe d d'"
    using challenge_valid_sessions [of d' d]
    by (auto simp: mfa_safe_def mfa_keys_def mfa_aged_def distinct_map_filter list_all_iff
      intro: challenge_rows.aged_filter session_rows.aged_refl challenge_rows.keyed_filter)
qed

lemma safe_delete_sessions: "safe.moves (delete_sessions P)"
  unfolding delete_sessions_def
proof (rule safe.moves_stmt)
  fix t :: time and d d' :: "'a mfa_db_scheme" and a :: nat
  let ?gone = "map se_ID (filter P (sessions d))"
  let ?keep = "\<lambda>c. case ch_SessionID c of None \<Rightarrow> True | Some s \<Rightarrow> s \<notin> set ?gone"
  assume "(let gone = ?gone in Inr (length gone, d\<lparr>sessions := filter (\<lambda>s. \<not> P s) (sessions d),
       challenges := filter (\<lambda>c. case ch_SessionID c of None \<Rightarrow> True | Some s \<Rightarrow> s \<notin> set gone) (challenges d)\<rparr>)) = Inr (a, d')"
  then have d': "d' = d\<lparr>sessions := filter (\<lambda>s. \<not> P s) (sessions d), challenges := filter ?keep (challenges d)\<rparr>" by (simp add: Let_def)
  have valid: "challenge_valid d' c" if "challenge_valid d c" "?keep c" for c
    using that by (fastforce simp: d' challenge_valid_def list_ex_iff split: option.splits)
  have "list_all (challenge_valid d') (challenges d')" if "list_all (challenge_valid d) (challenges d)"
    using that valid by (simp add: d' list_all_iff)
  then show "mfa_safe d d'"
    by (auto simp: mfa_safe_def mfa_keys_def mfa_aged_def distinct_map_filter d'
      intro: challenge_rows.aged_filter session_rows.aged_filter challenge_rows.keyed_filter session_rows.keyed_filter)
qed

lemma map_update_same: "(\<And>r. r \<in> set rows \<Longrightarrow> P r \<Longrightarrow> g (f r) = g r) \<Longrightarrow> map g (sql_update P f rows) = map g rows"
  by (auto simp: sql_update_def)

lemma safe_update_sessions:
  assumes f: "\<And>s. session_step s (f s)"
  shows "safe.moves (update_sessions P f)"
  unfolding update_sessions_def
proof (rule safe.moves_stmt)
  fix t :: time and d d' :: "'a mfa_db_scheme" and a :: unit
  assume "Inr ((), d\<lparr>sessions := sql_update P f (sessions d)\<rparr>) = (Inr (a, d') :: (unit \<times> 'a mfa_db_scheme) result)"
  then have d': "d' = d\<lparr>sessions := sql_update P f (sessions d)\<rparr>" by simp
  have "list_ex (\<lambda>s. se_ID s = i \<and> se_UserID s = u) (sql_update P f (sessions d)) = list_ex (\<lambda>s. se_ID s = i \<and> se_UserID s = u) (sessions d)" for i u
    using f by (auto simp: list_ex_iff set_sql_update session_step_def)
  then have "challenge_valid d' = challenge_valid d" by (simp add: d' challenge_valid_def fun_eq_iff split: option.splits)
  moreover have "map se_TokenHash (sql_update P f (sessions d)) = map se_TokenHash (sessions d)"
    using f by (simp add: map_update_same session_step_def)
  ultimately show "mfa_safe d d'"
    using f by (auto simp: mfa_safe_def mfa_keys_def mfa_aged_def d'
      intro: challenge_rows.aged_refl session_rows.aged_update session_rows.keyed_update)
qed

lemma safe_insert_session: "safe.moves (insert_session row)"
  unfolding insert_session_def
proof (rule safe.moves_stmt)
  fix t :: time and d d' :: "'a mfa_db_scheme" and a :: rowid
  assume "(if se_UserID row \<notin> set (map u_id (users d)) then Inl (ErrMySQL 1452)
     else if se_TokenHash row \<in> set (map se_TokenHash (sessions d)) then Inl (ErrMySQL 1062)
     else Inr (next_session d, d\<lparr>sessions := sessions d @ [row\<lparr>se_ID := next_session d\<rparr>], next_session := Suc (next_session d)\<rparr>)) = Inr (a, d')"
  then have d': "d' = d\<lparr>sessions := sessions d @ [row\<lparr>se_ID := next_session d\<rparr>], next_session := Suc (next_session d)\<rparr>"
    and hash: "se_TokenHash row \<notin> set (map se_TokenHash (sessions d))" by (auto split: if_splits)
  have "list_all (challenge_valid d') (challenges d)" if "list_all (challenge_valid d) (challenges d)"
    using that by (auto simp: d' list_all_iff challenge_valid_def split: option.splits)
  then show "mfa_safe d d'"
    using hash by (auto simp: mfa_safe_def mfa_keys_def mfa_aged_def d'
      intro: challenge_rows.aged_refl session_rows.aged_insert session_rows.keyed_insert)
qed

text \<open>Changes of a challenge that keep its identity.\<close>

lemma safe_update_challenges:
  assumes "update_challenges P f e = (Inr u, e')"
    and "\<And>c. c \<in> set (challenges (db e)) \<Longrightarrow> P c \<Longrightarrow> challenge_step c (f c)"
    and "\<And>c. c \<in> set (challenges (db e)) \<Longrightarrow> P c \<Longrightarrow> challenge_valid (db e) c \<Longrightarrow> challenge_valid (db e) (f c)"
  shows "mfa_safe (db e) (db e')"
proof -
  from assms(1) have d': "db e' = (db e)\<lparr>challenges := sql_update P f (challenges (db e))\<rparr>"
      and hash: "distinct (map ch_TokenHash (sql_update P f (challenges (db e))))"
    by (auto simp: update_challenges_def op_iff write_challenges_Inr split: sum.splits)
  have "list_all (challenge_valid (db e)) (sql_update P f (challenges (db e)))" if "list_all (challenge_valid (db e)) (challenges (db e))"
    using that assms(3) by (auto simp: list_all_iff set_sql_update)
  moreover have "challenge_valid (db e') = challenge_valid (db e)" by (rule challenge_valid_sessions) (simp add: d')
  ultimately show ?thesis
    using assms(2) hash by (auto simp: mfa_safe_def mfa_keys_def mfa_aged_def d'
      intro: session_rows.aged_refl challenge_rows.aged_update challenge_rows.keyed_update)
qed

lemma update_challenges_failed: "update_challenges P f e = (Inl x, e') \<Longrightarrow> db e' = db e"
  unfolding update_challenges_def by (rule stmt_Inl_db)

lemma safe_updates:
  assumes "\<And>c. challenge_step c (f c)" "\<And>c. ch_Failures (f c) = ch_Failures c"
  shows "safe.moves (update_challenges P f)"
proof (rule safe.movesI)
  fix e e' :: "'a mfa_db_scheme env" and r
  assume run: "update_challenges P f e = (r, e')"
  show "mfa_safe (db e) (db e')"
  proof (cases r)
    case Inl
    with run show ?thesis by (auto dest: update_challenges_failed simp: safe.R_refl)
  next
    case (Inr u)
    have "challenge_valid (db e) (f c)" if "challenge_valid (db e) c" for c
      using that assms [of c] by (auto simp: challenge_valid_def challenge_step_def split: option.splits)
    with run Inr assms(1) show ?thesis by (intro safe_update_challenges [of P f e u e']) auto
  qed
qed

lemma safe_pending: "safe.moves (update_challenges P (\<lambda>c. c\<lparr>ch_PendingSecret := secret\<rparr>))"
  by (rule safe_updates) (simp_all add: challenge_step_def)

lemma safe_consume: "safe.moves (consume c now)"
  unfolding consume_def by (rule safe_updates) (simp_all add: challenge_step_def)

lemmas safe_statements = safe_factors safe_update_enrollments safe_delete_challenges safe_delete_sessions safe_update_sessions
  safe_insert_session safe_pending safe_consume

text \<open>A new challenge needs its session.\<close>

definition owns_session :: "'a mfa_db_scheme \<Rightarrow> rowid \<Rightarrow> rowid \<Rightarrow> bool" where
  "owns_session d user sessionID \<longleftrightarrow> sessionID = 0 \<or> list_ex (\<lambda>s. se_ID s = sessionID \<and> se_UserID s = user) (sessions d)"

lemma safe_insert_challenge:
  assumes "insert_challenge row e = (r, e')" "ch_Failures row = 0"
    "case ch_SessionID row of None \<Rightarrow> True | Some i \<Rightarrow> list_ex (\<lambda>s. se_ID s = i \<and> se_UserID s = ch_UserID row) (sessions (db e))"
  shows "mfa_safe (db e) (db e')"
proof (cases r)
  case Inl
  with assms(1) have "db e' = db e" unfolding insert_challenge_def by (auto dest: stmt_Inl_db)
  then show ?thesis by (simp add: safe.R_refl)
next
  case (Inr n)
  let ?row = "row\<lparr>ch_ID := next_challenge (db e)\<rparr>"
  from assms(1) Inr have d': "db e' = (db e)\<lparr>challenges := challenges (db e) @ [?row], next_challenge := Suc (next_challenge (db e))\<rparr>"
      and hash: "distinct (map ch_TokenHash (challenges (db e) @ [?row]))"
    by (auto simp: insert_challenge_def op_iff write_challenges_Inr split: sum.splits if_splits)
  have "challenge_valid (db e') = challenge_valid (db e)" by (rule challenge_valid_sessions) (simp add: d')
  moreover have "challenge_valid (db e) ?row" using assms(2,3) by (simp add: challenge_valid_def MaxFailures_def split: option.splits)
  ultimately show ?thesis
    using hash by (auto simp: mfa_safe_def mfa_keys_def mfa_aged_def d'
      intro: session_rows.aged_refl challenge_rows.aged_insert challenge_rows.keyed_insert)
qed

section \<open>Reading operations\<close>

lemma reads_session:
  "reads.moves (currentTime st t)"
  "reads.moves (lockUser user)"
  "reads.moves (FindValidSession h t)"
  "reads.moves (lockSession st user sessionID t)"
  unfolding currentTime_def lockUser_def FindValidSession_def lockSession_def by (intro reads.moves_intros)+

lemma reads_verification:
  "reads.moves (challenge_session st c user sessionID t)"
  "reads.moves (effective_identity u session)"
  "reads.moves (check_factor st c user input t)"
  unfolding challenge_session_def effective_identity_def check_factor_def active_factor_def
  by (intro reads.moves_intros reads_session)+

lemmas reads_db = reads_session [THEN reads.movesD, symmetric] reads_verification [THEN reads.movesD, symmetric]

lemma get_row_Inr: "get_row P rows = Inr r \<Longrightarrow> r \<in> set rows \<and> P r"
  by (auto simp: get_row_def find_Some_iff split: option.splits)

lemma get_row_Inl: "get_row P rows = Inl x \<longleftrightarrow> x = ErrNoRows \<and> (\<forall>r \<in> set rows. \<not> P r)"
proof -
  have "find P rows = None \<longleftrightarrow> (\<forall>r \<in> set rows. \<not> P r)" by (auto simp: find_None_iff)
  then show ?thesis by (cases "find P rows") (auto simp: get_row_def)
qed

text \<open>What the locked session is: a live session of the user, found by its identifier.\<close>

lemma FindValidSession_Inr:
  assumes "FindValidSession h t e = (Inr s, e')"
  shows "s \<in> set (sessions (db e))" "se_TokenHash s = h" "t < se_ExpiresAt s"
  using assms unfolding FindValidSession_def
  by (auto simp: op_iff case_sum_op split: if_splits dest!: get_row_Inr)

lemma lockSession_Inr:
  assumes "lockSession st user sessionID t e = (Inr s, e')" "mfa_keys (db e)"
  shows "s \<in> set (sessions (db e))" "se_ID s = sessionID" "se_UserID s = user" "live_session st s t" "se_MFAVerifiedAt s \<noteq> go_zero_time"
proof -
  from assms(1) obtain row e1 where row: "row \<in> set (sessions (db e))" "se_ID row = sessionID" "se_UserID row = user"
      and found: "FindValidSession (se_TokenHash row) t e1 = (Inr s, e')" and e1: "db e1 = db e"
      and s: "se_MFAVerifiedAt s \<noteq> go_zero_time" "t < se_LastSeenAt s + st_IdleTimeout st"
    unfolding lockSession_def by (auto simp: op_iff case_sum_op split: if_splits dest!: get_row_Inr)
  note f = FindValidSession_Inr [OF found, unfolded e1]
  from assms(2) have "inj_on se_TokenHash (set (sessions (db e)))" by (simp add: mfa_keys_def distinct_map)
  with row(1) f(1,2) have "s = row" by (auto dest: inj_onD)
  with row f s show "s \<in> set (sessions (db e))" "se_ID s = sessionID" "se_UserID s = user" "live_session st s t"
    "se_MFAVerifiedAt s \<noteq> go_zero_time" by (simp_all add: live_session_def)
qed

lemma lockSession_owns:
  "lockSession st user sessionID t e = (Inr s, e') \<Longrightarrow> owns_session (db e) user sessionID"
  unfolding lockSession_def owns_session_def
  by (auto simp: op_iff case_sum_op list_ex_iff dest!: get_row_Inr)

section \<open>New challenges\<close>

lemma safe_bind:
  assumes "bind_op m k e = (r, e')"
    and "\<And>q e1. m e = (q, e1) \<Longrightarrow> mfa_safe (db e) (db e1)"
    and "\<And>a e1. m e = (Inr a, e1) \<Longrightarrow> k a e1 = (r, e') \<Longrightarrow> mfa_safe (db e1) (db e')"
  shows "mfa_safe (db e) (db e')"
proof -
  from assms(1) consider x where "m e = (Inl x, e')" | a e1 where "m e = (Inr a, e1)" "k a e1 = (r, e')"
    by (auto simp: bind_op_def split: prod.splits sum.splits)
  then show ?thesis by cases (use assms(2,3) in \<open>auto intro: safe.R_trans\<close>)
qed

lemma safe_issue:
  assumes "issue st dr user sessionID purpose remember nextPath now e = (r, e')" "owns_session (db e) user sessionID"
  shows "mfa_safe (db e) (db e')"
  using assms(1) unfolding issue_def Let_def
proof (rule safe_bind, goal_cases)
  case (1 q e1)
  then show ?case by (rule safe.movesD [OF safe.moves_lift])
next
  case (2 token e1)
  from 2(1) have e1: "db e1 = db e" by (simp add: op_iff)
  from 2(2) show ?case
  proof (rule safe_bind, goal_cases)
    case (1 q e2)
    then show ?case
      by (rule safe_insert_challenge) (use assms(2) in \<open>auto simp: new_challenge_def owns_session_def e1\<close>)
  next
    case (2 newID e2)
    from 2(2) show ?case by (rule safe.movesD [rotated]) (intro safe.moves_intros safe_statements)
  qed
qed

lemma safe_reads: "reads.moves m \<Longrightarrow> safe.moves m"
  by (auto simp: reads.moves_def safe.moves_def safe.R_refl)

lemma safe_issue_free: "safe.moves (issue st dr user 0 purpose remember nextPath now)"
  by (rule safe.movesI, erule safe_issue) (simp add: owns_session_def)

lemma safe_BeginLogin: "safe.moves (BeginLogin st dr user passwordHash remember nextPath now0)"
  unfolding BeginLogin_def
  by (intro safe.moves_intros safe_statements safe_issue_free safe_reads [OF reads_session(1)] safe_reads [OF reads_session(2)])

lemma BeginAuthenticated_Inr:
  assumes "BeginAuthenticated st dr user sessionID purpose nextPath existingToken now0 e = (Inr i, e')"
  shows "db e' = db e \<or> (\<exists>now e1 e2. db e1 = db e \<and> owns_session (db e) user sessionID \<and>
     issue st dr user sessionID purpose False nextPath now e1 = (Inr i, e2) \<and> db e' = db e2)"
proof -
  let ?pending = "\<lambda>now. query (\<lambda>t d. case sql_first_by ch_ID (filter (\<lambda>c. ch_SessionID c = Some sessionID \<and> ch_ConsumedAt c = None \<and>
       ch_ExpiresAt c > now) (challenges d)) of None \<Rightarrow> Inl ErrNoRows | Some c \<Rightarrow> Inr c) :: ('a mfa_db_scheme, Challenge) op"
  from assms obtain e0 u e3 session e4 now e5 q e6 e2 where start: "db e0 = db e" and fin: "db e' = db e2"
    and u: "lockUser user e0 = (Inr u, e3)" and s: "lockSession st user sessionID now0 e3 = (Inr session, e4)"
    and n: "currentTime st now0 e4 = (Inr now, e5)" and q: "?pending now e5 = (q, e6)"
    and out: "e2 = e6 \<or> issue st dr user sessionID purpose False nextPath now e6 = (Inr i, e2)"
    unfolding BeginAuthenticated_def
    by (auto simp: bind_op_Inr_iff try_op_iff case_sum_op ret_op_iff fail_op_iff split: if_splits elim!: tx_attempt_InrE)
  have same: "db e3 = db e" "db e4 = db e" "db e5 = db e" "db e6 = db e"
    using start reads_db(2) [OF u] reads_db(4) [OF s] reads_db(1) [OF n] query_db [OF q] by simp_all
  have "owns_session (db e) user sessionID" using lockSession_owns [OF s] by (simp add: same)
  with out fin same show ?thesis by metis
qed

lemma BeginAuthenticated_Inl:
  "BeginAuthenticated st dr user sessionID purpose nextPath existingToken now0 e = (Inl x, e') \<Longrightarrow> db e' = db e"
  unfolding BeginAuthenticated_def by (auto simp: op_iff split: if_splits dest: tx_attempt_Inl_db)

lemma safe_BeginAuthenticated: "safe.moves (BeginAuthenticated st dr user sessionID purpose nextPath existingToken now0)"
proof (rule safe.movesI, goal_cases)
  case (1 e r e')
  show ?case
  proof (cases r)
    case Inl
    with 1 show ?thesis by (auto simp: safe.R_refl dest: BeginAuthenticated_Inl)
  next
    case (Inr i)
    with 1 BeginAuthenticated_Inr consider "db e' = db e"
      | now e1 e2 where "db e1 = db e" "owns_session (db e) user sessionID"
          "issue st dr user sessionID purpose False nextPath now e1 = (Inr i, e2)" "db e' = db e2"
      by blast
    then show ?thesis
    proof cases
      case 2
      then show ?thesis using safe_issue [of st dr user sessionID purpose False nextPath now e1 "Inr i" e2] by simp
    qed (simp add: safe.R_refl)
  qed
qed

section \<open>Verification\<close>

text \<open>What a committed verification has checked: the challenge is the live one of the token, the user is active, the session is the
  one the challenge was made for. After that it either records a failure or accepts the answer, on the database it found.\<close>

definition answer_valid :: "Challenge \<Rightarrow> user_row \<Rightarrow> string \<Rightarrow> bool \<Rightarrow> bool" where
  "answer_valid c u passwordHash valid \<longleftrightarrow>
     valid \<and> (needs_password (ch_Purpose c) \<longrightarrow> passwordHash \<noteq> [] \<and> passwordHash = u_password_hash u)"

lemma verify_tx_Inr:
  assumes "verify_tx st dr user token input sessionID passwordHash now0 e = (Inr out, e')"
  obtains u c now effective counter valid recovery e1 e2 where
    "u \<in> set (users (db e))" "u_id u = user" "u_active u"
    "c \<in> set (challenges (db e))" "ch_TokenHash c = HashToken (st_sha st) token"
    "ch_ConsumedAt c = None" "ch_Failures c < MaxFailures" "now < ch_ExpiresAt c"
    "case ch_SessionID c of None \<Rightarrow> sessionID = 0 | Some s \<Rightarrow> s = sessionID \<and> list_ex (\<lambda>s. se_ID s = sessionID \<and> se_UserID s = user) (sessions (db e))"
    "db e1 = db e" "check_factor st c user input now e1 = (Inr (counter, valid, recovery), e2)" "db e2 = db e"
    "if answer_valid c u passwordHash valid
     then accept_answer st dr c u input sessionID now effective counter recovery e2 = (Inr out, e')
     else (\<exists>failures. record_failure c sessionID now e2 = (Inr failures, e') \<and> out = Refused failures u effective now)"
proof -
  let ?find = "query (\<lambda>t d. get_row (\<lambda>c. ch_TokenHash c = HashToken (st_sha st) token) (challenges d)) :: ('a mfa_db_scheme, Challenge) op"
  from assms obtain u a1 c a2 now1 a3 session a4 now a5 effective a6 counter valid recovery a7 where
    u: "lockUser user e = (Inr u, a1)" and c: "?find a1 = (Inr c, a2)" and n1: "currentTime st now0 a2 = (Inr now1, a3)"
    and guard: "u_active u" "ch_ConsumedAt c = None" "ch_Failures c < MaxFailures"
    and s: "challenge_session st c user sessionID now1 a3 = (Inr session, a4)"
    and n: "currentTime st now1 a4 = (Inr now, a5)" and expiry: "now < ch_ExpiresAt c"
    and eff: "effective_identity u session a5 = (Inr effective, a6)"
    and f: "check_factor st c user input now a6 = (Inr (counter, valid, recovery), a7)"
    and rest: "(if answer_valid c u passwordHash valid
       then accept_answer st dr c u input sessionID now effective counter recovery a7 = (Inr out, e')
       else (\<exists>failures. record_failure c sessionID now a7 = (Inr failures, e') \<and> out = Refused failures u effective now))"
    unfolding verify_tx_def answer_valid_def Let_def
    by (auto simp: bind_op_Inr_iff try_op_iff case_sum_op ret_op_iff fail_op_iff not_le split: if_splits)
  have same: "db a1 = db e" "db a2 = db e" "db a3 = db e" "db a4 = db e" "db a5 = db e" "db a6 = db e" "db a7 = db e"
    using reads_db(2) [OF u] query_db [OF c] reads_db(1) [OF n1] reads_db(5) [OF s] reads_db(1) [OF n] reads_db(6) [OF eff]
      reads_db(7) [OF f] by simp_all
  from u have user: "u \<in> set (users (db e))" "u_id u = user" by (auto simp: lockUser_def op_iff dest: get_row_Inr)
  from c have found: "c \<in> set (challenges (db e))" "ch_TokenHash c = HashToken (st_sha st) token"
    by (auto simp: op_iff same dest: get_row_Inr)
  from s have "case ch_SessionID c of None \<Rightarrow> sessionID = 0
      | Some i \<Rightarrow> i = sessionID \<and> (\<exists>x a. lockSession st user sessionID now1 a3 = (Inr x, a))"
    unfolding challenge_session_def by (auto simp: bind_op_Inr_iff fail_op_iff split: option.splits if_splits)
  then have own: "case ch_SessionID c of None \<Rightarrow> sessionID = 0
      | Some i \<Rightarrow> i = sessionID \<and> list_ex (\<lambda>s. se_ID s = sessionID \<and> se_UserID s = user) (sessions (db e))"
    unfolding lockSession_def by (auto simp: op_iff case_sum_op same list_ex_iff split: option.splits dest!: get_row_Inr)
  show thesis using that [OF user guard(1) found guard(2,3) expiry own same(6) f same(7) rest] .
qed

lemma challenge_by_id:
  assumes "mfa_keys d" "c \<in> set (challenges d)" "r \<in> set (challenges d)" "ch_ID r = ch_ID c"
  shows "r = c"
  using assms by (auto simp: mfa_keys_def keyed_rows_def distinct_map inj_on_def)

lemma record_failure_safe:
  assumes run: "record_failure c sessionID now e = (Inr failures, e')"
    and c: "c \<in> set (challenges (db e))" "ch_ConsumedAt c = None" "ch_Failures c < MaxFailures"
  shows "mfa_safe (db e) (db e')"
proof (cases "mfa_keys (db e)")
  case True
  let ?f = "\<lambda>r. r\<lparr>ch_Failures := ch_Failures c + 1, ch_ConsumedAt := (if ch_Failures c + 1 = MaxFailures then Some now else None)\<rparr>"
  from run obtain e1 where update: "update_challenges (\<lambda>r. ch_ID r = ch_ID c) ?f e = (Inr (), e1)"
      and rest: "e' = e1 \<or> (\<exists>n. delete_sessions (\<lambda>s. se_ID s = sessionID) e1 = (Inr n, e'))"
    unfolding record_failure_def Let_def by (auto simp: bind_op_Inr_iff ret_op_iff split: if_splits)
  from update have "mfa_safe (db e) (db e1)"
  proof (rule safe_update_challenges, goal_cases)
    case (1 r)
    with challenge_by_id [OF True c(1)] have "r = c" by simp
    with c show ?case by (simp add: challenge_step_def)
  next
    case (2 r)
    with c show ?case by (auto simp: challenge_valid_def split: option.splits)
  qed
  moreover have "mfa_safe (db e1) (db e')"
    using rest by (auto simp: safe.R_refl dest: safe.movesD [OF safe_delete_sessions])
  ultimately show ?thesis by (rule safe.R_trans)
qed (simp add: mfa_safe_def)

lemma safe_replaceRecovery: "safe.moves (replaceRecovery st dr user now)"
  unfolding replaceRecovery_def insert_code_def by (intro safe.moves_intros safe_statements)

lemma safe_clear: "safe.moves (clearChallengesSessions user)"
  unfolding clearChallengesSessions_def by (intro safe.moves_intros safe_statements)

lemma safe_store_secret: "safe.moves (store_secret st dr c user counter now)"
  unfolding store_secret_def by (intro safe.moves_intros safe_statements) simp

lemma safe_apply_factor:
  "safe.moves (apply_factor st dr c user input counter recovery now (\<lambda>action. Append (event action)))"
  unfolding apply_factor_def
  by (intro safe.moves_intros safe_statements safe_replaceRecovery safe_store_secret) simp

lemma safe_CreateSessionIn: "safe.moves (CreateSessionIn params now)"
  unfolding CreateSessionIn_def by (intro safe.moves_intros safe_statements)

text \<open>Neither the factors nor the consumption of the challenge touch the sessions.\<close>

definition same_sessions :: "'a mfa_db_scheme \<Rightarrow> 'a mfa_db_scheme \<Rightarrow> bool" where
  "same_sessions d d' \<longleftrightarrow> sessions d' = sessions d"

interpretation sessions_kept: step_relation "same_sessions :: 'a mfa_db_scheme \<Rightarrow> 'a mfa_db_scheme \<Rightarrow> bool"
  by unfold_locales (auto simp: same_sessions_def)

lemma kept_statements:
  "sessions_kept.moves (insert_enrollment row)"
  "sessions_kept.moves (update_enrollments user f)"
  "sessions_kept.moves (insert_recovery rrow)"
  "sessions_kept.moves (update_recovery Q g)"
  "sessions_kept.moves (delete_recovery user)"
  "sessions_kept.moves (delete_enrollments user)"
  "sessions_kept.moves (set_last_login user now)"
  "sessions_kept.moves (update_challenges P h)"
  "sessions_kept.moves (delete_challenges P)"
  "sessions_kept.moves (insert_challenge crow)"
  "sessions_kept.moves (Append event :: ('a mfa_db_scheme, unit) op)"
  unfolding insert_enrollment_def update_enrollments_def insert_recovery_def update_recovery_def delete_recovery_def
    delete_enrollments_def set_last_login_def update_challenges_def delete_challenges_def insert_challenge_def Append_def insert_audit_def
  by (intro sessions_kept.moves_intros sessions_kept.moves_stmt;
      auto simp: same_sessions_def write_challenges_Inr split: if_splits sum.splits)+

lemma kept_apply_factor:
  "sessions_kept.moves (apply_factor st dr c user input counter recovery now (\<lambda>action. Append (event action)))"
  unfolding apply_factor_def store_secret_def replaceRecovery_def insert_code_def
  by (intro sessions_kept.moves_intros kept_statements)

lemma kept_consume: "sessions_kept.moves (consume c now)"
  unfolding consume_def by (rule kept_statements)

lemma safe_complete:
  assumes "complete st dr c user sessionID now (\<lambda>action. Append (event action)) result e = (r, e')" "owns_session (db e) user sessionID"
  shows "mfa_safe (db e) (db e')"
proof (cases "ch_Purpose c = RotateAuthorize")
  case True
  with assms(1) have "bind_op (issue st dr user sessionID Rotation False ''/login'' now) (\<lambda>pending. ret_op (result\<lparr>vf_Pending := Some pending\<rparr>)) e = (r, e')"
    by (simp add: complete_def purpose_defs)
  then show ?thesis
  proof (rule safe_bind, goal_cases)
    case (1 q e1)
    then show ?case using assms(2) by (rule safe_issue)
  qed (simp add: op_iff safe.R_refl)
next
  case False
  have "safe.moves (complete st dr c user sessionID now (\<lambda>action. Append (event action)) result)"
    unfolding complete_def
    by (intro safe.moves_intros safe_statements safe_CreateSessionIn safe_replaceRecovery safe_clear)
      (use False in \<open>simp_all add: session_step_def\<close>)
  from safe.movesD [OF this assms(1)] show ?thesis .
qed

lemma accept_answer_Inr:
  assumes "accept_answer st dr c u input sessionID now effective counter recovery e = (Inr out, e')"
  obtains codes e1 e2 v where
    "apply_factor st dr c (u_id u) input counter recovery now (\<lambda>action. Append (mfa_event u effective now action)) e = (Inr codes, e1)"
    "consume c now e1 = (Inr (), e2)"
    "complete st dr c (u_id u) sessionID now (\<lambda>action. Append (mfa_event u effective now action))
       \<lparr>vf_RawToken = [], vf_Session = None, vf_Next = ch_Next c, vf_RecoveryCodes = codes, vf_Pending = None, vf_Logout = False\<rparr> e2 = (Inr v, e')"
    "out = Accepted v"
  using assms unfolding accept_answer_def Let_def by (auto simp: bind_op_Inr_iff ret_op_iff)

lemma accept_answer_safe:
  assumes "accept_answer st dr c u input sessionID now effective counter recovery e = (Inr out, e')"
    and "owns_session (db e) (u_id u) sessionID"
  shows "mfa_safe (db e) (db e')"
proof -
  from assms(1) obtain codes e1 e2 v where
    a: "apply_factor st dr c (u_id u) input counter recovery now (\<lambda>action. Append (mfa_event u effective now action)) e = (Inr codes, e1)"
    and b: "consume c now e1 = (Inr (), e2)"
    and d: "complete st dr c (u_id u) sessionID now (\<lambda>action. Append (mfa_event u effective now action))
       \<lparr>vf_RawToken = [], vf_Session = None, vf_Next = ch_Next c, vf_RecoveryCodes = codes, vf_Pending = None, vf_Logout = False\<rparr> e2 = (Inr v, e')"
    by (rule accept_answer_Inr)
  have "sessions (db e2) = sessions (db e)"
    using sessions_kept.movesD [OF kept_apply_factor a] sessions_kept.movesD [OF kept_consume b] by (simp add: same_sessions_def)
  with assms(2) have "owns_session (db e2) (u_id u) sessionID" by (simp add: owns_session_def)
  from safe_complete [OF d this] show ?thesis
    using safe.movesD [OF safe_apply_factor a] safe.movesD [OF safe_consume b] by (blast intro: safe.R_trans)
qed

lemma verify_tx_safe:
  assumes "verify_tx st dr user token input sessionID passwordHash now0 e = (Inr out, e')"
  shows "mfa_safe (db e) (db e')"
  using assms
proof (rule verify_tx_Inr)
  fix u c now effective counter valid recovery e1 e2
  assume u: "u_id u = user" and c: "c \<in> set (challenges (db e))" "ch_ConsumedAt c = None" "ch_Failures c < MaxFailures"
    and own: "case ch_SessionID c of None \<Rightarrow> sessionID = 0
      | Some s \<Rightarrow> s = sessionID \<and> list_ex (\<lambda>s. se_ID s = sessionID \<and> se_UserID s = user) (sessions (db e))"
    and d: "db e2 = db e"
    and out: "if answer_valid c u passwordHash valid
       then accept_answer st dr c u input sessionID now effective counter recovery e2 = (Inr out, e')
       else (\<exists>failures. record_failure c sessionID now e2 = (Inr failures, e') \<and> out = Refused failures u effective now)"
  from own have "owns_session (db e2) (u_id u) sessionID" by (auto simp: owns_session_def u d split: option.splits)
  then have "mfa_safe (db e2) (db e')"
    using out c [folded d] accept_answer_safe record_failure_safe by (metis (full_types))
  then show ?thesis by (simp add: d)
qed

lemma safe_audit_failures: "safe.moves (audit_failures u effective now failures)"
  unfolding audit_failures_def by (intro safe.moves_intros safe_statements)

lemma safe_Verify: "safe.moves (Verify st dr token input sessionID passwordHash now0)"
proof -
  have tx: "safe.moves (tx_attempt (verify_tx st dr user token input sessionID passwordHash now0))" for user
  proof (rule safe.movesI, goal_cases)
    case (1 e r e')
    then show ?case
      by (cases r) (auto simp: safe.R_refl dest: tx_attempt_Inl_db elim!: tx_attempt_InrE dest!: verify_tx_safe)
  qed
  then show ?thesis
    unfolding Verify_def
    by (intro safe.moves_intros(1-15) tx) (auto split: verdict.splits intro!: safe.moves_intros safe_audit_failures)
qed

lemma safe_Reset: "safe.moves (Reset st targetID actorID sessionID actor effective now0)"
  unfolding Reset_def reset_guard_def
  by (intro safe.moves_intros safe_statements safe_clear safe_reads [OF reads_session(1)] safe_reads [OF reads_session(2)]
      safe_reads [OF reads_session(4)])

lemma safe_sessions:
  "safe.moves (UpdateLastSeenAt i now)" "safe.moves (Revoke h)" "safe.moves (RevokeAllForUser user)" "safe.moves (DeleteExpired now)"
  unfolding UpdateLastSeenAt_def Revoke_def RevokeAllForUser_def DeleteExpired_def
  by (intro safe.moves_intros safe_statements; simp add: session_step_def)+

end
