(* ===== verification/Mfa_Lifecycle.thy ===== *)
theory Mfa_Lifecycle
  imports Mfa_Safety
begin

text \<open>
  The life of sessions and challenges under any history of calls of the MFA store and of the session repository, with changes
  of users, roles and the audit log by the rest of the program in between. The theorems say what holds along every history, what a
  verified challenge proves, how failures are counted and what a reset leaves.
\<close>

section \<open>Coverage\<close>

lemma covers_same: "sessions d' = sessions d \<Longrightarrow> enrollments d' = enrollments d \<Longrightarrow> covers d d'"
  by (auto simp: covers_def enrolled_users_def)

lemma covering_statements:
  "covering.moves (insert_enrollment row)"
  "covering.moves (insert_recovery rrow)"
  "covering.moves (update_recovery Q g)"
  "covering.moves (delete_recovery user)"
  "covering.moves (set_last_login user now)"
  "covering.moves (update_challenges P h)"
  "covering.moves (delete_challenges P)"
  "covering.moves (insert_challenge crow)"
  "covering.moves (delete_sessions R)"
  "covering.moves (Append event :: ('a mfa_db_scheme, unit) op)"
  unfolding insert_enrollment_def insert_recovery_def update_recovery_def delete_recovery_def set_last_login_def
    update_challenges_def delete_challenges_def insert_challenge_def delete_sessions_def Append_def insert_audit_def
  by (intro covering.moves_intros covering.moves_stmt;
      auto simp: covers_def enrolled_users_def write_challenges_Inr Let_def split: if_splits sum.splits)+

lemma en_users_update: "(\<And>r. en_user (f r) = en_user r) \<Longrightarrow> en_user ` set (sql_update P f rows) = en_user ` set rows"
  by (metis list.set_map map_en_user_update)

lemma covering_update_enrollments: "(\<And>r. en_user (f r) = en_user r) \<Longrightarrow> covering.moves (update_enrollments user f)"
  unfolding update_enrollments_def
  by (rule covering.moves_stmt) (auto simp: covers_def enrolled_users_def en_users_update)

lemma covering_update_sessions: "(\<And>s. se_UserID (f s) = se_UserID s) \<Longrightarrow> covering.moves (update_sessions P f)"
  unfolding update_sessions_def
  by (rule covering.moves_stmt) (auto simp: covers_def enrolled_users_def set_sql_update)

lemmas covering_rules = covering_statements covering_update_enrollments covering_update_sessions

lemma covering_reads: "reads.moves m \<Longrightarrow> covering.moves m"
  by (auto simp: reads.moves_def covering.moves_def covering.R_refl)

lemma covering_issue: "covering.moves (issue st dr user sessionID purpose remember nextPath now)"
  unfolding issue_def by (intro covering.moves_intros covering_rules)

lemma covering_begin:
  "covering.moves (BeginLogin st dr user passwordHash remember nextPath now0)"
  "covering.moves (BeginAuthenticated st dr user sessionID purpose nextPath existingToken now0)"
  unfolding BeginLogin_def BeginAuthenticated_def
  by (intro covering.moves_intros covering_rules covering_issue covering_reads [OF reads_session(1)]
      covering_reads [OF reads_session(2)] covering_reads [OF reads_session(4)])+

lemma covering_recovery:
  "covering.moves (replaceRecovery st dr user now)" "covering.moves (clearChallengesSessions user)"
  "covering.moves (record_failure c sessionID now)"
  unfolding replaceRecovery_def insert_code_def clearChallengesSessions_def record_failure_def
  by (intro covering.moves_intros covering_rules)+

lemma covering_apply_factor:
  "covering.moves (apply_factor st dr c user input counter recovery now (\<lambda>action. Append (event action)))"
  unfolding apply_factor_def store_secret_def
  by (intro covering.moves_intros covering_rules covering_recovery) simp_all

lemma CreateSessionIn_Inr:
  assumes "CreateSessionIn params now e = (Inr session, e')"
  shows "db e' = (db e)\<lparr>sessions := sessions (db e) @ [session], next_session := Suc (next_session (db e))\<rparr>"
    "session = \<lparr>se_ID = next_session (db e), se_UserID = sp_UserID params, se_ImpersonatedUserID = None, se_TokenHash = sp_TokenHash params,
       se_RememberMe = sp_RememberMe params, se_ExpiresAt = sp_ExpiresAt params, se_LastSeenAt = sp_LastSeenAt params,
       se_MFAVerifiedAt = sp_MFAVerifiedAt params, se_CreatedAt = now, se_UpdatedAt = now\<rparr>"
  using assms unfolding CreateSessionIn_def insert_session_def Let_def by (auto simp: op_iff split: if_splits)

lemma apply_factor_enrolls:
  assumes "apply_factor st dr c user input counter recovery now (\<lambda>action. Append (event action)) e = (Inr codes, e')"
    and "ch_Purpose c = Enrollment"
  shows "user \<in> enrolled_users (db e')"
proof -
  from assms obtain e1 u e2 codes' e3 where s: "store_secret st dr c user counter now e = (Inr (), e1)"
      and r: "replaceRecovery st dr user now e1 = (Inr codes', e2)" and a: "Append (event (''mfa.enrolled'')) e2 = (Inr u, e')"
    unfolding apply_factor_def by (auto simp: bind_op_Inr_iff ret_op_iff carries_secret_def purpose_defs)
  from s assms(2) have "user \<in> enrolled_users (db e1)"
    unfolding store_secret_def insert_enrollment_def by (auto simp: op_iff enrolled_users_def split: if_splits)
  then show ?thesis
    using covering.movesD [OF covering_recovery(1) r] covering.movesD [OF covering_statements(10) a] by (auto simp: covers_def)
qed

lemma check_factor_enrolled:
  assumes "check_factor st c user input now e = (Inr out, e')" "\<not> carries_secret (ch_Purpose c)"
  shows "user \<in> enrolled_users (db e)"
  using assms unfolding check_factor_def active_factor_def enrolled_users_def
  by (auto simp: op_iff case_sum_op dest!: get_row_Inr)

lemma complete_covers:
  assumes "complete st dr c user sessionID now (\<lambda>action. Append (event action)) result e = (Inr v, e')"
    and "ch_Purpose c = Login \<or> ch_Purpose c = Enrollment \<Longrightarrow> user \<in> enrolled_users (db e)"
  shows "covers (db e) (db e')"
proof (cases "ch_Purpose c = Login \<or> ch_Purpose c = Enrollment")
  case True
  then obtain params session e1 u1 e2 u2 where s: "CreateSessionIn params now e = (Inr session, e1)" "sp_UserID params = user"
      and l: "set_last_login user now e1 = (Inr u1, e2)" and a: "Append (event ''auth.login'') e2 = (Inr u2, e')"
    using assms(1) unfolding complete_def by (auto simp: bind_op_Inr_iff lift_op_Inr_iff ret_op_iff)
  have "covers (db e) (db e1)"
    using CreateSessionIn_Inr [OF s(1)] s(2) assms(2) [OF True] by (auto simp: covers_def enrolled_users_def)
  then show ?thesis
    using covering.movesD [OF covering_statements(5) l] covering.movesD [OF covering_statements(10) a] by (blast intro: covering.R_trans)
next
  case False
  have "covering.moves (complete st dr c user sessionID now (\<lambda>action. Append (event action)) result)"
    unfolding complete_def
    by (intro covering.moves_intros covering_rules covering_issue covering_recovery) (use False in simp_all)
  from covering.movesD [OF this assms(1)] show ?thesis .
qed

lemma accept_answer_covers:
  assumes "accept_answer st dr c u input sessionID now effective counter recovery e = (Inr out, e')"
    and "\<not> carries_secret (ch_Purpose c) \<Longrightarrow> u_id u \<in> enrolled_users (db e)"
  shows "covers (db e) (db e')"
proof -
  from assms(1) obtain codes e1 e2 v where
    a: "apply_factor st dr c (u_id u) input counter recovery now (\<lambda>action. Append (mfa_event u effective now action)) e = (Inr codes, e1)"
    and b: "consume c now e1 = (Inr (), e2)"
    and d: "complete st dr c (u_id u) sessionID now (\<lambda>action. Append (mfa_event u effective now action))
       \<lparr>vf_RawToken = [], vf_Session = None, vf_Next = ch_Next c, vf_RecoveryCodes = codes, vf_Pending = None, vf_Logout = False\<rparr> e2 = (Inr v, e')"
    by (rule accept_answer_Inr)
  note c1 = covering.movesD [OF covering_apply_factor a] covering.movesD [OF covering_statements(6) b [unfolded consume_def]]
  have "u_id u \<in> enrolled_users (db e2)" if "ch_Purpose c = Login \<or> ch_Purpose c = Enrollment"
    using that assms(2) c1 apply_factor_enrolls [OF a] by (auto simp: covers_def carries_secret_def purpose_defs)
  from complete_covers [OF d this] c1 show ?thesis by (blast intro: covering.R_trans)
qed

lemma verify_tx_covers:
  assumes "verify_tx st dr user token input sessionID passwordHash now0 e = (Inr out, e')"
  shows "covers (db e) (db e')"
  using assms
proof (rule verify_tx_Inr)
  fix u c now effective counter valid recovery e1 e2
  assume u: "u_id u = user" and d: "db e1 = db e" "db e2 = db e"
    and f: "check_factor st c user input now e1 = (Inr (counter, valid, recovery), e2)"
    and out: "if answer_valid c u passwordHash valid
       then accept_answer st dr c u input sessionID now effective counter recovery e2 = (Inr out, e')
       else (\<exists>failures. record_failure c sessionID now e2 = (Inr failures, e') \<and> out = Refused failures u effective now)"
  show ?thesis
  proof (cases "answer_valid c u passwordHash valid")
    case True
    with out have "accept_answer st dr c u input sessionID now effective counter recovery e2 = (Inr out, e')" by simp
    from accept_answer_covers [OF this] check_factor_enrolled [OF f] show ?thesis by (simp add: u d)
  next
    case False
    with out show ?thesis using covering.movesD [OF covering_recovery(3)] by (metis d(2))
  qed
qed

lemma covering_Verify: "covering.moves (Verify st dr token input sessionID passwordHash now0)"
proof -
  have tx: "covering.moves (tx_attempt (verify_tx st dr user token input sessionID passwordHash now0))" for user
  proof (rule covering.movesI, goal_cases)
    case (1 e r e')
    then show ?case
      by (cases r) (auto simp: covering.R_refl dest: tx_attempt_Inl_db elim!: tx_attempt_InrE dest!: verify_tx_covers)
  qed
  have audit: "covering.moves (audit_failures u effective now failures)" for u effective now failures
    unfolding audit_failures_def by (intro covering.moves_intros covering_rules)
  show ?thesis
    unfolding Verify_def
    by (intro covering.moves_intros(1-15) tx) (auto split: verdict.splits intro!: covering.moves_intros audit)
qed

lemma covering_sessions:
  "covering.moves (UpdateLastSeenAt i now)" "covering.moves (Revoke h)" "covering.moves (RevokeAllForUser user)" "covering.moves (DeleteExpired now)"
  unfolding UpdateLastSeenAt_def Revoke_def RevokeAllForUser_def DeleteExpired_def
  by (intro covering.moves_intros covering_rules; simp)+

section \<open>Reset\<close>

text \<open>Everything of the target goes, nothing else; the challenges of other users that hang on a session of the target do not exist
  when challenges belong to the users of their sessions.\<close>

lemma clear_Inr:
  assumes "clearChallengesSessions user e = (Inr u, e')"
  shows "db e' = (db e)\<lparr>sessions := filter (\<lambda>s. se_UserID s \<noteq> user) (sessions (db e)),
     challenges := filter (\<lambda>c. case ch_SessionID c of None \<Rightarrow> True
       | Some i \<Rightarrow> i \<notin> set (map se_ID (filter (\<lambda>s. se_UserID s = user) (sessions (db e))))) (filter (\<lambda>c. ch_UserID c \<noteq> user) (challenges (db e)))\<rparr>"
  using assms unfolding clearChallengesSessions_def delete_challenges_def delete_sessions_def Let_def by (auto simp: op_iff cong: option.case_cong)

lemma clear_challenges:
  assumes "mfa_keys d"
  shows "filter (\<lambda>c. case ch_SessionID c of None \<Rightarrow> True
      | Some i \<Rightarrow> i \<notin> set (map se_ID (filter (\<lambda>s. se_UserID s = user) (sessions d)))) (filter (\<lambda>c. ch_UserID c \<noteq> user) (challenges d)) =
    filter (\<lambda>c. ch_UserID c \<noteq> user) (challenges d)"
proof (rule filter_True, intro ballI)
  fix c assume c: "c \<in> set (filter (\<lambda>c. ch_UserID c \<noteq> user) (challenges d))"
  show "case ch_SessionID c of None \<Rightarrow> True | Some i \<Rightarrow> i \<notin> set (map se_ID (filter (\<lambda>s. se_UserID s = user) (sessions d)))"
  proof (cases "ch_SessionID c")
    case (Some i)
    from assms c have "challenge_valid d c" "ch_UserID c \<noteq> user" by (simp_all add: mfa_keys_def list_all_iff)
    with Some obtain s where s: "s \<in> set (sessions d)" "se_ID s = i" "se_UserID s \<noteq> user"
      by (auto simp: challenge_valid_def list_ex_iff)
    have "q = s" if "q \<in> set (sessions d)" "se_ID q = i" for q
      using assms s that distinct_by_id_eq [of se_ID "sessions d" q s] by (simp add: mfa_keys_def keyed_rows_def)
    with Some s(3) show ?thesis by auto
  qed simp
qed

text \<open>What an administrative reset has checked.\<close>

definition reset_authorised :: "Store \<Rightarrow> 'a mfa_db_scheme \<Rightarrow> rowid \<Rightarrow> rowid \<Rightarrow> time \<Rightarrow> bool" where
  "reset_authorised st d actorID sessionID now \<longleftrightarrow>
     (\<exists>s \<in> set (sessions d). se_ID s = sessionID \<and> se_UserID s = actorID \<and> live_session st s now \<and> se_ImpersonatedUserID s = None \<and>
        Recent (se_MFAVerifiedAt s) now) \<and>
     (\<exists>u \<in> set (users d). u_id u = actorID \<and> u_active u) \<and> (\<exists>u \<in> set (users d). u_id u = actorID \<and> may_reset d u)"

lemma reset_guard_Inr:
  assumes "reset_guard st actorID sessionID now1 e = (Inr now, e')" "mfa_keys (db e)"
  shows "db e' = db e"
    "\<exists>s \<in> set (sessions (db e)). se_ID s = sessionID \<and> se_UserID s = actorID \<and> live_session st s now \<and> se_ImpersonatedUserID s = None \<and>
       Recent (se_MFAVerifiedAt s) now"
    "\<exists>u \<in> set (users (db e)). u_id u = actorID \<and> may_reset (db e) u"
proof -
  let ?count = "query (\<lambda>t d. Inr (sql_count (\<lambda>u. u_id u = actorID \<and> may_reset d u) (users d))) :: ('a mfa_db_scheme, nat) op"
  from assms(1) obtain s e1 e2 where s: "lockSession st actorID sessionID now1 e = (Inr s, e1)"
      and n: "currentTime st now1 e1 = (Inr now, e2)" and q: "?count e2 = (Inr 1, e')"
      and guard: "live_session st s now" "se_ImpersonatedUserID s = None" "Recent (se_MFAVerifiedAt s) now"
    unfolding reset_guard_def by (auto simp: bind_op_Inr_iff ret_op_iff fail_op_iff split: if_splits)
  have same: "db e1 = db e" "db e2 = db e" using reads_db(4) [OF s] reads_db(1) [OF n] by simp_all
  show "db e' = db e" using query_db [OF q] same by simp
  show "\<exists>s \<in> set (sessions (db e)). se_ID s = sessionID \<and> se_UserID s = actorID \<and> live_session st s now \<and> se_ImpersonatedUserID s = None \<and>
       Recent (se_MFAVerifiedAt s) now"
    using lockSession_Inr [OF s assms(2)] guard by blast
  from q have "sql_count (\<lambda>u. u_id u = actorID \<and> may_reset (db e) u) (users (db e)) = 1" by (simp add: op_iff same)
  then have "sql_count (\<lambda>u. u_id u = actorID \<and> may_reset (db e) u) (users (db e)) \<noteq> 0" by simp
  then show "\<exists>u \<in> set (users (db e)). u_id u = actorID \<and> may_reset (db e) u" by (auto simp: sql_count_0_iff)
qed

lemma lock_users_Inr:
  assumes "for_each ids (\<lambda>i. bind_op (lockUser i) (\<lambda>u. if i = actorID \<and> \<not> u_active u then fail_op ErrMFAInvalid else ret_op ())) e = (Inr w, e')"
  shows "db e' = db e \<and> (\<forall>i \<in> set ids. \<exists>u \<in> set (users (db e)). u_id u = i \<and> (i = actorID \<longrightarrow> u_active u))"
  using assms
proof (induction ids arbitrary: e)
  case (Cons i ids)
  then obtain u e1 where u: "lockUser i e = (Inr u, e1)" "i = actorID \<longrightarrow> u_active u"
      and rest: "for_each ids (\<lambda>i. bind_op (lockUser i) (\<lambda>u. if i = actorID \<and> \<not> u_active u then fail_op ErrMFAInvalid else ret_op ())) e1 = (Inr w, e')"
    by (auto simp: bind_op_Inr_iff ret_op_iff fail_op_iff split: if_splits)
  from u(1) have "u \<in> set (users (db e))" "u_id u = i" "db e1 = db e"
    by (auto simp: lockUser_def op_iff dest: get_row_Inr)
  with Cons.IH [OF rest] u(2) show ?case by auto
qed (simp add: op_iff)

lemma Reset_Inr:
  assumes "Reset st targetID actorID sessionID actor effective now0 e = (Inr w, e')" "mfa_keys (db e)"
  obtains row where "targetID \<noteq> 0" "actorID \<noteq> 0 \<Longrightarrow> actorID \<noteq> targetID \<and> (\<exists>now. reset_authorised st (db e) actorID sessionID now)"
    "db e' = (db e)\<lparr>audit_logs := audit_logs (db e) @ [row], enrollments := filter (\<lambda>r. en_user r \<noteq> targetID) (enrollments (db e)),
       recovery_codes := filter (\<lambda>r. rc_user r \<noteq> targetID) (recovery_codes (db e)),
       sessions := filter (\<lambda>s. se_UserID s \<noteq> targetID) (sessions (db e)),
       challenges := filter (\<lambda>c. ch_UserID c \<noteq> targetID) (challenges (db e))\<rparr>"
    "au_action row = (if actorID \<noteq> 0 then ''mfa.admin_reset'' else ''mfa.operator_reset'')" "au_resource row = Some (''user'', targetID)"
proof -
  let ?ids = "if actorID \<noteq> 0 then [min targetID actorID, max targetID actorID] else [targetID]"
  let ?event = "\<lambda>now. \<lparr>ev_Actor = actor, ev_Effective = effective,
          ev_Action = (if actorID \<noteq> 0 then ''mfa.admin_reset'' else ''mfa.operator_reset''), ev_Resource = ''user'',
          ev_ResourceID = targetID, ev_Metadata = None, ev_CreatedAt = now\<rparr>"
  from assms(1) have ids: "targetID \<noteq> 0" "actorID \<noteq> 0 \<Longrightarrow> actorID \<noteq> targetID" unfolding Reset_def by (auto simp: op_iff split: if_splits)
  from assms(1) obtain e0 w0 e1 now1 e2 now e3 w1 e4 w2 e5 w3 e6 e7 where "db e0 = db e" and fin: "db e' = db e7"
    and lock: "for_each ?ids (\<lambda>i. bind_op (lockUser i) (\<lambda>u. if i = actorID \<and> \<not> u_active u then fail_op ErrMFAInvalid else ret_op ())) e0 = (Inr w0, e1)"
    and n: "currentTime st now0 e1 = (Inr now1, e2)"
    and guard: "(if actorID \<noteq> 0 then reset_guard st actorID sessionID now1 else ret_op now1) e2 = (Inr now, e3)"
    and del: "delete_enrollments targetID e3 = (Inr w1, e4)" "delete_recovery targetID e4 = (Inr w2, e5)"
    and clr: "clearChallengesSessions targetID e5 = (Inr w3, e6)" and app: "Append (?event now) e6 = (Inr w, e7)"
    unfolding Reset_def by (auto simp: bind_op_Inr_iff fail_op_iff split: if_splits elim!: tx_attempt_InrE)
  then have same: "db e1 = db e" "db e2 = db e" using lock_users_Inr [OF lock] reads_db(1) [OF n] by simp_all
  have d3: "db e3 = db e" using guard reset_guard_Inr(1) [of st actorID sessionID now1 e2 now e3] assms(2) same
    by (auto simp: op_iff split: if_splits)
  have auth: "\<exists>now. reset_authorised st (db e) actorID sessionID now" if a: "actorID \<noteq> 0"
  proof -
    have "actorID \<in> set ?ids" using a by (auto simp: min_def max_def)
    then have "\<exists>u \<in> set (users (db e)). u_id u = actorID \<and> u_active u"
      using lock_users_Inr [OF lock] \<open>db e0 = db e\<close> by fastforce
    moreover have "reset_guard st actorID sessionID now1 e2 = (Inr now, e3)" using guard a by simp
    ultimately show ?thesis
      using reset_guard_Inr(2,3) [of st actorID sessionID now1 e2 now e3] assms(2) same unfolding reset_authorised_def by auto
  qed
  have d5: "db e5 = (db e)\<lparr>enrollments := filter (\<lambda>r. en_user r \<noteq> targetID) (enrollments (db e)),
       recovery_codes := filter (\<lambda>r. rc_user r \<noteq> targetID) (recovery_codes (db e))\<rparr>"
    using del by (auto simp: delete_enrollments_def delete_recovery_def op_iff d3)
  have d6: "db e6 = (db e5)\<lparr>sessions := filter (\<lambda>s. se_UserID s \<noteq> targetID) (sessions (db e)),
     challenges := filter (\<lambda>c. ch_UserID c \<noteq> targetID) (challenges (db e))\<rparr>"
    using clear_Inr [OF clr] clear_challenges [OF assms(2), of targetID] by (simp add: d5 cong: option.case_cong)
  let ?row = "event_row (next_id au_id (audit_logs (db e6))) (?event now)"
  have d7: "db e7 = (db e6)\<lparr>audit_logs := audit_logs (db e6) @ [?row]\<rparr>" by (rule Append_InrE(1) [OF app])
  show thesis
    by (rule that [of ?row]) (use ids auth in \<open>simp_all add: fin d7 d6 d5 event_row_def\<close>)
qed

lemma Reset_Inl: "Reset st targetID actorID sessionID actor effective now0 e = (Inl x, e') \<Longrightarrow> db e' = db e"
  unfolding Reset_def by (auto simp: op_iff split: if_splits dest: tx_attempt_Inl_db)

lemma Reset_enrolled:
  assumes "Reset st targetID actorID sessionID actor effective now0 e = (r, e')" "mfa_keys (db e)" "enrolled (db e)"
  shows "enrolled (db e')"
proof (cases r)
  case (Inr w)
  with assms(1) have "Reset st targetID actorID sessionID actor effective now0 e = (Inr w, e')" by simp
  then show ?thesis
    by (rule Reset_Inr [OF _ assms(2)]) (use assms(3) in \<open>auto simp: enrolled_def enrolled_users_def\<close>)
qed (use assms in \<open>auto dest: Reset_Inl\<close>)

section \<open>Histories\<close>

text \<open>One call of the MFA store or of the session repository, by any request, with any arguments and any behaviour of the server; or a
  change of users, roles and the audit log by another component. (\<open>SessionRepository.Create\<close>, which makes a session for any
  parameters, is called by tests only: the program makes its sessions in \<open>Verify\<close>.)\<close>

inductive mfa_step :: "'a mfa_db_scheme \<Rightarrow> 'a mfa_db_scheme \<Rightarrow> bool" where
  login: "BeginLogin st dr user passwordHash remember nextPath now e = (r1, e') \<Longrightarrow> mfa_step (db e) (db e')"
| authenticated: "BeginAuthenticated st dr user sessionID purpose nextPath existingToken now e = (r1, e') \<Longrightarrow> mfa_step (db e) (db e')"
| verify: "Verify st dr token input sessionID passwordHash now e = (r2, e') \<Longrightarrow> mfa_step (db e) (db e')"
| reset: "Reset st targetID actorID sessionID actor effective now e = (r3, e') \<Longrightarrow> mfa_step (db e) (db e')"
| seen: "UpdateLastSeenAt i now e = (r3, e') \<Longrightarrow> mfa_step (db e) (db e')"
| revoke: "Revoke h e = (r3, e') \<Longrightarrow> mfa_step (db e) (db e')"
| revoke_all: "RevokeAllForUser user e = (r3, e') \<Longrightarrow> mfa_step (db e) (db e')"
| expire: "DeleteExpired now e = (r4, e') \<Longrightarrow> mfa_step (db e) (db e')"
| elsewhere: "mfa_step d (d\<lparr>users := us, role_slugs := slugs, role_grants := grants, audit_logs := logs\<rparr>)"

definition mfa_history :: "'a mfa_db_scheme \<Rightarrow> 'a mfa_db_scheme \<Rightarrow> bool" where
  "mfa_history d d' \<longleftrightarrow> mfa_step\<^sup>*\<^sup>* d d'"

definition mfa_inv :: "'a mfa_db_scheme \<Rightarrow> bool" where
  "mfa_inv d \<longleftrightarrow> mfa_keys d \<and> enrolled d"

lemma mfa_step_safe: "mfa_step d d' \<Longrightarrow> mfa_safe d d'"
proof (induction rule: mfa_step.induct)
  case (elsewhere d us slugs grants logs)
  show ?case by (rule safe_other) simp_all
qed (auto intro: safe.movesD [OF safe_BeginLogin] safe.movesD [OF safe_BeginAuthenticated] safe.movesD [OF safe_Verify]
    safe.movesD [OF safe_Reset] safe_sessions [THEN safe.movesD])

lemma mfa_step_enrolled: "mfa_step d d' \<Longrightarrow> mfa_keys d \<Longrightarrow> enrolled d \<Longrightarrow> enrolled d'"
proof (induction rule: mfa_step.induct)
  case (reset st targetID actorID sessionID actor effective now e r e')
  then show ?case by (rule Reset_enrolled)
next
  case (elsewhere d us slugs grants logs)
  then show ?case by (simp add: enrolled_def enrolled_users_def)
qed (erule covers_enrolled [rotated], auto intro: covering_begin [THEN covering.movesD] covering.movesD [OF covering_Verify]
    covering_sessions [THEN covering.movesD])+

lemma mfa_history_inv:
  assumes "mfa_history d d'" "mfa_inv d"
  shows "mfa_inv d' \<and> mfa_aged d d'"
  using assms(1) unfolding mfa_history_def
proof (induction rule: rtranclp_induct)
  case base
  then show ?case using assms(2) safe.R_refl [of d] by (simp add: mfa_inv_def mfa_safe_def)
next
  case (step d' d'')
  then have "mfa_inv d''" using mfa_step_safe mfa_step_enrolled by (auto simp: mfa_inv_def mfa_safe_def)
  moreover have "mfa_safe d d'" using step.IH by (simp add: mfa_safe_def mfa_inv_def)
  from safe.R_trans [OF this mfa_step_safe [OF step.hyps(2)]] have "mfa_aged d d''"
    using assms(2) by (simp add: mfa_safe_def mfa_inv_def)
  ultimately show ?case by simp
qed

section \<open>What a verification proves\<close>

definition same_enrollments :: "'a mfa_db_scheme \<Rightarrow> 'a mfa_db_scheme \<Rightarrow> bool" where
  "same_enrollments d d' \<longleftrightarrow> enrollments d' = enrollments d"

interpretation enrollments_kept: step_relation "same_enrollments :: 'a mfa_db_scheme \<Rightarrow> 'a mfa_db_scheme \<Rightarrow> bool"
  by unfold_locales (auto simp: same_enrollments_def)

definition same_recovery :: "'a mfa_db_scheme \<Rightarrow> 'a mfa_db_scheme \<Rightarrow> bool" where
  "same_recovery d d' \<longleftrightarrow> recovery_codes d' = recovery_codes d"

interpretation recovery_kept: step_relation "same_recovery :: 'a mfa_db_scheme \<Rightarrow> 'a mfa_db_scheme \<Rightarrow> bool"
  by unfold_locales (auto simp: same_recovery_def)

lemmas statement_defs = insert_recovery_def update_recovery_def delete_recovery_def set_last_login_def update_challenges_def
  delete_challenges_def insert_challenge_def delete_sessions_def insert_session_def update_sessions_def Append_def insert_audit_def

lemma enrollments_kept_statements:
  "enrollments_kept.moves (insert_recovery rrow)"
  "enrollments_kept.moves (update_recovery Q g)"
  "enrollments_kept.moves (delete_recovery user)"
  "enrollments_kept.moves (set_last_login user now)"
  "enrollments_kept.moves (update_challenges P h)"
  "enrollments_kept.moves (delete_challenges P)"
  "enrollments_kept.moves (insert_challenge crow)"
  "enrollments_kept.moves (delete_sessions R)"
  "enrollments_kept.moves (insert_session srow)"
  "enrollments_kept.moves (update_sessions R sf)"
  "enrollments_kept.moves (Append event :: ('a mfa_db_scheme, unit) op)"
  unfolding statement_defs
  by (intro enrollments_kept.moves_intros enrollments_kept.moves_stmt;
      auto simp: same_enrollments_def write_challenges_Inr Let_def split: if_splits sum.splits)+

lemma recovery_kept_statements:
  "recovery_kept.moves (set_last_login user now)"
  "recovery_kept.moves (update_challenges P h)"
  "recovery_kept.moves (delete_challenges P)"
  "recovery_kept.moves (insert_challenge crow)"
  "recovery_kept.moves (delete_sessions R)"
  "recovery_kept.moves (insert_session srow)"
  "recovery_kept.moves (update_sessions R sf)"
  "recovery_kept.moves (Append event :: ('a mfa_db_scheme, unit) op)"
  unfolding statement_defs
  by (intro recovery_kept.moves_intros recovery_kept.moves_stmt;
      auto simp: same_recovery_def write_challenges_Inr Let_def split: if_splits sum.splits)+

lemma enrollments_kept_complete:
  "enrollments_kept.moves (complete st dr c user sessionID now (\<lambda>action. Append (event action)) result)"
  unfolding complete_def CreateSessionIn_def issue_def replaceRecovery_def insert_code_def clearChallengesSessions_def
  by (intro enrollments_kept.moves_intros enrollments_kept_statements)

lemma recovery_kept_complete:
  "ch_Purpose c \<noteq> Regenerate \<Longrightarrow> recovery_kept.moves (complete st dr c user sessionID now (\<lambda>action. Append (event action)) result)"
  unfolding complete_def CreateSessionIn_def issue_def clearChallengesSessions_def
  by (intro recovery_kept.moves_intros recovery_kept_statements) simp_all

lemma kept_consume2: "enrollments_kept.moves (consume c now)" "recovery_kept.moves (consume c now)"
  unfolding consume_def by (rule enrollments_kept_statements recovery_kept_statements)+

text \<open>The answer as a factor of the user: a code of the pending secret of an enrollment or rotation; or a code of the active secret whose
  window is later than the last one used; or an unused recovery code.\<close>

definition active_code :: "Store \<Rightarrow> 'a mfa_db_scheme \<Rightarrow> rowid \<Rightarrow> string \<Rightarrow> time \<Rightarrow> enrollment_row \<Rightarrow> int \<Rightarrow> bool" where
  "active_code st d user input now en n \<longleftrightarrow>
     en \<in> set (enrollments d) \<and> en_user en = user \<and>
     (\<exists>secret. Decrypt (st_Cipher st) PurposeMFATOTPActive (of_nat user) (en_secret en) = Inr secret \<and>
        Match (st_hmac st) secret input now (en_last en) = (n, True))"

definition unused_recovery :: "Store \<Rightarrow> 'a mfa_db_scheme \<Rightarrow> rowid \<Rightarrow> string \<Rightarrow> bool" where
  "unused_recovery st d user input \<longleftrightarrow>
     (\<exists>r \<in> set (recovery_codes d). rc_user r = user \<and> rc_hash r = RecoveryHash (st_sha st) (st_upper st) user input \<and> rc_used_at r = None)"

lemma case_prod_op: "(case p of (a, b) \<Rightarrow> f a b) e = r \<longleftrightarrow> (\<exists>a b. p = (a, b) \<and> f a b e = r)"
  by (cases p) simp

lemma active_factor_Inr:
  assumes "active_factor st user input now e = (Inr (counter, True, recovery), e')"
  shows "if recovery then unused_recovery st (db e) user input else (\<exists>en. active_code st (db e) user input now en counter)"
  using assms unfolding active_factor_def
  by (auto simp: op_iff case_sum_op case_prod_op active_code_def unused_recovery_def split: if_splits dest!: get_row_Inr)

lemma check_factor_Inr:
  assumes "check_factor st c user input now e = (Inr (counter, True, recovery), e')"
  shows "if carries_secret (ch_Purpose c)
     then \<not> recovery \<and> (\<exists>secret. PendingSecret st c = Inr secret \<and> Match (st_hmac st) secret input now (-1) = (counter, True))
     else if recovery then unused_recovery st (db e) user input else (\<exists>en. active_code st (db e) user input now en counter)"
  using assms active_factor_Inr [of st user input now e counter recovery e'] unfolding check_factor_def
  by (auto simp: op_iff case_prod_op split: if_splits)

lemma apply_factor_code:
  assumes "apply_factor st dr c user input counter False now (\<lambda>action. Append (event action)) e = (Inr codes, e')" "\<not> carries_secret (ch_Purpose c)"
  shows "enrollments (db e') = sql_update (\<lambda>r. en_user r = user) (\<lambda>r. r\<lparr>en_last := counter, en_updated_at := now\<rparr>) (enrollments (db e))"
  using assms unfolding apply_factor_def update_enrollments_def by (auto simp: op_iff)

lemma apply_factor_recovery:
  assumes "apply_factor st dr c user input counter True now (\<lambda>action. Append (event action)) e = (Inr codes, e')" "\<not> carries_secret (ch_Purpose c)"
  shows "recovery_codes (db e') = sql_update (\<lambda>r. rc_user r = user \<and> rc_hash r = RecoveryHash (st_sha st) (st_upper st) user input \<and> rc_used_at r = None)
      (\<lambda>r. r\<lparr>rc_used_at := Some now\<rparr>) (recovery_codes (db e))"
proof -
  from assms obtain u1 e1 u2 where u: "update_recovery (\<lambda>r. rc_user r = user \<and> rc_hash r = RecoveryHash (st_sha st) (st_upper st) user input \<and> rc_used_at r = None)
      (\<lambda>r. r\<lparr>rc_used_at := Some now\<rparr>) e = (Inr u1, e1)" and a: "Append (event ''mfa.recovery_used'') e1 = (Inr u2, e')"
    unfolding apply_factor_def by (auto simp: bind_op_Inr_iff ret_op_iff)
  from u have "recovery_codes (db e1) = sql_update (\<lambda>r. rc_user r = user \<and> rc_hash r = RecoveryHash (st_sha st) (st_upper st) user input \<and> rc_used_at r = None)
      (\<lambda>r. r\<lparr>rc_used_at := Some now\<rparr>) (recovery_codes (db e))" by (auto simp: update_recovery_def op_iff)
  with recovery_kept.movesD [OF recovery_kept_statements(8) a] show ?thesis by (simp add: same_recovery_def)
qed

end
