(* ===== verification/Mfa_Properties.thy ===== *)
theory Mfa_Properties
  imports Mfa_Lifecycle
begin

text \<open>
  The properties of single calls: a verified challenge proves a second factor and uses it up, failures are counted and end the
  challenge, a reset removes what the target has and nothing else. A sample store serves the witnesses.
\<close>

section \<open>Sessions made by a verification\<close>

definition no_new_sessions :: "'a mfa_db_scheme \<Rightarrow> 'a mfa_db_scheme \<Rightarrow> bool" where
  "no_new_sessions d d' \<longleftrightarrow> se_ID ` set (sessions d') \<subseteq> se_ID ` set (sessions d)"

interpretation shrinking: step_relation "no_new_sessions :: 'a mfa_db_scheme \<Rightarrow> 'a mfa_db_scheme \<Rightarrow> bool"
  by unfold_locales (unfold no_new_sessions_def, blast+)

lemma shrinking_kept: "sessions_kept.moves m \<Longrightarrow> shrinking.moves m"
  by (auto simp: sessions_kept.moves_def shrinking.moves_def same_sessions_def no_new_sessions_def)

lemma shrinking_sessions: "shrinking.moves (delete_sessions R)" "(\<And>s. se_ID (f s) = se_ID s) \<Longrightarrow> shrinking.moves (update_sessions R f)"
  unfolding delete_sessions_def update_sessions_def Let_def
  by (rule shrinking.moves_stmt; force simp: no_new_sessions_def set_sql_update)+

lemmas shrinking_statements = shrinking_sessions kept_statements [THEN shrinking_kept]

lemma shrinking_complete:
  assumes "ch_Purpose c \<noteq> Login" "ch_Purpose c \<noteq> Enrollment"
  shows "shrinking.moves (complete st dr c user sessionID now (\<lambda>action. Append (event action)) result)"
  unfolding complete_def issue_def replaceRecovery_def insert_code_def clearChallengesSessions_def
  by (intro shrinking.moves_intros shrinking_statements) (use assms in simp_all)

lemma complete_login:
  assumes "complete st dr c user sessionID now (\<lambda>action. Append (event action)) result e = (Inr v, e')"
    and "ch_Purpose c = Login \<or> ch_Purpose c = Enrollment"
  obtains s where "vf_Session v = Some s" "sessions (db e') = sessions (db e) @ [s]" "se_UserID s = user" "se_MFAVerifiedAt s = now"
    "se_ExpiresAt s = now + (if ch_RememberMe c then st_RememberLifetime st else st_Lifetime st)" "se_ImpersonatedUserID s = None"
proof -
  from assms obtain raw s e1 u1 e2 u2 where
    s: "CreateSessionIn \<lparr>sp_UserID = user, sp_TokenHash = HashToken (st_sha st) raw, sp_RememberMe = ch_RememberMe c,
          sp_ExpiresAt = now + (if ch_RememberMe c then st_RememberLifetime st else st_Lifetime st),
          sp_LastSeenAt = now, sp_MFAVerifiedAt = now\<rparr> now e = (Inr s, e1)"
    and l: "set_last_login user now e1 = (Inr u1, e2)" and a: "Append (event ''auth.login'') e2 = (Inr u2, e')"
    and v: "v = result\<lparr>vf_Session := Some s, vf_RawToken := raw\<rparr>"
    unfolding complete_def by (auto simp: bind_op_Inr_iff lift_op_Inr_iff ret_op_iff)
  have "sessions (db e') = sessions (db e1)"
    using sessions_kept.movesD [OF kept_statements(7) l] sessions_kept.movesD [OF kept_statements(11) a] by (simp add: same_sessions_def)
  then show thesis using that [of s] CreateSessionIn_Inr [OF s] v by simp
qed

section \<open>A verified challenge\<close>

lemma case_verdict_op:
  "(case out of Accepted v \<Rightarrow> f v | Refused n u i t \<Rightarrow> g n u i t) e = r \<longleftrightarrow>
     (\<exists>v. out = Accepted v \<and> f v e = r) \<or> (\<exists>n u i t. out = Refused n u i t \<and> g n u i t e = r)"
  by (cases out) simp_all

lemma Verify_Inr:
  assumes "Verify st dr token input sessionID passwordHash now0 e = (Inr v, e')"
  obtains e1 e2 user where "db e1 = db e" "db e' = db e2"
    "verify_tx st dr user token input sessionID passwordHash now0 e1 = (Inr (Accepted v), e2)"
    "\<exists>c \<in> set (challenges (db e)). ch_TokenHash c = HashToken (st_sha st) token \<and> ch_UserID c = user"
proof -
  let ?find = "query (\<lambda>t d. get_row (\<lambda>c. ch_TokenHash c = HashToken (st_sha st) token) (challenges d)) :: ('a mfa_db_scheme, Challenge) op"
  from assms obtain c e0 where f: "?find e = (Inr c, e0)"
      and t: "tx_attempt (verify_tx st dr (ch_UserID c) token input sessionID passwordHash now0) e0 = (Inr (Accepted v), e')"
    unfolding Verify_def by (auto simp: bind_op_Inr_iff try_op_iff case_sum_op case_verdict_op ret_op_iff fail_op_iff)
  from f have "db e0 = db e" "c \<in> set (challenges (db e))" "ch_TokenHash c = HashToken (st_sha st) token"
    by (auto simp: op_iff dest: get_row_Inr)
  with t that show thesis by (metis tx_attempt_InrE)
qed

lemma consume_Inr:
  assumes "consume c now e = (Inr u, e')"
  shows "c' \<in> set (challenges (db e')) \<Longrightarrow> ch_ID c' = ch_ID c \<Longrightarrow> ch_ConsumedAt c' \<noteq> None"
  using assms by (auto simp: consume_def update_challenges_def op_iff write_challenges_Inr set_sql_update split: sum.splits)

lemma consumed_stays:
  assumes "mfa_keys d" "mfa_safe d d'" "c' \<in> set (challenges d')" "ch_ID c' < next_challenge d"
    and "\<And>r. r \<in> set (challenges d) \<Longrightarrow> ch_ID r = ch_ID c' \<Longrightarrow> ch_ConsumedAt r \<noteq> None"
  shows "ch_ConsumedAt c' \<noteq> None"
proof -
  from assms(1,2) have "aged_rows ch_ID challenge_step (next_challenge d) (challenges d) (next_challenge d') (challenges d')"
    by (simp add: mfa_safe_def mfa_aged_def)
  with assms(3,4) obtain r where "r \<in> set (challenges d)" "challenge_step r c'" by (auto simp: aged_rows_def)
  with assms(5) [of r] show ?thesis by (auto simp: challenge_step_def)
qed

lemma accept_consumes:
  assumes "accept_answer st dr c u input sessionID now effective counter recovery e = (Inr out, e')"
    and own: "owns_session (db e) (u_id u) sessionID" and keys: "mfa_keys (db e)" and c: "c \<in> set (challenges (db e))"
    and c': "c' \<in> set (challenges (db e'))" "ch_ID c' = ch_ID c"
  shows "ch_ConsumedAt c' \<noteq> None"
proof -
  from assms(1) obtain codes e1 e2 v where
    a: "apply_factor st dr c (u_id u) input counter recovery now (\<lambda>action. Append (mfa_event u effective now action)) e = (Inr codes, e1)"
    and b: "consume c now e1 = (Inr (), e2)"
    and d: "complete st dr c (u_id u) sessionID now (\<lambda>action. Append (mfa_event u effective now action))
       \<lparr>vf_RawToken = [], vf_Session = None, vf_Next = ch_Next c, vf_RecoveryCodes = codes, vf_Pending = None, vf_Logout = False\<rparr> e2 = (Inr v, e')"
    by (rule accept_answer_Inr)
  have safe2: "mfa_safe (db e) (db e2)"
    using safe.movesD [OF safe_apply_factor a] safe.movesD [OF safe_consume b] by (blast intro: safe.R_trans)
  with keys have keys2: "mfa_keys (db e2)" and "next_challenge (db e) \<le> next_challenge (db e2)"
    by (simp_all add: mfa_safe_def mfa_aged_def aged_rows_def)
  moreover from keys c have "ch_ID c < next_challenge (db e)" by (simp add: mfa_keys_def keyed_rows_def)
  ultimately have "ch_ID c' < next_challenge (db e2)" by (simp add: c'(2))
  moreover have "sessions (db e2) = sessions (db e)"
    using sessions_kept.movesD [OF kept_apply_factor a] sessions_kept.movesD [OF kept_consume b] by (simp add: same_sessions_def)
  with own have "owns_session (db e2) (u_id u) sessionID" by (simp add: owns_session_def)
  ultimately show ?thesis
    using consumed_stays [OF keys2 safe_complete [OF d] c'(1)] consume_Inr [OF b] c'(2) by simp
qed

text \<open>What the accepted answer leaves of the factor it used.\<close>

lemma accept_uses_code:
  assumes "accept_answer st dr c u input sessionID now effective counter False e = (Inr out, e')" "\<not> carries_secret (ch_Purpose c)"
  shows "enrollments (db e') = sql_update (\<lambda>r. en_user r = u_id u) (\<lambda>r. r\<lparr>en_last := counter, en_updated_at := now\<rparr>) (enrollments (db e))"
  using assms(1)
proof (rule accept_answer_Inr, goal_cases)
  case (1 codes e1 e2 v)
  show ?case
    using apply_factor_code [OF 1(1) assms(2)] enrollments_kept.movesD [OF kept_consume2(1) 1(2)]
      enrollments_kept.movesD [OF enrollments_kept_complete 1(3)] by (simp add: same_enrollments_def)
qed

lemma accept_uses_recovery:
  assumes "accept_answer st dr c u input sessionID now effective counter True e = (Inr out, e')" "\<not> carries_secret (ch_Purpose c)"
    and "ch_Purpose c \<noteq> Regenerate"
  shows "recovery_codes (db e') = sql_update (\<lambda>r. rc_user r = u_id u \<and> rc_hash r = RecoveryHash (st_sha st) (st_upper st) (u_id u) input \<and> rc_used_at r = None)
      (\<lambda>r. r\<lparr>rc_used_at := Some now\<rparr>) (recovery_codes (db e))"
  using assms(1)
proof (rule accept_answer_Inr, goal_cases)
  case (1 codes e1 e2 v)
  show ?case
    using apply_factor_recovery [OF 1(1) assms(2)] recovery_kept.movesD [OF kept_consume2(2) 1(2)]
      recovery_kept.movesD [OF recovery_kept_complete [OF assms(3)] 1(3)] by (simp add: same_recovery_def)
qed

lemma accept_sessions:
  assumes "accept_answer st dr c u input sessionID now effective counter recovery e = (Inr (Accepted v), e')"
    and "s \<in> set (sessions (db e'))" "se_ID s \<notin> se_ID ` set (sessions (db e))"
  shows "(ch_Purpose c = Login \<or> ch_Purpose c = Enrollment) \<and> vf_Session v = Some s \<and> se_UserID s = u_id u \<and> se_MFAVerifiedAt s = now \<and>
     se_ExpiresAt s = now + (if ch_RememberMe c then st_RememberLifetime st else st_Lifetime st)"
proof -
  from assms(1) obtain codes e1 e2 v' where
    a: "apply_factor st dr c (u_id u) input counter recovery now (\<lambda>action. Append (mfa_event u effective now action)) e = (Inr codes, e1)"
    and b: "consume c now e1 = (Inr (), e2)"
    and d: "complete st dr c (u_id u) sessionID now (\<lambda>action. Append (mfa_event u effective now action))
       \<lparr>vf_RawToken = [], vf_Session = None, vf_Next = ch_Next c, vf_RecoveryCodes = codes, vf_Pending = None, vf_Logout = False\<rparr> e2 = (Inr v', e')"
    and v': "Accepted v = Accepted v'"
    by (rule accept_answer_Inr)
  from v' d have d: "complete st dr c (u_id u) sessionID now (\<lambda>action. Append (mfa_event u effective now action))
       \<lparr>vf_RawToken = [], vf_Session = None, vf_Next = ch_Next c, vf_RecoveryCodes = codes, vf_Pending = None, vf_Logout = False\<rparr> e2 = (Inr v, e')"
    by simp
  have same: "sessions (db e2) = sessions (db e)"
    using sessions_kept.movesD [OF kept_apply_factor a] sessions_kept.movesD [OF kept_consume b] by (simp add: same_sessions_def)
  show ?thesis
  proof (cases "ch_Purpose c = Login \<or> ch_Purpose c = Enrollment")
    case True
    obtain s0 where s0: "vf_Session v = Some s0" "sessions (db e') = sessions (db e2) @ [s0]" "se_UserID s0 = u_id u" "se_MFAVerifiedAt s0 = now"
        "se_ExpiresAt s0 = now + (if ch_RememberMe c then st_RememberLifetime st else st_Lifetime st)"
      by (rule complete_login [OF d True])
    with assms(2,3) have "s = s0" by (auto simp: same)
    with s0 True show ?thesis by simp
  next
    case False
    then have "no_new_sessions (db e2) (db e')" using shrinking.movesD [OF shrinking_complete d] by simp
    with assms(2,3) show ?thesis by (auto simp: no_new_sessions_def same)
  qed
qed

lemma accepted_factor:
  assumes acc: "accept_answer st dr c u input sessionID now effective counter recovery a = (Inr (Accepted v), b)"
    and shown: "if carries_secret (ch_Purpose c)
       then \<not> recovery \<and> (\<exists>secret. PendingSecret st c = Inr secret \<and> Match (st_hmac st) secret input now (-1) = (counter, True))
       else if recovery then unused_recovery st d (u_id u) input else (\<exists>en. active_code st d (u_id u) input now en counter)"
    and a: "db a = d" and b: "d' = db b"
  shows "if carries_secret (ch_Purpose c)
      then \<exists>secret n. PendingSecret st c = Inr secret \<and> Match (st_hmac st) secret input now (-1) = (n, True)
      else (\<exists>en n. active_code st d (u_id u) input now en n \<and> en_last en < n \<and>
              (\<forall>r \<in> set (enrollments d'). en_user r = u_id u \<longrightarrow> en_last r = n)) \<or>
           (unused_recovery st d (u_id u) input \<and> (ch_Purpose c \<noteq> Regenerate \<longrightarrow> \<not> unused_recovery st d' (u_id u) input))"
proof (cases "carries_secret (ch_Purpose c)")
  case True
  with shown show ?thesis by auto
next
  case secret: False
  show ?thesis
  proof (cases recovery)
    case True
    with acc have acc': "accept_answer st dr c u input sessionID now effective counter True a = (Inr (Accepted v), b)" by simp
    have "\<not> unused_recovery st d' (u_id u) input" if "ch_Purpose c \<noteq> Regenerate"
      using accept_uses_recovery [OF acc' secret that] by (auto simp: unused_recovery_def b set_sql_update)
    with shown secret True show ?thesis by simp
  next
    case False
    with acc have acc': "accept_answer st dr c u input sessionID now effective counter False a = (Inr (Accepted v), b)" by simp
    from shown secret False obtain en where en: "active_code st d (u_id u) input now en counter" by auto
    then have "en_last en < counter" by (auto simp: active_code_def dest: Match_True(1))
    moreover have "\<forall>r \<in> set (enrollments d'). en_user r = u_id u \<longrightarrow> en_last r = counter"
      using accept_uses_code [OF acc' secret] by (auto simp: b set_sql_update)
    ultimately show ?thesis using en secret by auto
  qed
qed

text \<open>
  C7. A successful verification proves a second factor and uses it up. The token names a live challenge (not consumed, not
  expired, fewer than five failures) of an active user; the answer is a code of the pending secret (enrollment, rotation), or a
  code of the active secret for a window later than the last one used, or an unused recovery code, and for rotation and new
  recovery codes the password is right as well. Afterwards the challenge is consumed, the window of the code is the last one used,
  the recovery code is used, and a session appears only for a login or an enrollment: the one returned, of that user, verified now.
\<close>

theorem Verify_proves_factor:
  assumes "Verify st dr token input sessionID passwordHash now0 e = (Inr v, e')" and "mfa_keys (db e)"
  shows "\<exists>c u now. c \<in> set (challenges (db e)) \<and> ch_TokenHash c = HashToken (st_sha st) token \<and> ch_ConsumedAt c = None \<and>
     ch_Failures c < 5 \<and> now < ch_ExpiresAt c \<and> u \<in> set (users (db e)) \<and> u_id u = ch_UserID c \<and> u_active u \<and>
     (needs_password (ch_Purpose c) \<longrightarrow> passwordHash \<noteq> [] \<and> passwordHash = u_password_hash u) \<and>
     (if carries_secret (ch_Purpose c)
      then \<exists>secret n. PendingSecret st c = Inr secret \<and> Match (st_hmac st) secret input now (-1) = (n, True)
      else (\<exists>en n. active_code st (db e) (u_id u) input now en n \<and> en_last en < n \<and>
              (\<forall>r \<in> set (enrollments (db e')). en_user r = u_id u \<longrightarrow> en_last r = n)) \<or>
           (unused_recovery st (db e) (u_id u) input \<and> (ch_Purpose c \<noteq> Regenerate \<longrightarrow> \<not> unused_recovery st (db e') (u_id u) input))) \<and>
     (\<forall>c' \<in> set (challenges (db e')). ch_ID c' = ch_ID c \<longrightarrow> ch_ConsumedAt c' \<noteq> None) \<and>
     (\<forall>s \<in> set (sessions (db e')). se_ID s \<notin> se_ID ` set (sessions (db e)) \<longrightarrow>
        (ch_Purpose c = Login \<or> ch_Purpose c = Enrollment) \<and> vf_Session v = Some s \<and> se_UserID s = u_id u \<and> se_MFAVerifiedAt s = now)"
  using assms(1)
proof (rule Verify_Inr)
  fix e1 e2 :: "'a mfa_db_scheme env" and user
  assume d: "db e1 = db e" "db e' = db e2" and user: "\<exists>c \<in> set (challenges (db e)). ch_TokenHash c = HashToken (st_sha st) token \<and> ch_UserID c = user"
  assume "verify_tx st dr user token input sessionID passwordHash now0 e1 = (Inr (Accepted v), e2)"
  then show ?thesis
  proof (rule verify_tx_Inr)
    fix u c now effective counter valid recovery and a1 a2 :: "'a mfa_db_scheme env"
    assume u: "u \<in> set (users (db e1))" "u_id u = user" "u_active u"
      and c: "c \<in> set (challenges (db e1))" "ch_TokenHash c = HashToken (st_sha st) token" "ch_ConsumedAt c = None" "ch_Failures c < MaxFailures" "now < ch_ExpiresAt c"
      and own: "case ch_SessionID c of None \<Rightarrow> sessionID = 0
        | Some s \<Rightarrow> s = sessionID \<and> list_ex (\<lambda>s. se_ID s = sessionID \<and> se_UserID s = user) (sessions (db e1))"
      and f: "db a1 = db e1" "check_factor st c user input now a1 = (Inr (counter, valid, recovery), a2)" "db a2 = db e1"
      and out: "if answer_valid c u passwordHash valid
         then accept_answer st dr c u input sessionID now effective counter recovery a2 = (Inr (Accepted v), e2)
         else (\<exists>failures. record_failure c sessionID now a2 = (Inr failures, e2) \<and> Accepted v = Refused failures u effective now)"
    from user c d(1) have cu: "ch_UserID c = user"
      using distinct_by_id_eq [of ch_TokenHash "challenges (db e)"] assms(2) unfolding mfa_keys_def by (metis d(1))
    from out have ok: "answer_valid c u passwordHash valid"
        and acc: "accept_answer st dr c u input sessionID now effective counter recovery a2 = (Inr (Accepted v), e2)"
      by (auto split: if_splits)
    have da: "db a2 = db e" using f d by simp
    have "owns_session (db a2) (u_id u) sessionID" using own by (auto simp: owns_session_def u f(3) split: option.splits)
    note consumed = accept_consumes [OF acc this, unfolded da, OF assms(2) c(1) [unfolded d(1)]]
    have valid: valid and pass: "needs_password (ch_Purpose c) \<longrightarrow> passwordHash \<noteq> [] \<and> passwordHash = u_password_hash u"
      using ok unfolding answer_valid_def by blast+
    have shown: "if carries_secret (ch_Purpose c)
       then \<not> recovery \<and> (\<exists>secret. PendingSecret st c = Inr secret \<and> Match (st_hmac st) secret input now (-1) = (counter, True))
       else if recovery then unused_recovery st (db e) user input else (\<exists>en. active_code st (db e) user input now en counter)"
    proof -
      from f(2) valid have "check_factor st c user input now a1 = (Inr (counter, True, recovery), a2)" by simp
      from check_factor_Inr [OF this] show ?thesis unfolding f(1) d(1) .
    qed
    have factor: "if carries_secret (ch_Purpose c)
      then \<exists>secret n. PendingSecret st c = Inr secret \<and> Match (st_hmac st) secret input now (-1) = (n, True)
      else (\<exists>en n. active_code st (db e) (u_id u) input now en n \<and> en_last en < n \<and>
              (\<forall>r \<in> set (enrollments (db e')). en_user r = u_id u \<longrightarrow> en_last r = n)) \<or>
           (unused_recovery st (db e) (u_id u) input \<and> (ch_Purpose c \<noteq> Regenerate \<longrightarrow> \<not> unused_recovery st (db e') (u_id u) input))"
      by (rule accepted_factor [OF acc _ da d(2)]) (use shown u(2) in simp)
    show ?thesis
      by (rule exI [of _ c], rule exI [of _ u], rule exI [of _ now])
        (use u c cu pass factor consumed accept_sessions [OF acc] in \<open>auto simp: d da MaxFailures_def\<close>)
  qed
qed

section \<open>Failures\<close>

text \<open>The tables of the component, without the audit log.\<close>

definition same_tables :: "'a mfa_db_scheme \<Rightarrow> 'a mfa_db_scheme \<Rightarrow> bool" where
  "same_tables d d' \<longleftrightarrow> challenges d' = challenges d \<and> sessions d' = sessions d \<and> enrollments d' = enrollments d \<and>
     recovery_codes d' = recovery_codes d \<and> users d' = users d"

interpretation tables_kept: step_relation "same_tables :: 'a mfa_db_scheme \<Rightarrow> 'a mfa_db_scheme \<Rightarrow> bool"
  by unfold_locales (auto simp: same_tables_def)

lemma tables_kept_audit: "tables_kept.moves (audit_failures u effective now failures)"
proof -
  have "tables_kept.moves (Append event :: ('a mfa_db_scheme, unit) op)" for event
    unfolding Append_def insert_audit_def
    by (intro tables_kept.moves_intros tables_kept.moves_stmt) (auto simp: same_tables_def)
  then show ?thesis unfolding audit_failures_def by (intro tables_kept.moves_intros)
qed

lemma audit_failures_total: "\<exists>w e'. audit_failures u effective now failures e = (Inr w, e')"
proof -
  have "\<exists>w e'. for_each actions (\<lambda>action. bind_op (try_op (Append (mfa_event u effective now action))) (\<lambda>_. ret_op ())) e = (Inr w, e')" for actions
  proof (induction actions arbitrary: e)
    case (Cons action actions)
    obtain q e1 where "Append (mfa_event u effective now action) e = (q, e1)" by fastforce
    with Cons.IH [of e1] show ?case by (simp add: bind_op_def try_op_def ret_op_def)
  qed (simp add: ret_op_def)
  then show ?thesis unfolding audit_failures_def by blast
qed

lemma record_failure_Inr:
  assumes "record_failure c sessionID now e = (Inr failures, e')"
  shows "failures = Suc (ch_Failures c)"
    "enrollments (db e') = enrollments (db e)" "recovery_codes (db e') = recovery_codes (db e)" "users (db e') = users (db e)"
    "sessions (db e') = (if failures = MaxFailures \<and> ch_SessionID c \<noteq> None then filter (\<lambda>s. se_ID s \<noteq> sessionID) (sessions (db e)) else sessions (db e))"
    "\<forall>c' \<in> set (challenges (db e')). ch_ID c' = ch_ID c \<longrightarrow> ch_Failures c' = failures \<and> (ch_ConsumedAt c' \<noteq> None \<longleftrightarrow> failures = MaxFailures)"
    "failures \<noteq> MaxFailures \<Longrightarrow> ch_ID ` set (challenges (db e')) = ch_ID ` set (challenges (db e))"
proof -
  let ?f = "\<lambda>r. r\<lparr>ch_Failures := ch_Failures c + 1, ch_ConsumedAt := (if ch_Failures c + 1 = MaxFailures then Some now else None)\<rparr>"
  let ?gone = "failures = MaxFailures \<and> ch_SessionID c \<noteq> None"
  from assms obtain e1 where update: "update_challenges (\<lambda>r. ch_ID r = ch_ID c) ?f e = (Inr (), e1)" and n: "failures = Suc (ch_Failures c)"
      and rest: "if ?gone then (\<exists>n. delete_sessions (\<lambda>s. se_ID s = sessionID) e1 = (Inr n, e')) else e' = e1"
    unfolding record_failure_def Let_def by (auto simp: bind_op_Inr_iff ret_op_iff split: if_splits)
  from update have d1: "db e1 = (db e)\<lparr>challenges := sql_update (\<lambda>r. ch_ID r = ch_ID c) ?f (challenges (db e))\<rparr>"
    by (auto simp: update_challenges_def op_iff write_challenges_Inr split: sum.splits)
  show "failures = Suc (ch_Failures c)" by (fact n)
  show "enrollments (db e') = enrollments (db e)" "recovery_codes (db e') = recovery_codes (db e)" "users (db e') = users (db e)"
    "sessions (db e') = (if ?gone then filter (\<lambda>s. se_ID s \<noteq> sessionID) (sessions (db e)) else sessions (db e))"
    using rest by (auto simp: d1 delete_sessions_def Let_def op_iff split: if_splits)
  have "map ch_ID (sql_update (\<lambda>r. ch_ID r = ch_ID c) ?f (challenges (db e))) = map ch_ID (challenges (db e))"
    by (rule map_update_same) simp
  from arg_cong [OF this, of set] have ids: "ch_ID ` set (challenges (db e1)) = ch_ID ` set (challenges (db e))" by (simp add: d1)
  have "set (challenges (db e')) \<subseteq> set (challenges (db e1))" "\<not> ?gone \<Longrightarrow> challenges (db e') = challenges (db e1)"
    using rest by (auto simp: delete_sessions_def Let_def op_iff split: if_splits)
  then show "\<forall>c' \<in> set (challenges (db e')). ch_ID c' = ch_ID c \<longrightarrow> ch_Failures c' = failures \<and> (ch_ConsumedAt c' \<noteq> None \<longleftrightarrow> failures = MaxFailures)"
    "failures \<noteq> MaxFailures \<Longrightarrow> ch_ID ` set (challenges (db e')) = ch_ID ` set (challenges (db e))"
    using ids by (auto simp: d1 n set_sql_update split: if_splits)
qed

lemma Verify_Inl:
  assumes "Verify st dr token input sessionID passwordHash now0 e = (Inl x, e')"
  obtains (same) "db e' = db e"
  | (refused) user and b0 b1 :: "'a mfa_db_scheme env" and failures u effective now where "db b0 = db e"
      "verify_tx st dr user token input sessionID passwordHash now0 b0 = (Inr (Refused failures u effective now), b1)"
      "same_tables (db b1) (db e')" "x = (if failures = MaxFailures then ErrMFAExhausted else ErrMFAInvalid)"
proof -
  let ?find = "query (\<lambda>t d. get_row (\<lambda>c. ch_TokenHash c = HashToken (st_sha st) token) (challenges d)) :: ('a mfa_db_scheme, Challenge) op"
  obtain q e0 where find: "?find e = (q, e0)" by fastforce
  note d = query_db [OF find]
  show thesis
  proof (cases q)
    case Inl
    with assms find d same show thesis by (auto simp: Verify_def bind_op_def try_op_def fail_op_def)
  next
    case (Inr c)
    let ?tx = "verify_tx st dr (ch_UserID c) token input sessionID passwordHash now0"
    obtain r e1 where r: "tx_attempt ?tx e0 = (r, e1)" by fastforce
    have v: "(case r of Inl x \<Rightarrow> (Inl x, e1) | Inr out \<Rightarrow> (case out of Accepted v \<Rightarrow> ret_op v
         | Refused failures u effective now \<Rightarrow> bind_op (audit_failures u effective now failures)
             (\<lambda>_. fail_op (if failures = MaxFailures then ErrMFAExhausted else ErrMFAInvalid))) e1) = (Inl x, e')"
      using assms find Inr r by (simp add: Verify_def bind_op_def try_op_def)
    show thesis
    proof (cases r)
      case (Inl y)
      with v r d same show thesis by (auto dest: tx_attempt_Inl_db)
    next
      case out: (Inr out)
      with v obtain failures u effective now where o: "out = Refused failures u effective now" by (cases out) (auto simp: ret_op_iff)
      obtain w e2 where a: "audit_failures u effective now failures e1 = (Inr w, e2)" using audit_failures_total by blast
      with v out o have e': "e' = e2" and x: "x = (if failures = MaxFailures then ErrMFAExhausted else ErrMFAInvalid)"
        by (auto simp: bind_op_def fail_op_def)
      from r out o obtain b0 b1 where b: "db b0 = db e0" "?tx b0 = (Inr (Refused failures u effective now), b1)" "db e1 = db b1"
        by (auto elim: tx_attempt_InrE)
      have "same_tables (db b1) (db e')" using tables_kept.movesD [OF tables_kept_audit a] by (simp add: e' b(3))
      then show thesis using refused [of b0 "ch_UserID c" failures u effective now b1] b d x by simp
    qed
  qed
qed

text \<open>The only way to a refusal is a recorded failure of a live challenge.\<close>

lemma verify_tx_Refused:
  assumes "verify_tx st dr user token input sessionID passwordHash now0 e = (Inr (Refused failures u effective now), e')"
  obtains c now' a where "c \<in> set (challenges (db e))" "ch_TokenHash c = HashToken (st_sha st) token" "ch_ConsumedAt c = None"
    "ch_Failures c < MaxFailures" "ch_SessionID c = None \<or> ch_SessionID c = Some sessionID" "db a = db e"
    "record_failure c sessionID now' a = (Inr failures, e')"
proof (rule verify_tx_Inr [OF assms])
  fix u' and c :: Challenge and now' effective' counter valid recovery and a :: "'a mfa_db_scheme env"
  assume live: "c \<in> set (challenges (db e))" "ch_TokenHash c = HashToken (st_sha st) token" "ch_ConsumedAt c = None"
      "ch_Failures c < MaxFailures"
    and own: "case ch_SessionID c of None \<Rightarrow> sessionID = 0
      | Some s \<Rightarrow> s = sessionID \<and> list_ex (\<lambda>s. se_ID s = sessionID \<and> se_UserID s = user) (sessions (db e))"
    and d: "db a = db e"
    and out: "if answer_valid c u' passwordHash valid
       then accept_answer st dr c u' input sessionID now' effective' counter recovery a = (Inr (Refused failures u effective now), e')
       else (\<exists>f. record_failure c sessionID now' a = (Inr f, e') \<and> Refused failures u effective now = Refused f u' effective' now')"
  have "\<not> answer_valid c u' passwordHash valid"
  proof
    assume "answer_valid c u' passwordHash valid"
    with out have "accept_answer st dr c u' input sessionID now' effective' counter recovery a = (Inr (Refused failures u effective now), e')"
      by simp
    then show False by (rule accept_answer_Inr) simp
  qed
  with out have "record_failure c sessionID now' a = (Inr failures, e')" by auto
  moreover from own have "ch_SessionID c = None \<or> ch_SessionID c = Some sessionID" by (auto split: option.splits)
  ultimately show thesis using live d by (intro that [of c a now'])
qed


section \<open>Reset\<close>


section \<open>A sample store\<close>

definition sample_hash :: "string \<Rightarrow> hash" where
  "sample_hash text0 = take 32 (text0 @ replicate 32 (CHR ''0''))"

definition sample_store :: Store where
  "sample_store = \<lparr>st_Cipher = sample_cipher, st_Lifetime = hour, st_RememberLifetime = 2 * hour, st_IdleTimeout = hour, st_clock = None,
     st_sha = sample_hash, st_hmac = sample_hmac, st_upper = (\<lambda>r. r)\<rparr>"

definition sample_draws :: draws where
  "sample_draws = \<lparr>dr_token = Inr (replicate 32 (CHR ''r'')), dr_secret = Inr (replicate 20 (CHR ''k'')), dr_nonce = Inr (replicate 12 (CHR ''n'')),
     dr_codes = map (\<lambda>c. Inr (replicate 16 c)) ''abcdefghij''\<rparr>"

definition sample_user :: user_row where
  "sample_user = \<lparr>u_id = 7, u_username = ''ana'', u_password_hash = ''p'', u_role = 1, u_active = True, u_last_login = None\<rparr>"

definition sample_challenge :: "string \<Rightarrow> nat \<Rightarrow> Challenge" where
  "sample_challenge purpose failures =
     (new_challenge 7 0 purpose False ''/'' hour)\<lparr>ch_ID := 1, ch_TokenHash := sample_hash ''token'', ch_Failures := failures\<rparr>"

definition sample_secret :: string where
  "sample_secret = (case Encrypt sample_cipher (Inr (replicate 12 (CHR ''n''))) PurposeMFATOTPActive 7 ''ABCDEFGH'' of Inl _ \<Rightarrow> [] | Inr x \<Rightarrow> x)"

definition sample_mfa_db :: "Challenge list \<Rightarrow> mfa_db" where
  "sample_mfa_db cs = \<lparr>audit_logs = [], users = [sample_user], sessions = [], next_session = 1,
     enrollments = [\<lparr>en_user = 7, en_secret = sample_secret, en_last = 3, en_enrolled_at = 0, en_updated_at = 0\<rparr>],
     recovery_codes = [\<lparr>rc_user = 7, rc_hash = RecoveryHash sample_hash (\<lambda>r. r) 7 ''ab-cd'', rc_used_at = None, rc_created_at = 0\<rparr>],
     challenges = cs, next_challenge = 2, role_slugs = [(1, ''admin'')], role_grants = []\<rparr>"

definition sample_env :: "'d \<Rightarrow> 'd env" where
  "sample_env d = \<lparr>db = d, tick = 0, clock = (\<lambda>_. hour), fault = (\<lambda>_. None), locked = (\<lambda>_ _. False)\<rparr>"

text \<open>A login answered with the recovery code in another spelling.\<close>

lemma sample_login:
  "case fst (Verify sample_store sample_draws ''token'' '' ABCD '' 0 [] hour (sample_env (sample_mfa_db [sample_challenge Login 0]))) of
     Inl _ \<Rightarrow> False | Inr v \<Rightarrow> vf_Next v = ''/''"
  by code_simp

lemma sample_sel [simp]:
  "db (sample_env d) = d" "challenges (sample_mfa_db cs) = cs"
  "ch_ID (sample_challenge purpose n) = 1" "ch_UserID (sample_challenge purpose n) = 7"
  by (simp_all add: sample_env_def sample_mfa_db_def sample_challenge_def new_challenge_def)

lemma sample_keys: "mfa_keys (sample_mfa_db [sample_challenge Login 0])" "mfa_keys (sample_mfa_db [sample_challenge Login 4])"
    "mfa_inv (sample_mfa_db [])"
  by code_simp+

theorem Verify_proves_factor_witness:
  "\<exists>v e'. Verify sample_store sample_draws ''token'' '' ABCD '' 0 [] hour (sample_env (sample_mfa_db [sample_challenge Login 0])) = (Inr v, e') \<and>
     (\<forall>c \<in> set (challenges (db e')). ch_ID c = 1 \<longrightarrow> ch_ConsumedAt c \<noteq> None)"
proof -
  let ?e = "sample_env (sample_mfa_db [sample_challenge Login 0])"
  obtain v e' where run: "Verify sample_store sample_draws ''token'' '' ABCD '' 0 [] hour ?e = (Inr v, e')"
    using sample_login by (cases "Verify sample_store sample_draws ''token'' '' ABCD '' 0 [] hour ?e" rule: prod.exhaust) (auto split: sum.splits)
  have keys: "mfa_keys (db ?e)" using sample_keys(1) by simp
  from Verify_proves_factor [OF run keys]
  obtain c where "c \<in> set (challenges (db ?e))" "\<forall>c' \<in> set (challenges (db e')). ch_ID c' = ch_ID c \<longrightarrow> ch_ConsumedAt c' \<noteq> None"
    by blast
  then have "\<forall>c' \<in> set (challenges (db e')). ch_ID c' = 1 \<longrightarrow> ch_ConsumedAt c' \<noteq> None" by simp
  with run show ?thesis by blast
qed

text \<open>The fifth wrong answer.\<close>

lemma sample_exhausted:
  "fst (Verify sample_store sample_draws ''token'' ''wrong'' 0 [] hour (sample_env (sample_mfa_db [sample_challenge Login 4]))) = Inl ErrMFAExhausted"
  by code_simp


lemma sample_reset: "fst (Reset sample_store 7 0 0 None None hour (sample_env (sample_mfa_db [sample_challenge Login 0]))) = Inr ()"
  by code_simp



end
